(* ===== verification/Prelude.thy ===== *)
theory Prelude
  imports Main "HOL-Library.Word" "HOL-Library.Signed_Division"
begin

text \<open>
  Shared vocabulary of the development: the C types the model uses, the theorem collections the
  components extend, the laws of ring-indexed arrays (the frame queue's slots), C's truncating
  integer division, and a generic loop that drains a source into a state.
\<close>

named_theorems ring_simps \<open>reading and updating a window of a circular array\<close>
named_theorems frame_simps \<open>which fields an operation leaves alone\<close>

section \<open>C types\<close>

type_synonym byte = "8 word"
type_synonym bytes = "byte list"
type_synonym u32 = "32 word"
type_synonym u64 = "64 word"

text \<open>\<open>size_t\<close> on the target, a 32-bit ARM.\<close>

type_synonym size_t = "32 word"

section \<open>Signed integers of the C code\<close>

text \<open>
  Signed C integers are integers here, with the range of their type stated where it matters.
  C's \<open>/\<close> and \<open>%\<close> truncate towards zero; they are undefined for a zero divisor and for
  a quotient outside the type, which \<open>c_div32\<close> and \<open>c_mod32\<close> answer with \<open>None\<close>.
\<close>

definition in_i32 :: "int \<Rightarrow> bool" where
  "in_i32 x \<longleftrightarrow> - (2 ^ 31) \<le> x \<and> x < 2 ^ 31"

definition in_i64 :: "int \<Rightarrow> bool" where
  "in_i64 x \<longleftrightarrow> - (2 ^ 63) \<le> x \<and> x < 2 ^ 63"

definition c_quot :: "int \<Rightarrow> int \<Rightarrow> int" where
  "c_quot a b = a sdiv b"

definition c_div32 :: "int \<Rightarrow> int \<Rightarrow> int option" where
  "c_div32 a b = (if b = 0 \<or> \<not> in_i32 (a sdiv b) then None else Some (a sdiv b))"

definition c_mod32 :: "int \<Rightarrow> int \<Rightarrow> int option" where
  "c_mod32 a b = (if b = 0 \<or> \<not> in_i32 (a sdiv b) then None else Some (a smod b))"

lemma c_quot_nonneg: "0 \<le> a \<Longrightarrow> 0 < b \<Longrightarrow> c_quot a b = a div b"
  by (cases "a = 0") (auto simp: c_quot_def signed_divide_int_def)

lemma c_quot_ge_0: "0 \<le> a \<Longrightarrow> 0 < b \<Longrightarrow> 0 \<le> c_quot a b"
  by (simp add: c_quot_nonneg pos_imp_zdiv_nonneg_iff)

lemma c_quot_le: "0 \<le> a \<Longrightarrow> 0 < b \<Longrightarrow> c_quot a b \<le> a"
  by (metis c_quot_nonneg int_one_le_iff_zero_less div_by_1 zdiv_mono2 zero_less_one)

lemma c_quot_mult_le: "0 \<le> a \<Longrightarrow> 0 < b \<Longrightarrow> b * c_quot a b \<le> a"
  using pos_mod_sign[of b a] by (simp add: c_quot_nonneg minus_mod_eq_mult_div[symmetric])

lemma c_quot_bounds: "0 \<le> a \<Longrightarrow> 0 < b \<Longrightarrow> b * c_quot a b \<le> a \<and> a < b * c_quot a b + b"
  using pos_mod_sign [of b a] pos_mod_bound [of b a]
  by (simp add: c_quot_nonneg minus_mod_eq_mult_div [symmetric])

lemma c_quot_mono: "a \<le> b \<Longrightarrow> 0 < c \<Longrightarrow> c_quot a c \<le> c_quot b c"
proof -
  assume a: "a \<le> b" "0 < c"
  have q: "c_quot x c = (if 0 \<le> x then x div c else - ((- x) div c))" for x
    using a(2) by (cases "x = 0") (auto simp: c_quot_def signed_divide_int_def sgn_if zero_less_mult_iff mult_less_0_iff)
  show ?thesis
    using a zdiv_mono1 [OF a] zdiv_mono1 [of "- b" "- a" c] pos_imp_zdiv_nonneg_iff [of c b] pos_imp_zdiv_nonneg_iff [of c "- a"]
    by (auto simp: q)
qed

lemma u32_of_int: "0 \<le> x \<Longrightarrow> x < 2 ^ 32 \<Longrightarrow> uint (word_of_int x :: u32) = x"
  by (simp add: uint_word_of_int_eq take_bit_int_eq_self)

section \<open>Windows of a circular array\<close>

text \<open>
  The \<open>n\<close> elements of \<open>xs\<close> from index \<open>h\<close> on, wrapping at the end of \<open>xs\<close>.
\<close>

definition ring_items :: "'a list \<Rightarrow> nat \<Rightarrow> nat \<Rightarrow> 'a list" where
  "ring_items xs h n = map (\<lambda>k. xs ! ((h + k) mod length xs)) [0..<n]"

lemma length_ring_items [simp]: "length (ring_items xs h n) = n"
  by (simp add: ring_items_def)

lemma ring_items_0 [simp]: "ring_items xs h 0 = []"
  by (simp add: ring_items_def)

lemma ring_items_nth [simp]: "k < n \<Longrightarrow> ring_items xs h n ! k = xs ! ((h + k) mod length xs)"
  by (simp add: ring_items_def)

lemma ring_mod_inj:
  assumes "(h + k) mod n = (h + j) mod n" and "k < n" and "j < n"
  shows "k = (j::nat)"
proof (cases "k \<le> j")
  case True
  then have "n dvd j - k"
    using assms(1) mod_eq_dvd_iff_nat[of "h + k" "h + j" n] by simp
  with assms(3) show ?thesis using True by (auto dest: dvd_imp_le)
next
  case False
  then have "n dvd k - j"
    using assms(1) mod_eq_dvd_iff_nat[of "h + j" "h + k" n] by simp
  with assms(2) show ?thesis using False by (auto dest: dvd_imp_le)
qed

lemma ring_mod_neq:
  assumes "h < n" and "0 < k" and "k < n"
  shows "(h + k) mod n \<noteq> (h::nat)"
proof
  assume "(h + k) mod n = h"
  then have "(h + k) mod n = (h + 0) mod n" using assms(1) by simp
  then have "k = 0" by (rule ring_mod_inj) (use assms in simp_all)
  with assms(2) show False by simp
qed

lemma ring_items_Cons [ring_simps]:
  assumes "0 < n" and "h < length xs"
  shows "ring_items xs h n = xs ! h # ring_items xs (Suc h mod length xs) (n - 1)"
proof (rule nth_equalityI)
  show "length (ring_items xs h n) = length (xs ! h # ring_items xs (Suc h mod length xs) (n - 1))"
    using assms by simp
  fix k assume "k < length (ring_items xs h n)"
  then show "ring_items xs h n ! k = (xs ! h # ring_items xs (Suc h mod length xs) (n - 1)) ! k"
    using assms by (cases k) (simp_all add: mod_add_left_eq mod_Suc_eq)
qed

lemma ring_items_update_outside [ring_simps]:
  assumes "h < length xs" and "n \<le> k" and "k < length xs"
  shows "ring_items (xs[(h + k) mod length xs := x]) h n = ring_items xs h n"
proof (rule nth_equalityI)
  fix j assume "j < length (ring_items (xs[(h + k) mod length xs := x]) h n)"
  then have "j < n" by simp
  then have "(h + k) mod length xs \<noteq> (h + j) mod length xs"
    using ring_mod_inj[of h k "length xs" j] assms by auto
  with \<open>j < n\<close> show "ring_items (xs[(h + k) mod length xs := x]) h n ! j = ring_items xs h n ! j"
    by simp
qed simp

lemma ring_items_snoc [ring_simps]:
  assumes "h < length xs" and "n < length xs"
  shows "ring_items (xs[(h + n) mod length xs := x]) h (Suc n) = ring_items xs h n @ [x]"
proof -
  have "(h + n) mod length xs < length xs"
    by (rule mod_less_divisor) (use assms in linarith)
  then have "ring_items (xs[(h + n) mod length xs := x]) h (Suc n)
      = ring_items (xs[(h + n) mod length xs := x]) h n @ [x]"
    using assms by (simp add: ring_items_def nth_list_update)
  then show ?thesis using assms by (simp add: ring_items_update_outside)
qed

lemma ring_items_update_head [ring_simps]:
  assumes "h < length xs" and "n < length xs"
  shows "ring_items (xs[h := x]) (Suc h mod length xs) n = ring_items xs (Suc h mod length xs) n"
proof (rule nth_equalityI)
  fix j assume "j < length (ring_items (xs[h := x]) (Suc h mod length xs) n)"
  then have "j < n" by simp
  then have "(h + Suc j) mod length xs \<noteq> h"
    using assms by (intro ring_mod_neq) simp_all
  with \<open>j < n\<close> show "ring_items (xs[h := x]) (Suc h mod length xs) n ! j
      = ring_items xs (Suc h mod length xs) n ! j"
    by (auto simp: mod_add_left_eq)
qed simp

section \<open>Draining a source\<close>

text \<open>
  The shape of a consumer thread: take an item, process it, stop when the source has none.
  \<open>fuel\<close> bounds the number of items; \<open>None\<close> means it did not suffice.
\<close>

fun drain :: "('q \<Rightarrow> ('f \<times> 'q) option) \<Rightarrow> ('s \<Rightarrow> 'f \<Rightarrow> 's) \<Rightarrow> nat \<Rightarrow> 'q \<Rightarrow> 's \<Rightarrow> ('s \<times> 'q) option" where
  "drain getf body 0 q s = None"
| "drain getf body (Suc fuel) q s =
     (case getf q of
        None \<Rightarrow> Some (s, q)
      | Some (f, q') \<Rightarrow> drain getf body fuel q' (body s f))"

text \<open>A source with first-in first-out contents, as its consumer sees it.\<close>

locale fifo_source =
  fixes inv :: "'q \<Rightarrow> bool"
    and items :: "'q \<Rightarrow> 'f list"
    and getf :: "'q \<Rightarrow> ('f \<times> 'q) option"
  assumes getf_empty: "inv q \<Longrightarrow> items q = [] \<Longrightarrow> getf q = None"
    and getf_first: "inv q \<Longrightarrow> items q = f # fs \<Longrightarrow>
          \<exists>q'. getf q = Some (f, q') \<and> items q' = fs \<and> inv q'"
begin

lemma drain_all:
  "inv q \<Longrightarrow> length (items q) < fuel \<Longrightarrow>
     \<exists>q'. drain getf body fuel q s = Some (foldl body s (items q), q') \<and> inv q' \<and> items q' = []"
proof (induction fuel arbitrary: q s)
  case 0
  then show ?case by simp
next
  case (Suc fuel)
  show ?case
  proof (cases "items q")
    case Nil
    with Suc.prems show ?thesis by (simp add: getf_empty)
  next
    case (Cons f fs)
    with Suc.prems(1) obtain q' where q': "getf q = Some (f, q')" "items q' = fs" "inv q'"
      using getf_first by blast
    with Suc.IH[of q' "body s f"] Suc.prems(2) Cons show ?thesis by simp
  qed
qed

end

end
