(* ===== verification/FrameQueue.thy ===== *)
theory FrameQueue
  imports Prelude
begin

text \<open>
  \<open>src/frame_queue.c\<close>: the bounded queue of encoded H.264 frames between the capture thread
  and the writer thread. The model keeps the circular array of slots, its indices and flags as the
  C struct has them. Every operation is the body of one critical section of the queue's mutex.

  A slot's \<open>data\<close> pointer is \<open>None\<close> for \<open>NULL\<close> and \<open>Some b\<close> for a heap
  block the slot owns, holding the bytes \<open>b\<close>; operations that call \<open>free\<close> also return
  the blocks they released, in order, so that ownership can be accounted for. The outcome of
  \<open>malloc\<close>/\<open>calloc\<close> is a boolean argument.
\<close>

section \<open>Data\<close>

record slot_t =
  s_data :: "bytes option"
  s_len :: nat
  s_is_key :: bool
  s_pts_us :: int

record fq_frame =
  f_data :: "bytes option"
  f_len :: nat
  f_is_key :: bool
  f_pts_us :: int

record frame_queue =
  q_slots :: "slot_t list"
  q_capacity :: nat
  q_head :: nat
  q_tail :: nat
  q_count :: nat
  q_dropped :: size_t
  q_closed :: bool
  q_dropping :: bool

text \<open>The all-zero slot of \<open>calloc\<close>.\<close>

definition zero_slot :: slot_t where
  "zero_slot = \<lparr>s_data = None, s_len = 0, s_is_key = False, s_pts_us = 0\<rparr>"

definition freed_block :: "bytes option \<Rightarrow> bytes list" where
  "freed_block p = (case p of None \<Rightarrow> [] | Some b \<Rightarrow> [b])"

section \<open>Operations\<close>

definition fq_create :: "bool \<Rightarrow> bool \<Rightarrow> nat \<Rightarrow> frame_queue option" where
  "fq_create queue_ok slots_ok capacity =
     (if capacity = 0 then None
      else if \<not> queue_ok then None
      else if \<not> slots_ok then None
      else Some \<lparr>q_slots = replicate capacity zero_slot, q_capacity = capacity,
                 q_head = 0, q_tail = 0, q_count = 0, q_dropped = 0,
                 q_closed = False, q_dropping = False\<rparr>)"

text \<open>\<open>fq_destroy\<close> frees every slot's block, then the array and the queue.\<close>

definition fq_destroy :: "frame_queue option \<Rightarrow> bytes list" where
  "fq_destroy mq = (case mq of
       None \<Rightarrow> []
     | Some q \<Rightarrow> concat (map (\<lambda>i. freed_block (s_data (q_slots q ! i))) [0..<q_capacity q]))"

text \<open>One pass of the \<open>do\<close> body of \<open>drop_frames\<close>: the oldest frame goes.\<close>

definition drop_head :: "frame_queue \<Rightarrow> frame_queue" where
  "drop_head q =
     (let s = q_slots q ! q_head q in
      q\<lparr>q_slots := (q_slots q)[q_head q := s\<lparr>s_data := None, s_len := 0, s_is_key := False\<rparr>],
        q_head := (q_head q + 1) mod q_capacity q,
        q_count := q_count q - 1,
        q_dropped := q_dropped q + 1\<rparr>)"

function drop_loop :: "frame_queue \<Rightarrow> bytes list \<Rightarrow> frame_queue \<times> bytes list" where
  "drop_loop q freed =
     (let freed' = freed @ freed_block (s_data (q_slots q ! q_head q));
          q' = drop_head q
      in if \<not> s_is_key (q_slots q' ! q_head q') \<and> q_count q' > 0
         then drop_loop q' freed'
         else (q', freed'))"
  by pat_completeness auto
termination
  by (relation "measure (\<lambda>(q, freed). q_count q)") (auto simp: drop_head_def Let_def)

declare drop_loop.simps [simp del]

definition drop_frames :: "frame_queue \<Rightarrow> frame_queue \<times> bytes list" where
  "drop_frames q =
     (if q_count q = 0 then (q, [])
      else drop_loop (q\<lparr>q_dropping := True\<rparr>) [])"

text \<open>
  The critical section of \<open>fq_push\<close>, given the private copy of the data. It returns the
  queue, the blocks freed (the copy itself where it is discarded) and whether
  \<open>cond_nonempty\<close> was signalled.
\<close>

definition fq_push_locked ::
  "frame_queue \<Rightarrow> bytes \<Rightarrow> nat \<Rightarrow> bool \<Rightarrow> int \<Rightarrow> frame_queue \<times> bytes list \<times> bool" where
  "fq_push_locked q copy len is_key pts_us =
     (if q_closed q then (q, [copy], False)
      else if q_dropping q \<and> \<not> is_key
      then (q\<lparr>q_dropped := q_dropped q + 1\<rparr>, [copy], False)
      else
        let q1 = (if q_dropping q then q\<lparr>q_dropping := False\<rparr> else q);
            (q2, freed) = (if q_count q1 = q_capacity q1 then drop_frames q1 else (q1, []));
            s = \<lparr>s_data = Some copy, s_len = len, s_is_key = is_key, s_pts_us = pts_us\<rparr>
        in (q2\<lparr>q_slots := (q_slots q2)[q_tail q2 := s],
               q_tail := (q_tail q2 + 1) mod q_capacity q2,
               q_count := q_count q2 + 1\<rparr>, freed, True))"

definition fq_push ::
  "bool \<Rightarrow> frame_queue option \<Rightarrow> bytes option \<Rightarrow> nat \<Rightarrow> bool \<Rightarrow> int
     \<Rightarrow> int \<times> frame_queue option \<times> bytes list \<times> bool" where
  "fq_push malloc_ok mq data len is_key pts_us =
     (case (mq, data) of
        (Some q, Some d) \<Rightarrow>
          if len = 0 then (-1, mq, [], False)
          else if \<not> malloc_ok then (-1, mq, [], False)
          else (case fq_push_locked q (take len d) len is_key pts_us of
                  (q', freed, signalled) \<Rightarrow> (0, Some q', freed, signalled))
      | _ \<Rightarrow> (-1, mq, [], False))"

text \<open>
  \<open>fq_pop\<close> waits while the queue is empty and open: an evaluation of the wait's guard under
  the mutex answers \<open>PopBlocked\<close> there, and the caller sleeps on \<open>cond_nonempty\<close>.
\<close>

datatype pop_result = PopBlocked | PopRet int "fq_frame option"

definition slot_frame :: "slot_t \<Rightarrow> fq_frame" where
  "slot_frame s = \<lparr>f_data = s_data s, f_len = s_len s, f_is_key = s_is_key s,
                   f_pts_us = s_pts_us s\<rparr>"

definition fq_pop_locked :: "frame_queue \<Rightarrow> pop_result \<times> frame_queue" where
  "fq_pop_locked q =
     (if q_count q = 0 \<and> \<not> q_closed q then (PopBlocked, q)
      else if q_count q = 0 then (PopRet (-1) None, q)
      else
        (PopRet 0 (Some (slot_frame (q_slots q ! q_head q))),
         q\<lparr>q_slots := (q_slots q)[q_head q := (q_slots q ! q_head q)\<lparr>s_data := None\<rparr>],
           q_head := (q_head q + 1) mod q_capacity q,
           q_count := q_count q - 1\<rparr>))"

definition fq_pop :: "frame_queue option \<Rightarrow> bool \<Rightarrow> pop_result \<times> frame_queue option" where
  "fq_pop mq out_ok =
     (case mq of
        None \<Rightarrow> (PopRet (-1) None, None)
      | Some q \<Rightarrow>
          if \<not> out_ok then (PopRet (-1) None, mq)
          else (case fq_pop_locked q of (r, q') \<Rightarrow> (r, Some q')))"

definition fq_close :: "frame_queue option \<Rightarrow> frame_queue option" where
  "fq_close mq = (case mq of None \<Rightarrow> None | Some q \<Rightarrow> Some (q\<lparr>q_closed := True\<rparr>))"

definition fq_dropped :: "frame_queue \<Rightarrow> size_t" where
  "fq_dropped q = q_dropped q"

definition fq_depth :: "frame_queue \<Rightarrow> nat" where
  "fq_depth q = q_count q"

section \<open>Well-formed queues\<close>

text \<open>
  A slot inside the window owns a block of the recorded, non-zero length; a slot outside it owns
  none, although its other fields may be stale.
\<close>

definition live_slot :: "slot_t \<Rightarrow> bool" where
  "live_slot s \<longleftrightarrow> (\<exists>b. s_data s = Some b \<and> length b = s_len s \<and> 0 < s_len s)"

definition fq_inv :: "frame_queue \<Rightarrow> bool" where
  "fq_inv q \<longleftrightarrow>
     0 < q_capacity q \<and> length (q_slots q) = q_capacity q \<and>
     q_head q < q_capacity q \<and> q_count q \<le> q_capacity q \<and>
     q_tail q = (q_head q + q_count q) mod q_capacity q \<and>
     (\<forall>k < q_count q. live_slot (q_slots q ! ((q_head q + k) mod q_capacity q))) \<and>
     (\<forall>k. q_count q \<le> k \<and> k < q_capacity q \<longrightarrow>
        s_data (q_slots q ! ((q_head q + k) mod q_capacity q)) = None)"

definition fq_items :: "frame_queue \<Rightarrow> fq_frame list" where
  "fq_items q = map slot_frame (ring_items (q_slots q) (q_head q) (q_count q))"

text \<open>Every block a slot of the queue owns, live window or not.\<close>

definition fq_blocks :: "frame_queue \<Rightarrow> bytes list" where
  "fq_blocks q = concat (map (\<lambda>s. freed_block (s_data s)) (q_slots q))"

section \<open>The abstract queue\<close>

text \<open>
  What the queue promises its clients, over a plain list: \<open>isk\<close> tells which frames are
  keyframes. Overflow drops the oldest frame and then every frame up to the next keyframe.
\<close>

record 'f aqueue =
  a_items :: "'f list"
  a_cap :: nat
  a_dropped :: size_t
  a_closed :: bool
  a_dropping :: bool

definition a_drop :: "('f \<Rightarrow> bool) \<Rightarrow> 'f aqueue \<Rightarrow> 'f aqueue" where
  "a_drop isk a =
     (if a_items a = [] then a
      else let rest = dropWhile (\<lambda>f. \<not> isk f) (tl (a_items a)) in
        a\<lparr>a_items := rest,
          a_dropped := a_dropped a + of_nat (length (a_items a) - length rest),
          a_dropping := True\<rparr>)"

definition a_push :: "('f \<Rightarrow> bool) \<Rightarrow> 'f aqueue \<Rightarrow> 'f \<Rightarrow> 'f aqueue" where
  "a_push isk a f =
     (if a_closed a then a
      else if a_dropping a \<and> \<not> isk f then a\<lparr>a_dropped := a_dropped a + 1\<rparr>
      else
        let a1 = a\<lparr>a_dropping := False\<rparr>;
            a2 = (if length (a_items a1) = a_cap a1 then a_drop isk a1 else a1)
        in a2\<lparr>a_items := a_items a2 @ [f]\<rparr>)"

definition fq_abs :: "frame_queue \<Rightarrow> fq_frame aqueue" where
  "fq_abs q = \<lparr>a_items = fq_items q, a_cap = q_capacity q, a_dropped = q_dropped q,
               a_closed = q_closed q, a_dropping = q_dropping q\<rparr>"

end
