(* ===== verification/FrameQueueProps.thy ===== *)
theory FrameQueueProps
  imports FrameQueue "HOL-Library.Multiset"
begin

text \<open>
  Correctness of the frame queue: every operation keeps \<open>fq_inv\<close>, implements the abstract
  queue of \<open>FrameQueue\<close>, and neither leaks nor frees twice a frame's block.
\<close>

named_theorems fq_simps \<open>the queue's fields after an operation\<close>

section \<open>The window of live frames\<close>

lemma fq_inv_lengths:
  assumes "fq_inv q"
  shows "0 < q_capacity q" "length (q_slots q) = q_capacity q" "q_head q < q_capacity q"
    "q_head q < length (q_slots q)" "q_count q \<le> q_capacity q"
    "q_tail q = (q_head q + q_count q) mod q_capacity q"
  using assms by (auto simp: fq_inv_def)

lemma fq_inv_live:
  "fq_inv q \<Longrightarrow> k < q_count q \<Longrightarrow> live_slot (q_slots q ! ((q_head q + k) mod q_capacity q))"
  by (simp add: fq_inv_def)

lemma fq_inv_dead:
  "fq_inv q \<Longrightarrow> q_count q \<le> k \<Longrightarrow> k < q_capacity q \<Longrightarrow>
     s_data (q_slots q ! ((q_head q + k) mod q_capacity q)) = None"
  by (simp add: fq_inv_def)

lemma length_fq_items [simp]: "length (fq_items q) = q_count q"
  by (simp add: fq_items_def)

lemma fq_items_empty_iff: "fq_items q = [] \<longleftrightarrow> q_count q = 0"
  by (metis length_fq_items length_0_conv)

text \<open>The invariant depends on the queue's data fields only.\<close>

lemma fq_inv_flags [simp]:
  "fq_inv (q\<lparr>q_dropping := b\<rparr>) = fq_inv q"
  "fq_inv (q\<lparr>q_closed := b\<rparr>) = fq_inv q"
  "fq_inv (q\<lparr>q_dropped := d\<rparr>) = fq_inv q"
  by (simp_all add: fq_inv_def)

lemma fq_items_flags [simp]:
  "fq_items (q\<lparr>q_dropping := b\<rparr>) = fq_items q"
  "fq_items (q\<lparr>q_closed := b\<rparr>) = fq_items q"
  "fq_items (q\<lparr>q_dropped := d\<rparr>) = fq_items q"
  by (simp_all add: fq_items_def)

lemma fq_blocks_flags [simp]:
  "fq_blocks (q\<lparr>q_dropping := b\<rparr>) = fq_blocks q"
  "fq_blocks (q\<lparr>q_closed := b\<rparr>) = fq_blocks q"
  "fq_blocks (q\<lparr>q_dropped := d\<rparr>) = fq_blocks q"
  by (simp_all add: fq_blocks_def)

section \<open>Taking the oldest frame out\<close>

text \<open>
  \<open>drop_head\<close> and the removal in \<open>fq_pop\<close> differ in the stale fields they leave
  only; both overwrite the head slot with one that owns no block and step the head.
\<close>

definition advance :: "slot_t \<Rightarrow> frame_queue \<Rightarrow> frame_queue" where
  "advance s q = q\<lparr>q_slots := (q_slots q)[q_head q := s],
                   q_head := (q_head q + 1) mod q_capacity q,
                   q_count := q_count q - 1\<rparr>"

lemma advance_fields [fq_simps]:
  "q_capacity (advance s q) = q_capacity q" "q_dropped (advance s q) = q_dropped q"
  "q_closed (advance s q) = q_closed q" "q_dropping (advance s q) = q_dropping q"
  "q_count (advance s q) = q_count q - 1"
  by (simp_all add: advance_def)

lemma advance_items:
  assumes "fq_inv q" and "0 < q_count q"
  shows "fq_items q = slot_frame (q_slots q ! q_head q) # fq_items (advance s q)"
proof -
  note L = fq_inv_lengths [OF assms(1)]
  have "ring_items (q_slots q) (q_head q) (q_count q)
      = q_slots q ! q_head q # ring_items (q_slots q) (Suc (q_head q) mod q_capacity q) (q_count q - 1)"
    using L assms(2) by (simp add: ring_items_Cons)
  moreover have "ring_items ((q_slots q)[q_head q := s]) (Suc (q_head q) mod q_capacity q) (q_count q - 1)
      = ring_items (q_slots q) (Suc (q_head q) mod q_capacity q) (q_count q - 1)"
    using ring_items_update_head [of "q_head q" "q_slots q" "q_count q - 1" s] L assms(2) by simp
  ultimately show ?thesis by (simp add: fq_items_def advance_def)
qed

lemma advance_slot:
  assumes "fq_inv q" and "k < q_capacity q - 1"
  shows "q_slots (advance s q) ! ((q_head (advance s q) + k) mod q_capacity q)
    = q_slots q ! ((q_head q + Suc k) mod q_capacity q)"
proof -
  note L = fq_inv_lengths [OF assms(1)]
  have "(q_head q + Suc k) mod q_capacity q \<noteq> q_head q"
    using L assms(2) by (intro ring_mod_neq) simp_all
  then show ?thesis by (auto simp: advance_def mod_add_left_eq)
qed

lemma advance_last_slot:
  assumes "fq_inv q"
  shows "q_slots (advance s q) ! ((q_head (advance s q) + (q_capacity q - 1)) mod q_capacity q) = s"
proof -
  note L = fq_inv_lengths [OF assms]
  have "((q_head q + 1) mod q_capacity q + (q_capacity q - 1)) mod q_capacity q
      = (q_head q + 1 + (q_capacity q - 1)) mod q_capacity q"
    by (simp only: mod_add_left_eq)
  also have "q_head q + 1 + (q_capacity q - 1) = q_head q + q_capacity q"
    using L by simp
  finally show ?thesis using L by (simp add: advance_def)
qed

lemma advance_inv:
  assumes inv: "fq_inv q" and "0 < q_count q" and s: "s_data s = None"
  shows "fq_inv (advance s q)"
proof -
  note L = fq_inv_lengths [OF inv]
  have tail: "q_tail q = (q_head (advance s q) + (q_count q - 1)) mod q_capacity q"
  proof (cases "q_count q")
    case 0
    with assms(2) show ?thesis by simp
  next
    case (Suc n)
    with L show ?thesis by (simp add: advance_def mod_add_left_eq)
  qed
  have live: "live_slot (q_slots (advance s q) ! ((q_head (advance s q) + k) mod q_capacity q))"
    if "k < q_count q - 1" for k
    using that L fq_inv_live [OF inv, of "Suc k"] by (simp add: advance_slot [OF inv])
  have dead: "s_data (q_slots (advance s q) ! ((q_head (advance s q) + k) mod q_capacity q)) = None"
    if "q_count q - 1 \<le> k" "k < q_capacity q" for k
  proof (cases "k < q_capacity q - 1")
    case True
    then show ?thesis
      using that L assms(2) fq_inv_dead [OF inv, of "Suc k"] by (simp add: advance_slot [OF inv])
  next
    case False
    with that have "k = q_capacity q - 1" by simp
    then show ?thesis using s by (simp only: advance_last_slot [OF inv])
  qed
  have "q_head (advance s q) < q_capacity q" "length (q_slots (advance s q)) = q_capacity q"
    "q_count q - 1 \<le> q_capacity q" "q_tail (advance s q) = q_tail q"
    using L by (simp_all add: advance_def)
  with L live dead tail show ?thesis
    unfolding fq_inv_def by (simp add: fq_simps)
qed

lemma fq_head_live:
  assumes "fq_inv q" and "0 < q_count q"
  shows "live_slot (q_slots q ! q_head q)"
  using fq_inv_live [OF assms] fq_inv_lengths [OF assms(1)] by simp

section \<open>Ownership\<close>

definition frame_block :: "fq_frame \<Rightarrow> bytes" where
  "frame_block f = the (f_data f)"

lemma ring_items_rotate:
  "h < length xs \<Longrightarrow> ring_items xs h (length xs) = rotate h xs"
  by (rule nth_equalityI) (simp_all add: nth_rotate add.commute)

lemma mset_rotate: "mset (rotate n xs) = mset xs"
  by (metis append_take_drop_id mset_append rotate_drop_take union_commute)

lemma ring_items_split:
  "n \<le> m \<Longrightarrow> ring_items xs h m =
     ring_items xs h n @ map (\<lambda>k. xs ! ((h + k) mod length xs)) [n..<m]"
  by (simp add: ring_items_def map_append [symmetric] del: map_append)
    (metis le_add_diff_inverse upt_add_eq_append zero_le)

definition slot_blocks :: "slot_t list \<Rightarrow> bytes list" where
  "slot_blocks ss = concat (map (\<lambda>s. freed_block (s_data s)) ss)"

lemma slot_blocks_append: "slot_blocks (xs @ ys) = slot_blocks xs @ slot_blocks ys"
  by (simp add: slot_blocks_def)

lemma slot_blocks_live:
  "\<forall>s\<in>set ss. live_slot s \<Longrightarrow> slot_blocks ss = map frame_block (map slot_frame ss)"
  by (induction ss) (auto simp: slot_blocks_def live_slot_def freed_block_def frame_block_def slot_frame_def)

lemma slot_blocks_dead: "\<forall>s\<in>set ss. s_data s = None \<Longrightarrow> slot_blocks ss = []"
  by (simp add: slot_blocks_def freed_block_def)

lemma mset_slot_blocks: "mset (slot_blocks ss) = (\<Sum>s\<in>#mset ss. mset (freed_block (s_data s)))"
  by (induction ss) (simp_all add: slot_blocks_def)

text \<open>The blocks a well-formed queue owns are those of its frames, one each.\<close>

lemma fq_blocks_items:
  assumes "fq_inv q"
  shows "mset (fq_blocks q) = mset (map frame_block (fq_items q))"
proof -
  note L = fq_inv_lengths [OF assms]
  let ?live = "ring_items (q_slots q) (q_head q) (q_count q)"
  let ?dead = "map (\<lambda>k. q_slots q ! ((q_head q + k) mod length (q_slots q))) [q_count q..<q_capacity q]"
  have "mset (?live @ ?dead) = mset (q_slots q)"
    using L ring_items_rotate [of "q_head q" "q_slots q"]
      ring_items_split [of "q_count q" "q_capacity q" "q_slots q" "q_head q"]
    by (metis mset_rotate)
  then have "mset (fq_blocks q) = mset (slot_blocks (?live @ ?dead))"
    by (simp only: mset_slot_blocks fq_blocks_def slot_blocks_def [symmetric])
  also have "slot_blocks ?dead = []"
    using fq_inv_dead [OF assms] L by (intro slot_blocks_dead) auto
  then have "slot_blocks (?live @ ?dead) = slot_blocks ?live"
    by (simp only: slot_blocks_append append_Nil2)
  also have "slot_blocks ?live = map frame_block (fq_items q)"
    using fq_inv_live [OF assms] L
    by (subst slot_blocks_live) (auto simp: in_set_conv_nth fq_items_def)
  finally show ?thesis .
qed

section \<open>Overflow: dropping frames\<close>

lemma drop_head_advance:
  "drop_head q = (advance ((q_slots q ! q_head q)\<lparr>s_data := None, s_len := 0, s_is_key := False\<rparr>) q)
     \<lparr>q_dropped := q_dropped q + 1\<rparr>"
  by (simp add: drop_head_def advance_def Let_def)

lemma drop_head_inv: "fq_inv q \<Longrightarrow> 0 < q_count q \<Longrightarrow> fq_inv (drop_head q)"
  by (simp add: drop_head_advance advance_inv)

lemma drop_head_items:
  "fq_inv q \<Longrightarrow> 0 < q_count q \<Longrightarrow>
     fq_items q = slot_frame (q_slots q ! q_head q) # fq_items (drop_head q)"
  by (simp add: drop_head_advance advance_items)

lemma drop_head_fields [fq_simps]:
  "q_capacity (drop_head q) = q_capacity q" "q_dropped (drop_head q) = q_dropped q + 1"
  "q_closed (drop_head q) = q_closed q" "q_dropping (drop_head q) = q_dropping q"
  "q_count (drop_head q) = q_count q - 1"
  by (simp_all add: drop_head_advance fq_simps)

lemma fq_head_is_key:
  "fq_inv q \<Longrightarrow> 0 < q_count q \<Longrightarrow> s_is_key (q_slots q ! q_head q) = f_is_key (hd (fq_items q))"
  by (subst drop_head_items) (simp_all add: slot_frame_def)

lemma fq_head_block:
  assumes "fq_inv q" and "0 < q_count q"
  shows "freed_block (s_data (q_slots q ! q_head q)) = [frame_block (hd (fq_items q))]"
  using fq_head_live [OF assms] drop_head_items [OF assms]
  by (auto simp: live_slot_def freed_block_def frame_block_def slot_frame_def)

definition same_settings :: "frame_queue \<Rightarrow> frame_queue \<Rightarrow> bool" where
  "same_settings q q' \<longleftrightarrow> q_capacity q' = q_capacity q \<and> q_closed q' = q_closed q \<and>
     q_dropping q' = q_dropping q"

lemma drop_loop_spec:
  assumes "fq_inv q" and "0 < q_count q"
  shows "\<exists>q' gone. drop_loop q freed = (q', freed @ map frame_block gone) \<and> fq_inv q' \<and>
     same_settings q q' \<and> gone \<noteq> [] \<and> fq_items q = gone @ fq_items q' \<and>
     fq_items q' = dropWhile (\<lambda>f. \<not> f_is_key f) (tl (fq_items q)) \<and>
     q_dropped q' = q_dropped q + of_nat (length gone)"
  using assms
proof (induction q freed rule: drop_loop.induct)
  case (1 q freed)
  let ?q = "drop_head q" and ?f = "hd (fq_items q)"
  note inv = "1.prems"(1) and ne = "1.prems"(2)
  have inv': "fq_inv ?q" using inv ne by (rule drop_head_inv)
  have items: "fq_items q = ?f # fq_items ?q" using drop_head_items [OF inv ne] by simp
  have settings: "same_settings q ?q" by (simp add: same_settings_def fq_simps)
  show ?case
  proof (cases "\<not> s_is_key (q_slots ?q ! q_head ?q) \<and> q_count ?q > 0")
    case True
    then have ne': "0 < q_count ?q" by simp
    from "1.IH" [OF refl refl True inv' ne', unfolded fq_head_block [OF inv ne]]
    obtain q' gone where
      q': "drop_loop ?q (freed @ [frame_block ?f]) = (q', (freed @ [frame_block ?f]) @ map frame_block gone)"
      "fq_inv q'" "same_settings ?q q'" "fq_items ?q = gone @ fq_items q'"
      "fq_items q' = dropWhile (\<lambda>f. \<not> f_is_key f) (tl (fq_items ?q))"
      "q_dropped q' = q_dropped ?q + of_nat (length gone)"
      by blast
    have "\<not> f_is_key (hd (fq_items ?q))" and "fq_items ?q \<noteq> []"
      using True fq_head_is_key [OF inv' ne'] ne' by (auto simp: fq_items_empty_iff)
    then have "fq_items q' = dropWhile (\<lambda>f. \<not> f_is_key f) (fq_items ?q)"
      using q'(5) by (cases "fq_items ?q") auto
    moreover have "drop_loop q freed = (q', freed @ map frame_block (?f # gone))"
      using True q'(1) by (simp add: drop_loop.simps [of q] fq_head_block [OF inv ne])
    moreover have "q_dropped q' = q_dropped q + of_nat (length (?f # gone))"
      using q'(6) by (simp add: fq_simps)
    moreover have "fq_items q = (?f # gone) @ fq_items q'" using items q'(4) by simp
    moreover have "same_settings q q'" using settings q'(3) by (simp add: same_settings_def)
    ultimately show ?thesis using q'(2) items
      by (intro exI [of _ q'] exI [of _ "?f # gone"]) (metis list.sel(3) list.distinct(1))
  next
    case False
    have "dropWhile (\<lambda>f. \<not> f_is_key f) (fq_items ?q) = fq_items ?q"
    proof (cases "fq_items ?q")
      case (Cons f fs)
      then have "0 < q_count ?q" by (metis length_fq_items length_greater_0_conv list.distinct(1))
      with False fq_head_is_key [OF inv' this] Cons show ?thesis by simp
    qed simp
    moreover have "drop_loop q freed = (?q, freed @ map frame_block [?f])"
      using False by (auto simp: drop_loop.simps [of q] fq_head_block [OF inv ne])
    ultimately show ?thesis using inv' items settings
      by (intro exI [of _ ?q] exI [of _ "[?f]"])
        (metis append_Cons append_Nil fq_simps(7) length_Cons list.sel(3) list.size(3)
          not_Cons_self2 of_nat_1 One_nat_def)
  qed
qed

lemma drop_frames_spec:
  assumes "fq_inv q" and "0 < q_count q"
  shows "\<exists>q' gone. drop_frames q = (q', map frame_block gone) \<and> fq_inv q' \<and>
     q_capacity q' = q_capacity q \<and> q_closed q' = q_closed q \<and> q_dropping q' \<and>
     gone \<noteq> [] \<and> fq_items q = gone @ fq_items q' \<and>
     fq_items q' = dropWhile (\<lambda>f. \<not> f_is_key f) (tl (fq_items q)) \<and>
     q_dropped q' = q_dropped q + of_nat (length gone)"
  using drop_loop_spec [of "q\<lparr>q_dropping := True\<rparr>" "[]"] assms
  by (auto simp: drop_frames_def same_settings_def)

section \<open>Appending\<close>

definition fq_append :: "slot_t \<Rightarrow> frame_queue \<Rightarrow> frame_queue" where
  "fq_append s q = q\<lparr>q_slots := (q_slots q)[q_tail q := s],
                     q_tail := (q_tail q + 1) mod q_capacity q,
                     q_count := q_count q + 1\<rparr>"

lemma fq_append_fields [fq_simps]:
  "q_capacity (fq_append s q) = q_capacity q" "q_dropped (fq_append s q) = q_dropped q"
  "q_closed (fq_append s q) = q_closed q" "q_dropping (fq_append s q) = q_dropping q"
  "q_count (fq_append s q) = q_count q + 1"
  by (simp_all add: fq_append_def)

lemma fq_append_items:
  assumes "fq_inv q" and "q_count q < q_capacity q"
  shows "fq_items (fq_append s q) = fq_items q @ [slot_frame s]"
  using fq_inv_lengths [OF assms(1)] assms(2) ring_items_snoc [of "q_head q" "q_slots q" "q_count q" s]
  by (simp add: fq_items_def fq_append_def)

lemma fq_append_inv:
  assumes inv: "fq_inv q" and "q_count q < q_capacity q" and s: "live_slot s"
  shows "fq_inv (fq_append s q)"
proof -
  note L = fq_inv_lengths [OF inv]
  let ?i = "\<lambda>k. (q_head q + k) mod q_capacity q"
  have other: "q_slots (fq_append s q) ! ?i k = q_slots q ! ?i k"
    if "k < q_capacity q" "k \<noteq> q_count q" for k
  proof -
    have "?i (q_count q) \<noteq> ?i k"
      using ring_mod_inj [of "q_head q" "q_count q" "q_capacity q" k] that assms(2) by blast
    then show ?thesis using L by (simp add: fq_append_def)
  qed
  have new: "q_slots (fq_append s q) ! ?i (q_count q) = s"
    using L by (simp add: fq_append_def)
  have live: "live_slot (q_slots (fq_append s q) ! ?i k)" if "k < q_count q + 1" for k
  proof (cases "k = q_count q")
    case True
    with new s show ?thesis by simp
  next
    case False
    with that L other fq_inv_live [OF inv, of k] show ?thesis by simp
  qed
  have dead: "s_data (q_slots (fq_append s q) ! ?i k) = None" if "q_count q + 1 \<le> k" "k < q_capacity q" for k
    using that other fq_inv_dead [OF inv, of k] by simp
  have "q_tail (fq_append s q) = ?i (q_count q + 1)" "q_head (fq_append s q) = q_head q"
    "length (q_slots (fq_append s q)) = q_capacity q"
    using L by (simp_all add: fq_append_def mod_Suc_eq)
  with live dead L assms(2) show ?thesis
    unfolding fq_inv_def by (simp add: fq_simps)
qed

section \<open>Refinement of the abstract queue\<close>

definition pushed_frame :: "bytes \<Rightarrow> bool \<Rightarrow> int \<Rightarrow> fq_frame" where
  "pushed_frame b is_key pts_us =
     \<lparr>f_data = Some b, f_len = length b, f_is_key = is_key, f_pts_us = pts_us\<rparr>"

lemma pushed_frame_simps [simp]:
  "f_is_key (pushed_frame b k p) = k" "frame_block (pushed_frame b k p) = b"
  "f_pts_us (pushed_frame b k p) = p" "f_len (pushed_frame b k p) = length b"
  "f_data (pushed_frame b k p) = Some b"
  by (simp_all add: pushed_frame_def frame_block_def)

lemma slot_frame_pushed:
  "slot_frame \<lparr>s_data = Some b, s_len = length b, s_is_key = k, s_pts_us = p\<rparr> = pushed_frame b k p"
  by (simp add: slot_frame_def pushed_frame_def)

lemma fq_append_pushed:
  assumes "fq_inv q" and "q_count q < q_capacity q" and "b \<noteq> []"
  shows "fq_inv (fq_append \<lparr>s_data = Some b, s_len = length b, s_is_key = k, s_pts_us = p\<rparr> q)"
    and "fq_items (fq_append \<lparr>s_data = Some b, s_len = length b, s_is_key = k, s_pts_us = p\<rparr> q)
      = fq_items q @ [pushed_frame b k p]"
  using assms by (auto intro!: fq_append_inv simp: live_slot_def fq_append_items slot_frame_pushed)

lemma fq_push_locked_accept:
  assumes "\<not> q_closed q" and "q_dropping q \<longrightarrow> k"
  shows "fq_push_locked q b n k p =
    (case (if q_count q = q_capacity q then drop_frames (q\<lparr>q_dropping := False\<rparr>)
           else (q\<lparr>q_dropping := False\<rparr>, [])) of
       (q2, freed) \<Rightarrow>
         (fq_append \<lparr>s_data = Some b, s_len = n, s_is_key = k, s_pts_us = p\<rparr> q2, freed, True))"
proof -
  have "(if q_dropping q then q\<lparr>q_dropping := False\<rparr> else q) = q\<lparr>q_dropping := False\<rparr>"
    by (cases q) simp
  moreover have "\<not> (q_dropping q \<and> \<not> k)" using assms(2) by simp
  ultimately show ?thesis
    using assms(1) by (simp only: fq_push_locked_def Let_def fq_append_def) simp
qed

text \<open>An accepted push, on a full queue (which drops first) and where there is room.\<close>

lemma fq_push_full:
  assumes inv: "fq_inv q" and ne: "b \<noteq> []" and full: "\<not> q_closed q" "q_dropping q \<longrightarrow> k" "q_count q = q_capacity q"
  shows "\<exists>q' freed. fq_push_locked q b (length b) k p = (q', freed, True) \<and> fq_inv q' \<and>
     fq_abs q' = a_push f_is_key (fq_abs q) (pushed_frame b k p) \<and>
     mset (map frame_block (fq_items q')) + mset freed = mset (map frame_block (fq_items q)) + {#b#} \<and> 0 < q_count q'"
proof -
  let ?q1 = "q\<lparr>q_dropping := False\<rparr>"
  note L = fq_inv_lengths [OF inv]
  have "fq_inv ?q1" "0 < q_count ?q1" using inv full L by simp_all
  from drop_frames_spec [OF this, unfolded fq_items_flags] obtain q2 gone where
    q2: "drop_frames ?q1 = (q2, map frame_block gone)" "fq_inv q2"
    "q_capacity q2 = q_capacity ?q1" "q_closed q2 = q_closed ?q1" "q_dropping q2" "gone \<noteq> []"
    "fq_items q = gone @ fq_items q2"
    "fq_items q2 = dropWhile (\<lambda>f. \<not> f_is_key f) (tl (fq_items q))"
    "q_dropped q2 = q_dropped ?q1 + of_nat (length gone)"
    by blast
  have count: "q_count q2 = q_count q - length gone"
    using q2(7) length_fq_items [of q] length_fq_items [of q2]
    by (metis add_diff_cancel_left' length_append)
  with q2(6) full L have room2: "q_count q2 < q_capacity q2" using q2(3) by simp
  let ?s = "\<lparr>s_data = Some b, s_len = length b, s_is_key = k, s_pts_us = p\<rparr>"
  have push: "fq_push_locked q b (length b) k p = (fq_append ?s q2, map frame_block gone, True)"
    using full q2(1) by (simp add: fq_push_locked_accept)
  have items: "fq_items (fq_append ?s q2) = fq_items q2 @ [pushed_frame b k p]"
    using fq_append_pushed(2) [OF q2(2) room2 ne] .
  have "fq_items q \<noteq> []" and "length (fq_items q) = q_capacity q"
    using full L by (auto simp: fq_items_empty_iff)
  moreover have "length (fq_items q) - length (fq_items q2) = length gone" using q2(7) by simp
  ultimately have "fq_abs (fq_append ?s q2) = a_push f_is_key (fq_abs q) (pushed_frame b k p)"
    using full items q2(3-5,9) q2(8) [symmetric]
    by (auto simp: a_push_def a_drop_def fq_abs_def fq_simps Let_def)
  moreover have "mset (map frame_block (fq_items (fq_append ?s q2))) + mset (map frame_block gone)
      = mset (map frame_block (fq_items q)) + {#b#}"
    using items q2(7) by simp
  ultimately show ?thesis
    using push fq_append_pushed(1) [OF q2(2) room2 ne] full by (simp add: fq_simps)
qed

lemma fq_push_room:
  assumes inv: "fq_inv q" and ne: "b \<noteq> []" and room: "\<not> q_closed q" "q_dropping q \<longrightarrow> k" "q_count q \<noteq> q_capacity q"
  shows "\<exists>q' freed. fq_push_locked q b (length b) k p = (q', freed, True) \<and> fq_inv q' \<and>
     fq_abs q' = a_push f_is_key (fq_abs q) (pushed_frame b k p) \<and>
     mset (map frame_block (fq_items q')) + mset freed = mset (map frame_block (fq_items q)) + {#b#} \<and> 0 < q_count q'"
proof -
  let ?q1 = "q\<lparr>q_dropping := False\<rparr>"
  note L = fq_inv_lengths [OF inv]
  let ?s = "\<lparr>s_data = Some b, s_len = length b, s_is_key = k, s_pts_us = p\<rparr>"
  have room1: "q_count ?q1 < q_capacity ?q1" and inv1: "fq_inv ?q1" using L room inv by simp_all
  have push: "fq_push_locked q b (length b) k p = (fq_append ?s ?q1, [], True)"
    using room by (simp add: fq_push_locked_accept)
  have items: "fq_items (fq_append ?s ?q1) = fq_items q @ [pushed_frame b k p]"
    using fq_append_pushed(2) [OF inv1 room1 ne] by simp
  then have "fq_abs (fq_append ?s ?q1) = a_push f_is_key (fq_abs q) (pushed_frame b k p)"
    using room by (simp add: a_push_def fq_abs_def fq_simps)
  with push items room show ?thesis
    using fq_append_pushed(1) [OF inv1 room1 ne] by (simp add: fq_simps)
qed

text \<open>
  What one critical section of \<open>fq_push\<close> does, in terms of the frames it dropped: nothing
  else is lost, and the blocks freed are exactly those of the frames that left.
\<close>

lemma fq_push_locked_spec:
  assumes inv: "fq_inv q" and ne: "b \<noteq> []"
  shows "\<exists>q' freed. fq_push_locked q b (length b) k p
       = (q', freed, \<not> q_closed q \<and> (q_dropping q \<longrightarrow> k)) \<and> fq_inv q' \<and>
     fq_abs q' = a_push f_is_key (fq_abs q) (pushed_frame b k p) \<and>
     mset (map frame_block (fq_items q')) + mset freed
       = mset (map frame_block (fq_items q)) + {#b#} \<and>
     (\<not> q_closed q \<longrightarrow> (q_dropping q \<longrightarrow> k) \<longrightarrow> 0 < q_count q')"
proof -
  consider (closed) "q_closed q" | (refused) "\<not> q_closed q" "q_dropping q" "\<not> k"
    | (full) "\<not> q_closed q" "q_dropping q \<longrightarrow> k" "q_count q = q_capacity q"
    | (room) "\<not> q_closed q" "q_dropping q \<longrightarrow> k" "q_count q \<noteq> q_capacity q"
    by blast
  then show ?thesis
  proof cases
    case closed
    then show ?thesis using inv by (auto simp: fq_push_locked_def a_push_def fq_abs_def)
  next
    case refused
    then show ?thesis using inv by (auto simp: fq_push_locked_def a_push_def fq_abs_def)
  next
    case full
    then show ?thesis using fq_push_full [OF inv ne full] by auto
  next
    case room
    then show ?thesis using fq_push_room [OF inv ne room] by auto
  qed
qed

lemma fq_pop_locked_spec:
  assumes "fq_inv q"
  shows "case fq_items q of
      [] \<Rightarrow> fq_pop_locked q = (if q_closed q then PopRet (-1) None else PopBlocked, q)
    | f # fs \<Rightarrow> \<exists>q'. fq_pop_locked q = (PopRet 0 (Some f), q') \<and> fq_inv q' \<and>
        fq_abs q' = (fq_abs q)\<lparr>a_items := fs\<rparr>"
proof (cases "fq_items q")
  case Nil
  then have "q_count q = 0" by (simp add: fq_items_empty_iff)
  with Nil show ?thesis by (simp add: fq_pop_locked_def)
next
  case (Cons f fs)
  then have ne: "0 < q_count q" using length_fq_items [of q] by (metis length_greater_0_conv list.distinct(1))
  let ?s = "(q_slots q ! q_head q)\<lparr>s_data := None\<rparr>"
  have "fq_pop_locked q = (PopRet 0 (Some (slot_frame (q_slots q ! q_head q))), advance ?s q)"
    using ne by (simp add: fq_pop_locked_def advance_def)
  moreover have "slot_frame (q_slots q ! q_head q) = f" "fq_items (advance ?s q) = fs"
    using advance_items [OF assms ne, of ?s] Cons by simp_all
  moreover have "fq_inv (advance ?s q)" using assms ne by (intro advance_inv) simp_all
  ultimately show ?thesis using Cons by (simp add: fq_abs_def fq_simps)
qed

text \<open>The consumer's view: a first-in first-out source.\<close>

definition fq_take :: "frame_queue \<Rightarrow> (fq_frame \<times> frame_queue) option" where
  "fq_take q = (case fq_pop_locked q of
      (PopRet r (Some f), q') \<Rightarrow> if r = 0 then Some (f, q') else None
    | _ \<Rightarrow> None)"

interpretation fqs: fifo_source fq_inv fq_items fq_take
proof unfold_locales
  fix q assume "fq_inv q" "fq_items q = []"
  then show "fq_take q = None"
    using fq_pop_locked_spec [of q] by (simp add: fq_take_def)
next
  fix q f fs assume inv: "fq_inv q" and items: "fq_items q = f # fs"
  then obtain q' where "fq_pop_locked q = (PopRet 0 (Some f), q')" "fq_inv q'"
    "fq_abs q' = (fq_abs q)\<lparr>a_items := fs\<rparr>"
    using fq_pop_locked_spec [of q] by auto
  then show "\<exists>q'. fq_take q = Some (f, q') \<and> fq_items q' = fs \<and> fq_inv q'"
    by (simp add: fq_take_def fq_abs_def)
qed

lemma fq_create_inv: "fq_create True True c = Some q \<Longrightarrow>
   fq_inv q \<and> fq_abs q = \<lparr>a_items = [], a_cap = c, a_dropped = 0, a_closed = False, a_dropping = False\<rparr>"
  by (auto simp: fq_create_def fq_inv_def fq_abs_def fq_items_def zero_slot_def split: if_splits)

lemma fq_destroy_blocks:
  assumes "fq_inv q"
  shows "mset (fq_destroy (Some q)) = mset (map frame_block (fq_items q))"
proof -
  have "map (\<lambda>i. freed_block (s_data (q_slots q ! i))) [0..<q_capacity q]
      = map (\<lambda>s. freed_block (s_data s)) (q_slots q)"
    using fq_inv_lengths [OF assms] by (intro nth_equalityI) simp_all
  then show ?thesis
    using fq_blocks_items [OF assms] by (simp add: fq_destroy_def fq_blocks_def)
qed

end
