(* ===== verification/FrameQueueRuns.thy ===== *)
theory FrameQueueRuns
  imports FrameQueueProps
begin

text \<open>
  Whole executions of the frame queue: what the consumer has received after any interleaving of
  pushes, pops and a close; the accounting of frames and of memory blocks; and the monitor that the
  mutex and \<open>cond_nonempty\<close> form with one producer and one consumer.
\<close>

section \<open>Runs\<close>

datatype fq_event = EvPush bytes bool int | EvPop | EvClose

text \<open>
  The queue with a log: the frames offered to it, those offered after the close, the frames the
  consumer received, the blocks \<open>fq_push\<close> allocated and the blocks it freed.
\<close>

record fq_trace =
  t_q :: frame_queue
  t_offered :: "fq_frame list"
  t_late :: nat
  t_out :: "fq_frame list"
  t_alloc :: "bytes list"
  t_freed :: "bytes list"

fun run_event :: "fq_trace \<Rightarrow> fq_event \<Rightarrow> fq_trace" where
  "run_event t (EvPush d k p) =
     (case fq_push True (Some (t_q t)) (Some d) (length d) k p of
        (rc, mq, freed, _) \<Rightarrow>
          if rc = 0
          then t\<lparr>t_q := the mq,
                 t_offered := t_offered t @ [pushed_frame d k p],
                 t_late := t_late t + (if q_closed (t_q t) then 1 else 0),
                 t_alloc := t_alloc t @ [d],
                 t_freed := t_freed t @ freed\<rparr>
          else t)"
| "run_event t EvPop =
     (case fq_pop (Some (t_q t)) True of
        (r, mq) \<Rightarrow>
          t\<lparr>t_q := the mq,
            t_out := t_out t @ (case r of PopRet _ (Some f) \<Rightarrow> [f] | _ \<Rightarrow> [])\<rparr>)"
| "run_event t EvClose = t\<lparr>t_q := the (fq_close (Some (t_q t)))\<rparr>"

definition start_trace :: "frame_queue \<Rightarrow> fq_trace" where
  "start_trace q = \<lparr>t_q = q, t_offered = [], t_late = 0, t_out = [], t_alloc = [], t_freed = []\<rparr>"

definition run_fq :: "nat \<Rightarrow> fq_event list \<Rightarrow> fq_trace" where
  "run_fq c evs = foldl run_event (start_trace (the (fq_create True True c))) evs"

lemma run_fq_snoc: "run_fq c (evs @ [e]) = run_event (run_fq c evs) e"
  by (simp add: run_fq_def)

declare run_event.simps [simp del]

lemma fq_abs_sel [simp]:
  "a_items (fq_abs q) = fq_items q" "a_cap (fq_abs q) = q_capacity q"
  "a_dropped (fq_abs q) = q_dropped q" "a_closed (fq_abs q) = q_closed q"
  "a_dropping (fq_abs q) = q_dropping q"
  by (simp_all add: fq_abs_def)

lemma a_push_settings [simp]:
  "a_cap (a_push isk a f) = a_cap a" "a_closed (a_push isk a f) = a_closed a"
  by (simp_all add: a_push_def a_drop_def Let_def)

text \<open>What one event can do to a well-formed queue.\<close>

lemma run_event_push:
  assumes "fq_inv (t_q t)" and "d \<noteq> []"
  shows "\<exists>q' freed. run_event t (EvPush d k p) =
      t\<lparr>t_q := q', t_offered := t_offered t @ [pushed_frame d k p],
        t_late := t_late t + (if q_closed (t_q t) then 1 else 0),
        t_alloc := t_alloc t @ [d], t_freed := t_freed t @ freed\<rparr> \<and>
    fq_inv q' \<and> fq_abs q' = a_push f_is_key (fq_abs (t_q t)) (pushed_frame d k p) \<and>
    mset (map frame_block (fq_items q')) + mset freed
      = mset (map frame_block (fq_items (t_q t))) + {#d#}"
proof -
  from fq_push_locked_spec [OF assms, of k p] obtain q' freed where
    "fq_push_locked (t_q t) d (length d) k p
      = (q', freed, \<not> q_closed (t_q t) \<and> (q_dropping (t_q t) \<longrightarrow> k))"
    "fq_inv q'" "fq_abs q' = a_push f_is_key (fq_abs (t_q t)) (pushed_frame d k p)"
    "mset (map frame_block (fq_items q')) + mset freed
      = mset (map frame_block (fq_items (t_q t))) + {#d#}"
    by blast
  then show ?thesis using assms(2)
    by (intro exI [of _ q'] exI [of _ freed]) (simp add: fq_push_def run_event.simps)
qed

lemma run_event_cases [consumes 1, case_names stay push pop close]:
  assumes inv: "fq_inv (t_q t)"
  obtains (stay) "run_event t e = t"
  | (push) d k p q' freed where "e = EvPush d k p" "d \<noteq> []"
      "run_event t e =
        t\<lparr>t_q := q', t_offered := t_offered t @ [pushed_frame d k p],
          t_late := t_late t + (if q_closed (t_q t) then 1 else 0),
          t_alloc := t_alloc t @ [d], t_freed := t_freed t @ freed\<rparr>"
      "fq_inv q'" "fq_abs q' = a_push f_is_key (fq_abs (t_q t)) (pushed_frame d k p)"
      "mset (map frame_block (fq_items q')) + mset freed
        = mset (map frame_block (fq_items (t_q t))) + {#d#}"
  | (pop) f q' where "fq_items (t_q t) = f # fq_items q'"
      "run_event t e = t\<lparr>t_q := q', t_out := t_out t @ [f]\<rparr>"
      "fq_inv q'" "q_capacity q' = q_capacity (t_q t)" "q_dropped q' = q_dropped (t_q t)"
      "q_closed q' = q_closed (t_q t)" "q_dropping q' = q_dropping (t_q t)"
  | (close) "run_event t e = t\<lparr>t_q := (t_q t)\<lparr>q_closed := True\<rparr>\<rparr>"
proof (cases e)
  case (EvPush d k p)
  show thesis
  proof (cases "d = []")
    case True
    with EvPush show thesis by (intro stay) (simp add: run_event.simps fq_push_def)
  next
    case False
    with EvPush run_event_push [OF inv False, of k p] push show thesis by blast
  qed
next
  case EvPop
  show thesis
  proof (cases "fq_items (t_q t)")
    case Nil
    with EvPop fq_pop_locked_spec [OF inv] show thesis
      by (intro stay) (simp add: run_event.simps fq_pop_def split: if_splits)
  next
    case (Cons f fs)
    with fq_pop_locked_spec [OF inv] obtain q' where
      q': "fq_pop_locked (t_q t) = (PopRet 0 (Some f), q')" "fq_inv q'"
      "fq_abs q' = (fq_abs (t_q t))\<lparr>a_items := fs\<rparr>" by auto
    have "run_event t e = t\<lparr>t_q := q', t_out := t_out t @ [f]\<rparr>"
      using EvPop q'(1) by (simp add: run_event.simps fq_pop_def)
    with q' Cons show thesis by (intro pop [of f q']) (simp_all add: fq_abs_def)
  qed
next
  case EvClose
  then show thesis by (intro close) (simp add: run_event.simps fq_close_def)
qed

lemma run_event_inv: "fq_inv (t_q t) \<Longrightarrow> fq_inv (t_q (run_event t e))"
  by (cases rule: run_event_cases [of t e]) simp_all

lemma run_event_capacity:
  assumes "fq_inv (t_q t)"
  shows "q_capacity (t_q (run_event t e)) = q_capacity (t_q t)"
  using assms
proof (cases rule: run_event_cases [of t e])
  case (push d k p q' freed)
  then have "a_cap (fq_abs q') = a_cap (fq_abs (t_q t))" by (simp only: a_push_settings)
  with push(3) show ?thesis by simp
qed simp_all

lemma run_fq_start: "0 < c \<Longrightarrow> run_fq c [] =
   \<lparr>t_q = the (fq_create True True c), t_offered = [], t_late = 0, t_out = [], t_alloc = [], t_freed = []\<rparr>
   \<and> fq_inv (the (fq_create True True c))
   \<and> fq_abs (the (fq_create True True c))
     = \<lparr>a_items = [], a_cap = c, a_dropped = 0, a_closed = False, a_dropping = False\<rparr>"
  using fq_create_inv [of c "the (fq_create True True c)"]
  by (simp add: run_fq_def start_trace_def fq_create_def)

lemma run_fq_inv: "0 < c \<Longrightarrow> fq_inv (t_q (run_fq c evs))"
  by (induction evs rule: rev_induct) (simp_all add: run_fq_start run_fq_snoc run_event_inv)

lemma run_fq_capacity: "0 < c \<Longrightarrow> q_capacity (t_q (run_fq c evs)) = c"
  by (induction evs rule: rev_induct)
    (use run_fq_start [of c] fq_abs_sel(2) [of "the (fq_create True True c)"] in
      \<open>simp_all add: run_fq_snoc run_event_capacity run_fq_inv\<close>)

section \<open>Every block and every frame is accounted for\<close>

definition accounted :: "fq_trace \<Rightarrow> bool" where
  "accounted t \<longleftrightarrow>
     mset (t_alloc t) = mset (t_freed t) + mset (map frame_block (t_out t))
       + mset (map frame_block (fq_items (t_q t))) \<and>
     of_nat (length (t_offered t))
       = of_nat (length (t_out t) + q_count (t_q t) + t_late t) + q_dropped (t_q t)"

lemma a_push_count:
  "of_nat (length (a_items (a_push isk a f))) + a_dropped (a_push isk a f)
     = of_nat (length (a_items a)) + a_dropped a + (if a_closed a then 0 else 1)"
proof -
  have "length (dropWhile (\<lambda>f. \<not> isk f) (tl (a_items a))) \<le> length (a_items a)"
    by (rule order_trans [OF length_dropWhile_le]) simp
  then show ?thesis by (auto simp: a_push_def a_drop_def Let_def of_nat_diff)
qed

lemma run_event_accounted:
  assumes inv: "fq_inv (t_q t)" and acc: "accounted t"
  shows "accounted (run_event t e)"
  using inv
proof (cases rule: run_event_cases [of t e])
  case stay
  with acc show ?thesis by simp
next
  case (push d k p q' freed)
  have "of_nat (q_count q') + q_dropped q' = of_nat (q_count (t_q t)) + q_dropped (t_q t)
      + (if q_closed (t_q t) then 0 else 1)"
    using a_push_count [of f_is_key "fq_abs (t_q t)" "pushed_frame d k p", folded push(5)] by simp
  with acc have "of_nat (length (t_offered t) + 1)
      = of_nat (length (t_out t) + q_count q' + (t_late t + (if q_closed (t_q t) then 1 else 0)))
        + q_dropped q'"
    by (auto simp: accounted_def algebra_simps split: if_splits)
  moreover have "mset (t_alloc t) + {#d#} = mset (t_freed t) + mset freed
      + mset (map frame_block (t_out t)) + mset (map frame_block (fq_items q'))"
    using acc push(6) by (simp add: accounted_def union_ac)
  ultimately show ?thesis using push(3) by (simp add: accounted_def)
next
  case (pop f q')
  then have "q_count (t_q t) = Suc (q_count q')"
    using length_fq_items [of "t_q t"] length_fq_items [of q'] by simp
  with pop acc show ?thesis by (simp add: accounted_def)
next
  case close
  with acc show ?thesis by (simp add: accounted_def)
qed

lemma run_fq_accounted: "0 < c \<Longrightarrow> accounted (run_fq c evs)"
proof (induction evs rule: rev_induct)
  case Nil
  then show ?case
    using run_fq_start [of c] fq_abs_sel [of "the (fq_create True True c)"]
      length_fq_items [of "the (fq_create True True c)"]
    by (simp add: accounted_def)
next
  case (snoc e evs)
  then show ?case by (simp only: run_fq_snoc run_event_accounted run_fq_inv)
qed

section \<open>No gaps inside a group of pictures\<close>

text \<open>
  A non-key H.264 frame decodes only after the frame the encoder emitted right before it.
  \<open>gap_ok\<close> says this of a list of positions in the encoder's output: each is a keyframe or
  the position expected next.
\<close>

fun gap_ok :: "(nat \<Rightarrow> bool) \<Rightarrow> nat \<Rightarrow> nat list \<Rightarrow> bool" where
  "gap_ok key p [] = True"
| "gap_ok key p (i # is) = ((key i \<or> i = p) \<and> gap_ok key (Suc i) is)"

definition next_pos :: "nat \<Rightarrow> nat list \<Rightarrow> nat" where
  "next_pos p is = (if is = [] then p else Suc (last is))"

lemma gap_ok_append: "gap_ok key p (xs @ ys) = (gap_ok key p xs \<and> gap_ok key (next_pos p xs) ys)"
  by (induction key p xs rule: gap_ok.induct) (simp_all add: next_pos_def)

lemma next_pos_append: "next_pos p (xs @ ys) = next_pos (next_pos p xs) ys"
  by (simp add: next_pos_def)

lemma gap_ok_restart: "gap_ok key p is \<Longrightarrow> (is \<noteq> [] \<Longrightarrow> key (hd is)) \<Longrightarrow> gap_ok key p' is"
  by (cases "is") simp_all

lemma gap_ok_no_key:
  "gap_ok key p is \<Longrightarrow> \<forall>i\<in>set is. \<not> key i \<Longrightarrow> is = [p..<p + length is]"
proof (induction key p "is" rule: gap_ok.induct)
  case (2 key p i "is")
  then have "i = p" and "is = [Suc p..<Suc p + length is]" by auto
  moreover have "p # [Suc p..<Suc p + length is] = [p..<p + length (i # is)]"
    by (simp add: upt_conv_Cons del: upt_Suc)
  ultimately show ?case by simp
qed simp

lemma gap_ok_dropWhile:
  assumes "gap_ok key p (xs @ h # ts)"
  shows "gap_ok key p (xs @ dropWhile (\<lambda>i. \<not> key i) ts)"
proof -
  let ?rest = "dropWhile (\<lambda>i. \<not> key i) ts"
  have "gap_ok key (next_pos (Suc h) (takeWhile (\<lambda>i. \<not> key i) ts)) ?rest"
    using assms gap_ok_append [of key "Suc h" "takeWhile (\<lambda>i. \<not> key i) ts" ?rest]
    by (simp add: gap_ok_append)
  then have "gap_ok key (next_pos p xs) ?rest"
    by (rule gap_ok_restart) (use hd_dropWhile [of "\<lambda>i. \<not> key i" ts] in auto)
  with assms show ?thesis by (simp add: gap_ok_append)
qed

text \<open>A keyframe in every \<open>g\<close> consecutive frames: the encoder's GOP length.\<close>

definition gop_bounded :: "nat \<Rightarrow> fq_frame list \<Rightarrow> bool" where
  "gop_bounded g fs \<longleftrightarrow> (\<forall>i. i + g \<le> length fs \<longrightarrow> (\<exists>j\<in>{i..<i + g}. f_is_key (fs ! j)))"

lemma gop_bounded_prefix: "gop_bounded g (fs @ gs) \<Longrightarrow> gop_bounded g fs"
  unfolding gop_bounded_def
proof (intro allI impI)
  fix i assume all: "\<forall>i. i + g \<le> length (fs @ gs) \<longrightarrow> (\<exists>j\<in>{i..<i + g}. f_is_key ((fs @ gs) ! j))"
    and i: "i + g \<le> length fs"
  then obtain j where "j \<in> {i..<i + g}" "f_is_key ((fs @ gs) ! j)" by force
  with i show "\<exists>j\<in>{i..<i + g}. f_is_key (fs ! j)"
    by (intro bexI [of _ j]) (auto simp: nth_append)
qed

definition key_at :: "fq_frame list \<Rightarrow> nat \<Rightarrow> bool" where
  "key_at fs i = f_is_key (fs ! i)"

text \<open>
  The frames received and those still queued, as positions of the offered frames: increasing,
  without a gap before a non-key frame, and up to date unless the queue is refusing frames.
\<close>

definition tracked :: "fq_frame list \<Rightarrow> fq_frame list \<Rightarrow> fq_frame aqueue \<Rightarrow> nat list \<Rightarrow> nat list \<Rightarrow> bool" where
  "tracked offered out a ps qs \<longleftrightarrow>
     out = map ((!) offered) ps \<and> a_items a = map ((!) offered) qs \<and>
     sorted_wrt (<) (ps @ qs) \<and> (\<forall>i\<in>set (ps @ qs). i < length offered) \<and>
     gap_ok (key_at offered) 0 (ps @ qs) \<and>
     (\<not> a_closed a \<and> \<not> a_dropping a \<longrightarrow> next_pos 0 (ps @ qs) = length offered)"

lemma gap_ok_cong: "(\<And>i. i \<in> set is \<Longrightarrow> key i = key' i) \<Longrightarrow> gap_ok key p is = gap_ok key' p is"
  by (induction key p "is" rule: gap_ok.induct) simp_all

lemma tracked_extend:
  assumes "tracked offered out a ps qs"
  shows "out = map ((!) (offered @ [f])) ps" "a_items a = map ((!) (offered @ [f])) qs"
    "gap_ok (key_at (offered @ [f])) 0 (ps @ qs)" "\<forall>i\<in>set (ps @ qs). i < length (offered @ [f])"
proof -
  note t = assms [unfolded tracked_def]
  show "out = map ((!) (offered @ [f])) ps" "a_items a = map ((!) (offered @ [f])) qs"
    using t by (auto simp: nth_append)
  show "gap_ok (key_at (offered @ [f])) 0 (ps @ qs)"
    using t by (subst gap_ok_cong [of _ _ "key_at offered"]) (auto simp: key_at_def nth_append)
  show "\<forall>i\<in>set (ps @ qs). i < length (offered @ [f])"
    using t by (auto simp: less_SucI)
qed

lemma tracked_rest_nonempty:
  assumes "tracked offered out a ps (h # ts)" and "gop_bounded g offered" and "g \<le> length ts" and "0 < g"
  shows "dropWhile (\<lambda>i. \<not> key_at offered i) ts \<noteq> []"
proof
  assume "dropWhile (\<lambda>i. \<not> key_at offered i) ts = []"
  then have none: "\<forall>i\<in>set ts. \<not> key_at offered i" by (simp add: dropWhile_eq_Nil_conv)
  have "gap_ok (key_at offered) (Suc h) ts"
    using assms(1) by (simp add: tracked_def gap_ok_append)
  with none have ts: "ts = [Suc h..<Suc h + length ts]" by (intro gap_ok_no_key)
  have "\<forall>i\<in>set ts. i < length offered" using assms(1) by (simp add: tracked_def)
  moreover have "Suc h + g - 1 \<in> set ts" using assms(3,4) by (subst ts) auto
  ultimately have "Suc h + g \<le> length offered" by auto
  with assms(2) have "\<exists>j\<in>{Suc h..<Suc h + g}. f_is_key (offered ! j)"
    by (simp only: gop_bounded_def)
  then obtain j where "Suc h \<le> j" "j < Suc h + g" "key_at offered j"
    by (auto simp: key_at_def)
  moreover from this have "j \<in> set ts" using assms(3) by (subst ts) auto
  ultimately show False using none by blast
qed

lemma dropWhile_map_nth:
  "dropWhile (\<lambda>f. \<not> f_is_key f) (map ((!) fs) is) = map ((!) fs) (dropWhile (\<lambda>i. \<not> key_at fs i) is)"
  by (simp add: dropWhile_map key_at_def comp_def)

lemma tracked_append:
  assumes "out = map ((!) offered) ps" and "a_items a = map ((!) offered) qs"
    and "sorted_wrt (<) (ps @ qs)" and "\<forall>i\<in>set (ps @ qs). i < length offered"
    and "gap_ok (key_at offered) 0 (ps @ qs)"
    and "f_is_key f \<or> next_pos 0 (ps @ qs) = length offered"
  shows "tracked (offered @ [f]) out (a\<lparr>a_items := a_items a @ [f]\<rparr>) ps (qs @ [length offered])"
proof -
  have "gap_ok (key_at (offered @ [f])) 0 (ps @ qs)"
    using assms(4,5) by (subst gap_ok_cong [of _ _ "key_at offered"]) (auto simp: key_at_def nth_append)
  moreover have "gap_ok (key_at (offered @ [f])) (next_pos 0 (ps @ qs)) [length offered]"
    using assms(6) by (auto simp: key_at_def)
  ultimately have "gap_ok (key_at (offered @ [f])) 0 (ps @ qs @ [length offered])"
    using gap_ok_append [of _ 0 "ps @ qs" "[length offered]"] by simp
  moreover have "out = map ((!) (offered @ [f])) ps" "a_items a = map ((!) (offered @ [f])) qs"
    using assms(1,2,4) by (auto simp: nth_append)
  moreover have "sorted_wrt (<) (ps @ qs @ [length offered])"
    using assms(3,4) by (auto simp: sorted_wrt_append)
  moreover have "\<forall>i\<in>set (ps @ qs @ [length offered]). i < length (offered @ [f])"
    using assms(4) by (auto simp: less_SucI)
  ultimately show ?thesis by (simp add: tracked_def next_pos_def)
qed

lemma sorted_wrt_dropWhile_append:
  "sorted_wrt r (xs @ h # ts) \<Longrightarrow> sorted_wrt r (xs @ dropWhile P ts)"
  by (auto simp: sorted_wrt_append dest: set_dropWhileD)

text \<open>Offering a frame keeps the tracking, given the GOP bound and room for one GOP.\<close>

lemma tracked_push:
  assumes t: "tracked offered out a ps qs" and cap: "length (a_items a) \<le> a_cap a"
    and gop: "gop_bounded g offered" "0 < g" "g < a_cap a"
  shows "\<exists>qs'. tracked (offered @ [f]) out (a_push f_is_key a f) ps qs'"
proof -
  note t' = t [unfolded tracked_def]
  consider (refused) "a_closed a \<or> (a_dropping a \<and> \<not> f_is_key f)"
    | (room) "\<not> a_closed a" "a_dropping a \<longrightarrow> f_is_key f" "length (a_items a) \<noteq> a_cap a"
    | (full) "\<not> a_closed a" "a_dropping a \<longrightarrow> f_is_key f" "length (a_items a) = a_cap a"
    by blast
  then show ?thesis
  proof cases
    case refused
    then have "tracked (offered @ [f]) out (a_push f_is_key a f) ps qs"
      using t' tracked_extend [OF t, of f] by (auto simp: tracked_def a_push_def)
    then show ?thesis by blast
  next
    case room
    then have "tracked (offered @ [f]) out
        ((a\<lparr>a_dropping := False\<rparr>)\<lparr>a_items := a_items (a\<lparr>a_dropping := False\<rparr>) @ [f]\<rparr>) ps (qs @ [length offered])"
      using t' by (intro tracked_append) auto
    then show ?thesis using room by (auto simp: a_push_def)
  next
    case full
    then have "qs \<noteq> []" using t' gop by auto
    then obtain h ts where qs: "qs = h # ts" by (cases qs) auto
    let ?rest = "dropWhile (\<lambda>i. \<not> key_at offered i) ts"
    let ?a = "a_drop f_is_key (a\<lparr>a_dropping := False\<rparr>)"
    have items: "a_items ?a = map ((!) offered) ?rest"
      using t' qs by (simp add: a_drop_def Let_def dropWhile_map_nth)
    have "?rest \<noteq> []"
      using t qs gop full t' by (intro tracked_rest_nonempty [of offered out a ps h ts g]) auto
    then have last: "next_pos 0 (ps @ ?rest) = next_pos 0 (ps @ qs)"
      using last_appendR [of ?rest "takeWhile (\<lambda>i. \<not> key_at offered i) ts"]
      by (auto simp: next_pos_def qs)
    have "tracked (offered @ [f]) out (?a\<lparr>a_items := a_items ?a @ [f]\<rparr>) ps (?rest @ [length offered])"
    proof (rule tracked_append)
      show "sorted_wrt (<) (ps @ ?rest)" using t' qs by (intro sorted_wrt_dropWhile_append [of _ _ h]) simp
      show "\<forall>i\<in>set (ps @ ?rest). i < length offered" using t' qs by (auto dest: set_dropWhileD)
      show "gap_ok (key_at offered) 0 (ps @ ?rest)" using t' qs by (intro gap_ok_dropWhile [of _ _ _ h]) simp
      show "f_is_key f \<or> next_pos 0 (ps @ ?rest) = length offered" using t' full last by auto
    qed (use t' items in auto)
    then show ?thesis using full by (auto simp: a_push_def Let_def)
  qed
qed

lemma run_event_tracked:
  assumes inv: "fq_inv (t_q t)" and t: "tracked (t_offered t) (t_out t) (fq_abs (t_q t)) ps qs"
    and gop: "gop_bounded g (t_offered t)" "0 < g" "g < q_capacity (t_q t)"
  shows "\<exists>ps' qs'. tracked (t_offered (run_event t e)) (t_out (run_event t e))
     (fq_abs (t_q (run_event t e))) ps' qs'"
  using inv
proof (cases rule: run_event_cases [of t e])
  case stay
  with t show ?thesis by auto
next
  case (push d k p q' freed)
  have "length (a_items (fq_abs (t_q t))) \<le> a_cap (fq_abs (t_q t))"
    using fq_inv_lengths [OF inv] by simp
  from tracked_push [OF t this gop(1,2), of "pushed_frame d k p"] gop(3) push(5)
  obtain qs' where "tracked (t_offered t @ [pushed_frame d k p]) (t_out t) (fq_abs q') ps qs'"
    by auto
  with push(3) show ?thesis by auto
next
  case (pop f q')
  with t obtain h ts where qs: "qs = h # ts" by (cases qs) (auto simp: tracked_def)
  with t pop have "tracked (t_offered t) (t_out t @ [f]) (fq_abs q') (ps @ [h]) ts"
    by (auto simp: tracked_def)
  with pop(2) show ?thesis by auto
next
  case close
  with t have "tracked (t_offered t) (t_out t) (fq_abs ((t_q t)\<lparr>q_closed := True\<rparr>)) ps qs"
    by (auto simp: tracked_def)
  with close show ?thesis by auto
qed

lemma run_event_offered: "\<exists>fs. t_offered (run_event t e) = t_offered t @ fs"
  by (cases e) (auto simp: run_event.simps split: prod.splits)

lemma run_fq_tracked:
  "0 < g \<Longrightarrow> g < c \<Longrightarrow> gop_bounded g (t_offered (run_fq c evs)) \<Longrightarrow>
     \<exists>ps qs. tracked (t_offered (run_fq c evs)) (t_out (run_fq c evs)) (fq_abs (t_q (run_fq c evs))) ps qs"
proof (induction evs rule: rev_induct)
  case Nil
  then have "tracked (t_offered (run_fq c [])) (t_out (run_fq c [])) (fq_abs (t_q (run_fq c []))) [] []"
    using run_fq_start [of c] by (simp add: tracked_def next_pos_def)
  then show ?case by blast
next
  case (snoc e evs)
  have "gop_bounded g (t_offered (run_fq c evs))"
    using snoc.prems(3) run_event_offered [of "run_fq c evs" e]
    by (auto simp: run_fq_snoc dest: gop_bounded_prefix)
  with snoc show ?case
    by (auto simp: run_fq_snoc run_fq_inv run_fq_capacity intro!: run_event_tracked)
qed

section \<open>The monitor: one producer, one consumer, one condition variable\<close>

text \<open>
  The consumer thread is running outside the wait, asleep in \<open>pthread_cond_wait\<close>, woken but
  not yet rescheduled, or out of its loop. Every rule is one critical section of the mutex.
\<close>

datatype consumer = Running | Asleep | Woken | Finished

record monitor =
  m_q :: frame_queue
  m_consumer :: consumer
  m_got :: "fq_frame list"

definition wake :: "consumer \<Rightarrow> consumer" where
  "wake c = (if c = Asleep then Woken else c)"

inductive mon_step :: "monitor \<Rightarrow> monitor \<Rightarrow> bool" where
  mon_push: "b \<noteq> [] \<Longrightarrow> fq_push_locked (m_q m) b (length b) k p = (q', freed, signalled) \<Longrightarrow>
     mon_step m (m\<lparr>m_q := q',
                   m_consumer := (if signalled then wake (m_consumer m) else m_consumer m)\<rparr>)"
| mon_close: "fq_close (Some (m_q m)) = Some q' \<Longrightarrow>
     mon_step m (m\<lparr>m_q := q', m_consumer := wake (m_consumer m)\<rparr>)"
| mon_sleep: "m_consumer m \<in> {Running, Woken} \<Longrightarrow> fq_pop_locked (m_q m) = (PopBlocked, q') \<Longrightarrow>
     mon_step m (m\<lparr>m_q := q', m_consumer := Asleep\<rparr>)"
| mon_take: "m_consumer m \<in> {Running, Woken} \<Longrightarrow> fq_pop_locked (m_q m) = (PopRet r (Some f), q') \<Longrightarrow>
     mon_step m (m\<lparr>m_q := q', m_consumer := Running, m_got := m_got m @ [f]\<rparr>)"
| mon_finish: "m_consumer m \<in> {Running, Woken} \<Longrightarrow> fq_pop_locked (m_q m) = (PopRet r None, q') \<Longrightarrow>
     mon_step m (m\<lparr>m_q := q', m_consumer := Finished\<rparr>)"
| mon_spurious: "m_consumer m = Asleep \<Longrightarrow> mon_step m (m\<lparr>m_consumer := Woken\<rparr>)"

inductive mon_reach :: "nat \<Rightarrow> monitor \<Rightarrow> bool" for c where
  mon_init: "fq_create True True c = Some q \<Longrightarrow>
     mon_reach c \<lparr>m_q = q, m_consumer = Running, m_got = []\<rparr>"
| mon_next: "mon_reach c m \<Longrightarrow> mon_step m m' \<Longrightarrow> mon_reach c m'"

inductive_cases mon_step_elims: "mon_step m m'"

definition mon_inv :: "monitor \<Rightarrow> bool" where
  "mon_inv m \<longleftrightarrow> fq_inv (m_q m) \<and>
     (m_consumer m = Asleep \<longrightarrow> q_count (m_q m) = 0 \<and> \<not> q_closed (m_q m)) \<and>
     (m_consumer m = Finished \<longrightarrow> q_count (m_q m) = 0 \<and> q_closed (m_q m))"

lemma fq_pop_locked_blocked:
  "fq_pop_locked q = (PopBlocked, q') \<Longrightarrow> q' = q \<and> q_count q = 0 \<and> \<not> q_closed q"
  by (auto simp: fq_pop_locked_def split: if_splits)

lemma fq_pop_locked_failed:
  "fq_pop_locked q = (PopRet r None, q') \<Longrightarrow> r = -1 \<and> q' = q \<and> q_count q = 0 \<and> q_closed q"
  by (auto simp: fq_pop_locked_def split: if_splits)

lemma fq_pop_locked_took:
  assumes "fq_inv q" and "fq_pop_locked q = (PopRet r (Some f), q')"
  shows "fq_inv q' \<and> fq_items q = f # fq_items q' \<and> q_closed q' = q_closed q"
  using fq_pop_locked_spec [OF assms(1)] assms(2)
  by (auto simp: fq_abs_def split: list.splits if_splits)

lemma fq_push_locked_closed_count:
  assumes "fq_inv q" and "b \<noteq> []" and "fq_push_locked q b (length b) k p = (q', freed, sig)"
  shows "fq_inv q' \<and> q_closed q' = q_closed q \<and> (\<not> sig \<longrightarrow> q_count q' = q_count q) \<and>
    (sig \<longrightarrow> \<not> q_closed q)"
proof -
  from fq_push_locked_spec [OF assms(1,2), of k p] assms(3)
  have "fq_inv q'" and abs: "fq_abs q' = a_push f_is_key (fq_abs q) (pushed_frame b k p)"
    and sig: "sig = (\<not> q_closed q \<and> (q_dropping q \<longrightarrow> k))" by auto
  moreover have "q_closed q' = q_closed q"
    using arg_cong [OF abs, of a_closed] by simp
  moreover have "length (fq_items q') = length (fq_items q)" if "\<not> sig"
    using arg_cong [OF abs, of a_items] sig that by (auto simp: a_push_def)
  ultimately show ?thesis by simp
qed

lemma mon_step_inv: "mon_step m m' \<Longrightarrow> mon_inv m \<Longrightarrow> mon_inv m'"
proof (induction rule: mon_step.induct)
  case (mon_push b m k p q' freed signalled)
  then show ?case
    using fq_push_locked_closed_count [of "m_q m" b k p q' freed signalled]
    by (auto simp: mon_inv_def wake_def)
next
  case (mon_close m q')
  then show ?case by (auto simp: mon_inv_def wake_def fq_close_def)
next
  case (mon_sleep m q')
  then show ?case using fq_pop_locked_blocked [of "m_q m" q'] by (auto simp: mon_inv_def)
next
  case (mon_take m r f q')
  then show ?case using fq_pop_locked_took [of "m_q m" r f q'] by (auto simp: mon_inv_def)
next
  case (mon_finish m r q')
  then show ?case using fq_pop_locked_failed [of "m_q m" r q'] by (auto simp: mon_inv_def)
next
  case (mon_spurious m)
  then show ?case by (simp add: mon_inv_def)
qed

lemma mon_reach_inv: "mon_reach c m \<Longrightarrow> mon_inv m"
proof (induction rule: mon_reach.induct)
  case (mon_init q)
  moreover from this have "0 < c" by (simp add: fq_create_def split: if_splits)
  ultimately show ?case using fq_create_inv [of c q] by (auto simp: mon_inv_def fq_create_def)
next
  case (mon_next m m')
  then show ?case by (blast intro: mon_step_inv)
qed

section \<open>Properties of the queue\<close>

text \<open>
C1: A push of a non-empty buffer into a well-formed queue returns 0, keeps the queue well formed,
and does to the queued frames exactly what the abstract queue does: refused when closed, counted
and refused while the queue is dropping and the frame is no keyframe, otherwise appended, after
an overflow has dropped the oldest frame and all frames up to the next keyframe. The queued frame
is a private copy of the caller's first \<open>len\<close> bytes.
\<close>

theorem fq_push_refines:
  assumes "fq_inv q" and "0 < len" and "len \<le> length d"
  shows "\<exists>q' freed signalled.
    fq_push True (Some q) (Some d) len k p = (0, Some q', freed, signalled) \<and>
    fq_inv q' \<and> fq_abs q' = a_push f_is_key (fq_abs q) (pushed_frame (take len d) k p)"
proof -
  have ne: "take len d \<noteq> []" and len: "length (take len d) = len" using assms(2,3) by auto
  from fq_push_locked_spec [OF assms(1) ne, of k p, unfolded len] assms(2) show ?thesis
    by (auto simp: fq_push_def)
qed

theorem fq_push_refines_witness:
  "\<exists>q' freed signalled.
    fq_push True (fq_create True True 2) (Some [1, 2, 3]) 2 True 40 = (0, Some q', freed, signalled) \<and>
    fq_inv q' \<and> fq_abs q' = a_push f_is_key
      \<lparr>a_items = [], a_cap = 2, a_dropped = 0, a_closed = False, a_dropping = False\<rparr>
      (pushed_frame [1, 2] True 40)"
proof -
  obtain q where q: "fq_create True True 2 = Some q" by (simp add: fq_create_def)
  from fq_push_refines [of q 2 "[1, 2, 3]" True 40] fq_create_inv [OF q] q show ?thesis
    by (simp add: numeral_2_eq_2)
qed

text \<open>
A pop from a well-formed queue with a valid destination returns the oldest queued frame and
leaves the others in order; on an empty queue it fails with -1 if the queue is closed and waits
otherwise. It never waits on a closed queue and never fails on a queue that holds frames.
\<close>

theorem fq_pop_fifo:
  assumes "fq_inv q"
  shows "case fq_items q of
      [] \<Rightarrow> fq_pop (Some q) True = (if q_closed q then PopRet (-1) None else PopBlocked, Some q)
    | f # fs \<Rightarrow> \<exists>q'. fq_pop (Some q) True = (PopRet 0 (Some f), Some q') \<and> fq_inv q' \<and>
        fq_abs q' = (fq_abs q)\<lparr>a_items := fs\<rparr>"
  using fq_pop_locked_spec [OF assms] by (auto simp: fq_pop_def split: list.splits)

theorem fq_pop_fifo_witness:
  "fq_pop (Some (t_q (run_fq 2 [EvPush [7] True 5, EvPush [8] False 6]))) True
     = (PopRet 0 (Some (pushed_frame [7] True 5)),
        Some (t_q (run_fq 2 [EvPush [7] True 5, EvPush [8] False 6, EvPop])))"
proof -
  let ?q = "t_q (run_fq 2 [EvPush [7] True 5, EvPush [8] False 6])"
  have "fq_items ?q = [pushed_frame [7] True 5, pushed_frame [8] False 6]" by code_simp
  with fq_pop_fifo [of ?q] obtain q' where "fq_pop (Some ?q) True
    = (PopRet 0 (Some (pushed_frame [7] True 5)), Some q')"
    by (auto simp: run_fq_inv)
  then show ?thesis by (simp add: run_fq_def run_event.simps(2))
qed




lemma gop_bounded_code [code]:
  "gop_bounded g fs = (\<forall>i\<in>set [0..<Suc (length fs) - g]. \<exists>j\<in>set [i..<i + g]. f_is_key (fs ! j))"
  by (auto simp: gop_bounded_def)


text \<open>
C37: The bound on the GOP is needed. A non-key frame offered to a full, open queue none of whose
frames after the oldest is a keyframe empties the queue and is itself queued: the consumer's next
frame refers to a frame that was dropped.
\<close>

theorem fq_overflow_without_keyframe:
  assumes "fq_inv q" and "q_count q = q_capacity q" and "\<not> q_closed q" and "\<not> q_dropping q"
    and "\<forall>f\<in>set (tl (fq_items q)). \<not> f_is_key f" and "d \<noteq> []"
  shows "\<exists>q' freed. fq_push True (Some q) (Some d) (length d) False p = (0, Some q', freed, True) \<and>
    fq_items q' = [pushed_frame d False p] \<and>
    fq_dropped q' = fq_dropped q + of_nat (q_capacity q)"
proof -
  from fq_push_locked_spec [OF assms(1,6), of False p] assms(3,4) obtain q' freed where
    q': "fq_push_locked q d (length d) False p = (q', freed, True)"
    "fq_abs q' = a_push f_is_key (fq_abs q) (pushed_frame d False p)" by auto
  have none: "dropWhile (\<lambda>f. \<not> f_is_key f) (tl (fq_items q)) = []"
    using assms(5) by (simp add: dropWhile_eq_Nil_conv)
  have "fq_items q' = [pushed_frame d False p]"
    "q_dropped q' = q_dropped q + of_nat (q_capacity q)"
    using arg_cong [OF q'(2), of a_items] arg_cong [OF q'(2), of a_dropped] assms(2-4)
      fq_inv_lengths(1) [OF assms(1)] fq_items_empty_iff [of q]
    by (simp_all add: a_push_def a_drop_def Let_def none)
  with q'(1) assms(6) show ?thesis by (simp add: fq_push_def fq_dropped_def)
qed

theorem fq_overflow_without_keyframe_witness:
  "\<exists>q' freed. fq_push True (Some (t_q (run_fq 2 [EvPush [1] True 0, EvPush [2] False 1])))
      (Some [3]) 1 False 2 = (0, Some q', freed, True) \<and>
    fq_items q' = [pushed_frame [3] False 2]"
proof -
  let ?q = "t_q (run_fq 2 [EvPush [1] True 0, EvPush [2] False 1])"
  have "q_count ?q = q_capacity ?q" "\<not> q_closed ?q" "\<not> q_dropping ?q"
    "\<forall>f\<in>set (tl (fq_items ?q)). \<not> f_is_key f"
    by code_simp+
  from fq_overflow_without_keyframe [OF run_fq_inv this, of "[3]" 2] show ?thesis by auto
qed



text \<open>
C19: No wake-up is lost. In every state the producer's pushes and closes, the consumer's pops and
spurious wake-ups can reach, a consumer asleep on the condition variable sleeps for a reason: the
queue is empty and open. A consumer that left its loop left a closed, drained queue.
\<close>

theorem fq_no_lost_wakeup:
  assumes "mon_reach c m"
  shows "(m_consumer m = Asleep \<longrightarrow> fq_items (m_q m) = [] \<and> \<not> q_closed (m_q m)) \<and>
    (m_consumer m = Finished \<longrightarrow> fq_items (m_q m) = [] \<and> q_closed (m_q m))"
  using mon_reach_inv [OF assms] by (simp add: mon_inv_def fq_items_empty_iff)

theorem fq_no_lost_wakeup_witness:
  "mon_reach 1 \<lparr>m_q = the (fq_create True True 1), m_consumer = Asleep, m_got = []\<rparr> \<and>
   \<not> q_closed (the (fq_create True True 1))"
proof -
  let ?q = "the (fq_create True True 1)"
  let ?m = "\<lparr>m_q = ?q, m_consumer = Running, m_got = []\<rparr>"
  have "mon_reach 1 ?m" by (rule mon_init) (simp add: fq_create_def)
  moreover have "mon_step ?m (?m\<lparr>m_q := ?q, m_consumer := Asleep\<rparr>)"
    by (rule mon_sleep) (simp_all add: fq_create_def fq_pop_locked_def)
  ultimately have asleep: "mon_reach 1 \<lparr>m_q = ?q, m_consumer = Asleep, m_got = []\<rparr>"
    using mon_next by fastforce
  with fq_no_lost_wakeup [OF asleep] show ?thesis by simp
qed

end
