(* ===== verification/CLib.thy ===== *)
theory CLib
  imports Complex_Main Prelude
begin

text \<open>
  The parts of the C language and its standard library that the configuration code uses: decimal
  conversion of strings (\<open>atoi\<close>, \<open>strtoul\<close>, \<open>atof\<close>) and binary floating point. \<open>long\<close>
  is 32 bits wide on the target. Finite floating point numbers are rationals; every operation
  rounds to nearest, ties to even. Hexadecimal, infinite and not-a-number texts are outside the
  model of \<open>atof\<close>.
\<close>

section \<open>Decimal texts\<close>

definition is_space :: "char \<Rightarrow> bool" where
  "is_space c \<longleftrightarrow> c \<in> {CHR '' '', CHR 0x09, CHR 0x0A, CHR 0x0B, CHR 0x0C, CHR 0x0D}"

definition is_digit :: "char \<Rightarrow> bool" where
  "is_digit c \<longleftrightarrow> 48 \<le> (of_char c :: int) \<and> (of_char c :: int) \<le> 57"

definition digit_val :: "char \<Rightarrow> int" where
  "digit_val c = of_char c - 48"

definition digits_val :: "string \<Rightarrow> int" where
  "digits_val ds = foldl (\<lambda>v c. 10 * v + digit_val c) 0 ds"

text \<open>Leading white space, an optional sign, and what follows.\<close>

definition split_sign :: "string \<Rightarrow> bool \<times> string" where
  "split_sign s = (case dropWhile is_space s of
      [] \<Rightarrow> (False, [])
    | c # cs \<Rightarrow> if c = CHR ''-'' then (True, cs) else if c = CHR ''+'' then (False, cs)
                else (False, c # cs))"

definition strtol :: "string \<Rightarrow> int" where
  "strtol s = (case split_sign s of (neg, t) \<Rightarrow>
     let v = digits_val (takeWhile is_digit t)
     in if neg then max (- v) (- (2 ^ 31)) else min v (2 ^ 31 - 1))"

definition atoi :: "string \<Rightarrow> int" where
  "atoi s = strtol s"

definition strtoul :: "string \<Rightarrow> u32" where
  "strtoul s = (case split_sign s of (neg, t) \<Rightarrow>
     let v = digits_val (takeWhile is_digit t)
     in if 2 ^ 32 \<le> v then - 1 else if neg then - of_int v else of_int v)"

section \<open>Floating point\<close>

definition round_half_even :: "rat \<Rightarrow> int" where
  "round_half_even x =
     (let m = \<lfloor>x\<rfloor>; r = x - of_int m
      in if r > 1 / 2 \<or> (r = 1 / 2 \<and> odd m) then m + 1 else m)"

definition pow2 :: "int \<Rightarrow> rat" where
  "pow2 e = (if 0 \<le> e then 2 ^ nat e else 1 / 2 ^ nat (- e))"

function bits :: "int \<Rightarrow> int" where
  "bits n = (if n \<le> 0 then 0 else 1 + bits (n div 2))"
  by pat_completeness auto
termination
  by (relation "measure nat") auto

declare bits.simps [simp del]

text \<open>
  Rounding to \<open>p\<close> significant bits with smallest exponent \<open>emin\<close>; magnitudes stay below
  the largest finite number.
\<close>

definition fl_round :: "nat \<Rightarrow> int \<Rightarrow> rat \<Rightarrow> rat" where
  "fl_round p emin x =
     (if x = 0 then 0
      else
        let (n, d) = quotient_of \<bar>x\<bar>;
            e0 = bits n - bits d - int p;
            e1 = (if \<bar>x\<bar> / pow2 e0 < 2 ^ p then e0 else e0 + 1);
            e = max e1 emin
        in sgn x * of_int (round_half_even (\<bar>x\<bar> / pow2 e)) * pow2 e)"

definition fl32 :: "rat \<Rightarrow> rat" where
  "fl32 = fl_round 24 (-149)"

definition fl64 :: "rat \<Rightarrow> rat" where
  "fl64 = fl_round 53 (-1074)"

text \<open>Conversion to \<open>uint32_t\<close> truncates and is undefined outside its range.\<close>

definition f_to_u32 :: "rat \<Rightarrow> u32 option" where
  "f_to_u32 x =
     (let i = (if 0 \<le> x then \<lfloor>x\<rfloor> else \<lceil>x\<rceil>)
      in if 0 \<le> i \<and> i < 2 ^ 32 then Some (of_int i) else None)"

definition frac_val :: "string \<Rightarrow> rat" where
  "frac_val ds = of_int (digits_val ds) / 10 ^ length ds"

text \<open>\<open>atof\<close>: digits, an optional fraction, an optional decimal exponent.\<close>

definition exp_part :: "string \<Rightarrow> int" where
  "exp_part t = (case t of
      [] \<Rightarrow> 0
    | c # cs \<Rightarrow>
        if c = CHR ''e'' \<or> c = CHR ''E''
        then (case cs of
            [] \<Rightarrow> 0
          | d # ds \<Rightarrow>
              if d = CHR ''-'' then - digits_val (takeWhile is_digit ds)
              else if d = CHR ''+'' then digits_val (takeWhile is_digit ds)
              else digits_val (takeWhile is_digit cs))
        else 0)"

definition pow10 :: "int \<Rightarrow> rat" where
  "pow10 e = (if 0 \<le> e then 10 ^ nat e else 1 / 10 ^ nat (- e))"

definition decimal_val :: "string \<Rightarrow> rat" where
  "decimal_val t =
     (let ip = takeWhile is_digit t; t1 = dropWhile is_digit t;
          (fp, t2) = (case t1 of
              c # cs \<Rightarrow> if c = CHR ''.'' then (takeWhile is_digit cs, dropWhile is_digit cs) else ([], t1)
            | [] \<Rightarrow> ([], []))
      in if ip = [] \<and> fp = [] then 0
         else (of_int (digits_val ip) + frac_val fp) * pow10 (exp_part t2))"

definition atof :: "string \<Rightarrow> rat" where
  "atof s = (case split_sign s of (neg, t) \<Rightarrow>
     fl64 (if neg then - decimal_val t else decimal_val t))"

section \<open>Printing and reading integers\<close>

function show_nat :: "int \<Rightarrow> string" where
  "show_nat n = (if n < 10 then [char_of (48 + n)] else show_nat (n div 10) @ [char_of (48 + n mod 10)])"
  by pat_completeness auto
termination
  by (relation "measure nat") auto

declare show_nat.simps [simp del]

definition show_int :: "int \<Rightarrow> string" where
  "show_int i = (if i < 0 then CHR ''-'' # show_nat (- i) else show_nat i)"

lemma digit_char:
  "0 \<le> d \<Longrightarrow> d < 10 \<Longrightarrow> is_digit (char_of (48 + d)) \<and> digit_val (char_of (48 + d :: int)) = d"
  by (simp add: is_digit_def digit_val_def)

lemma digits_val_snoc: "digits_val (ds @ [c]) = 10 * digits_val ds + digit_val c"
  by (simp add: digits_val_def)

lemma show_nat_digits:
  "0 \<le> n \<Longrightarrow> (\<forall>c\<in>set (show_nat n). is_digit c) \<and> digits_val (show_nat n) = n \<and> show_nat n \<noteq> []"
proof (induction n rule: show_nat.induct)
  case (1 n)
  show ?case
  proof (cases "n < 10")
    case True
    then show ?thesis using digit_char [of n] "1.prems"
      by (simp add: show_nat.simps [of n] digits_val_def)
  next
    case False
    with 1 show ?thesis using digit_char [of "n mod 10"]
      by (auto simp: show_nat.simps [of n] digits_val_snoc)
  qed
qed

lemma is_digit_not_sign:
  assumes "is_digit c"
  shows "\<not> is_space c" "c \<noteq> CHR ''-''" "c \<noteq> CHR ''+''"
  using assms by (auto simp: is_digit_def is_space_def)

lemma split_sign_show_nat: "0 \<le> n \<Longrightarrow> split_sign (show_nat n) = (False, show_nat n)"
  using show_nat_digits [of n] is_digit_not_sign
  by (cases "show_nat n") (auto simp: split_sign_def)

lemma split_sign_minus: "split_sign (CHR ''-'' # t) = (True, t)"
  by (simp add: split_sign_def is_space_def)

lemma takeWhile_show_nat: "0 \<le> n \<Longrightarrow> takeWhile is_digit (show_nat n) = show_nat n"
  using show_nat_digits [of n] by (simp add: takeWhile_eq_all_conv)

lemma atoi_show_int: "in_i32 i \<Longrightarrow> atoi (show_int i) = i"
  using show_nat_digits [of i] show_nat_digits [of "- i"]
  by (auto simp: atoi_def strtol_def show_int_def split_sign_show_nat split_sign_minus
      takeWhile_show_nat in_i32_def)

lemma strtoul_show_nat: "0 \<le> n \<Longrightarrow> n < 2 ^ 32 \<Longrightarrow> strtoul (show_nat n) = of_int n"
  using show_nat_digits [of n]
  by (simp add: strtoul_def split_sign_show_nat takeWhile_show_nat)

lemma digits_val_nonneg: "\<forall>c\<in>set ds. is_digit c \<Longrightarrow> 0 \<le> digits_val ds"
  by (induction ds rule: rev_induct)
    (auto simp: digits_val_snoc digit_val_def is_digit_def, simp add: digits_val_def)

lemma digits_val_takeWhile: "0 \<le> digits_val (takeWhile is_digit t)"
  by (rule digits_val_nonneg) (auto dest: set_takeWhileD)

lemma atoi_range: "in_i32 (atoi s)"
proof -
  obtain neg t where "split_sign s = (neg, t)" by fastforce
  with digits_val_takeWhile [of t] show ?thesis
    by (auto simp: atoi_def strtol_def in_i32_def Let_def)
qed

end
