(* ===== verification/Calendar.thy ===== *)
theory Calendar
  imports CLib "HOL-Library.Char_ord" "HOL-Library.List_Lexorder"
begin

text \<open>
  Broken-down time and the texts the program makes of it: the name of a day, \<open>today_string\<close> of
  \<open>src/storage.c\<close>, and the start time of a segment, in \<open>event_db_add_segment\<close> of \<open>src/storage_db.c\<close>. The
  databases and the cleanup order days by their names; here that order is the calendar's.
\<close>

section \<open>Times and texts\<close>

record tm =
  tm_sec :: nat
  tm_min :: nat
  tm_hour :: nat
  tm_mday :: nat
  tm_mon :: nat
  tm_year :: int
  tm_yday :: int

definition pad2 :: "nat \<Rightarrow> string" where
  "pad2 n = (if n < 10 then CHR ''0'' # show_nat (int n) else show_nat (int n))"

text \<open>\<open>strftime\<close> with \<open>"%Y-%m-%d"\<close> into 16 bytes: a longer text leaves the buffer undefined (\<open>None\<close>).\<close>

definition date_string :: "tm \<Rightarrow> string" where
  "date_string t = show_int (tm_year t + 1900) @ ''-'' @ pad2 (tm_mon t + 1) @ ''-'' @ pad2 (tm_mday t)"

definition today_string :: "tm \<Rightarrow> (string \<times> int) option" where
  "today_string t = (if length (date_string t) < 16 then Some (date_string t, tm_yday t) else None)"

definition pad6 :: "nat \<Rightarrow> string" where
  "pad6 n = (let s = show_nat (int n) in replicate (6 - length s) (CHR ''0'') @ s)"

definition start_time_string :: "tm \<Rightarrow> nat \<Rightarrow> string" where
  "start_time_string t usec = pad2 (tm_hour t) @ '':'' @ pad2 (tm_min t) @ '':'' @ pad2 (tm_sec t) @ ''.'' @ pad6 usec"

section \<open>Orders\<close>

lemma list_less_append:
  fixes xs ys :: "'a::linorder list"
  assumes "length xs = length ys"
  shows "xs @ us < ys @ vs \<longleftrightarrow> xs < ys \<or> xs = ys \<and> us < vs"
  using assms by (induction xs ys rule: list_induct2) auto

definition digit_char :: "int \<Rightarrow> char" where
  "digit_char d = char_of (48 + d)"

lemma digit_char_val: "0 \<le> d \<Longrightarrow> d < 10 \<Longrightarrow> int (of_char (digit_char d) :: nat) = 48 + d"
  by (simp add: digit_char_def of_nat_of_char)

lemma digit_less:
  assumes "0 \<le> d" "d < 10" "0 \<le> e" "e < 10"
  shows "digit_char d < digit_char e \<longleftrightarrow> d < e" and "digit_char d = digit_char e \<longleftrightarrow> d = e"
proof -
  note v = digit_char_val [OF assms(1,2)] digit_char_val [OF assms(3,4)]
  show "digit_char d < digit_char e \<longleftrightarrow> d < e"
    unfolding less_char_def using v by linarith
  show "digit_char d = digit_char e \<longleftrightarrow> d = e" using v by (metis add_left_cancel)
qed

lemma show_nat_rec: "show_nat n = (if n < 10 then [digit_char n] else show_nat (n div 10) @ [digit_char (n mod 10)])"
  unfolding digit_char_def by (rule show_nat.simps)

lemma show_nat_nonempty: "show_nat n \<noteq> []"
  by (subst show_nat_rec) simp

lemma show_nat_eq: "0 \<le> m \<Longrightarrow> 0 \<le> n \<Longrightarrow> show_nat m = show_nat n \<longleftrightarrow> m = n"
  using show_nat_digits [of m] show_nat_digits [of n] by metis

lemma tens_less:
  fixes a b r s :: int
  assumes "0 \<le> r" "r < 10" "0 \<le> s" "s < 10"
  shows "10 * a + r < 10 * b + s \<longleftrightarrow> a < b \<or> a = b \<and> r < s"
  using assms by arith

lemma show_nat_less:
  assumes "0 \<le> m" "0 \<le> n" "length (show_nat m) = length (show_nat n)"
  shows "show_nat m < show_nat n \<longleftrightarrow> m < n"
  using assms
proof (induction m arbitrary: n rule: show_nat.induct)
  case (1 m)
  show ?case
  proof (cases "m < 10")
    case True
    then have sm: "show_nat m = [digit_char (m)]" by (subst show_nat_rec) simp
    have "n < 10"
    proof (rule ccontr)
      assume "\<not> n < 10"
      then have "show_nat n = show_nat (n div 10) @ [digit_char (n mod 10)]" by (subst show_nat_rec) simp
      then show False using "1.prems"(3) sm show_nat_nonempty [of "n div 10"] by simp
    qed
    then have "show_nat n = [digit_char (n)]" by (subst show_nat_rec) simp
    then show ?thesis using sm digit_less(1) [of m n] "1.prems" True \<open>n < 10\<close> by simp
  next
    case False
    then have sm: "show_nat m = show_nat (m div 10) @ [digit_char (m mod 10)]" by (subst show_nat_rec) simp
    have "\<not> n < 10"
    proof
      assume "n < 10"
      then have "show_nat n = [digit_char (n)]" by (subst show_nat_rec) simp
      then show False using "1.prems"(3) sm show_nat_nonempty [of "m div 10"] by simp
    qed
    then have sn: "show_nat n = show_nat (n div 10) @ [digit_char (n mod 10)]" by (subst show_nat_rec) simp
    have len: "length (show_nat (m div 10)) = length (show_nat (n div 10))" using "1.prems"(3) sm sn by simp
    have IH: "show_nat (m div 10) < show_nat k \<longleftrightarrow> m div 10 < k" if "0 \<le> k" "length (show_nat (m div 10)) = length (show_nat k)" for k
      using "1.IH" [of k] False that "1.prems"(1) by simp
    have eq: "show_nat (m div 10) = show_nat (n div 10) \<longleftrightarrow> m div 10 = n div 10"
      using show_nat_eq [of "m div 10" "n div 10"] "1.prems"(1,2) by simp
    have "show_nat m < show_nat n \<longleftrightarrow> m div 10 < n div 10 \<or> m div 10 = n div 10 \<and> m mod 10 < n mod 10"
      using IH [OF _ len] eq digit_less(1) [of "m mod 10" "n mod 10"] "1.prems"(2)
      by (simp add: sm sn list_less_append [OF len])
    also have "\<dots> \<longleftrightarrow> 10 * (m div 10) + m mod 10 < 10 * (n div 10) + n mod 10"
      by (rule tens_less [symmetric]) simp_all
    also have "\<dots> \<longleftrightarrow> m < n" by simp
    finally show ?thesis .
  qed
qed

lemma pad2_digits: "n < 100 \<Longrightarrow> pad2 n = [digit_char (int n div 10), digit_char (int n mod 10)]"
proof -
  assume n: "n < 100"
  have one: "0 \<le> i \<Longrightarrow> i < 10 \<Longrightarrow> show_nat i = [digit_char (i)]" for i by (subst show_nat_rec) simp
  have two: "10 \<le> i \<Longrightarrow> i < 100 \<Longrightarrow> show_nat i = [digit_char (i div 10), digit_char (i mod 10)]" for i
    by (subst show_nat_rec) (simp add: one)
  show ?thesis
  proof (cases "n < 10")
    case True
    then have "int n div 10 = 0" "int n mod 10 = int n" by auto
    moreover have "digit_char 0 = CHR ''0''" by code_simp
    ultimately show ?thesis using True one [of "int n"] by (simp add: pad2_def)
  next
    case False
    then show ?thesis using two [of "int n"] n by (simp add: pad2_def)
  qed
qed

lemma pad2_length: "n < 100 \<Longrightarrow> length (pad2 n) = 2"
  by (simp add: pad2_digits)

lemma pad2_less:
  assumes "m < 100" "n < 100"
  shows "pad2 m < pad2 n \<longleftrightarrow> m < n" "pad2 m = pad2 n \<longleftrightarrow> m = n"
proof -
  have r: "0 \<le> int k div 10" "int k div 10 < 10" "0 \<le> int k mod 10" "int k mod 10 < 10" if "k < 100" for k
    using that by auto
  note D = digit_less [OF r(1,2) [OF assms(1)] r(1,2) [OF assms(2)]] digit_less [OF r(3,4) [OF assms(1)] r(3,4) [OF assms(2)]]
  have "pad2 m < pad2 n \<longleftrightarrow> int m div 10 < int n div 10 \<or> int m div 10 = int n div 10 \<and> int m mod 10 < int n mod 10"
    by (simp add: pad2_digits [OF assms(1)] pad2_digits [OF assms(2)] D)
  also have "\<dots> \<longleftrightarrow> 10 * (int m div 10) + int m mod 10 < 10 * (int n div 10) + int n mod 10"
    by (rule tens_less [symmetric]) simp_all
  finally show "pad2 m < pad2 n \<longleftrightarrow> m < n" by simp
  show "pad2 m = pad2 n \<longleftrightarrow> m = n"
  proof
    assume "pad2 m = pad2 n"
    then have "int m div 10 = int n div 10" "int m mod 10 = int n mod 10"
      by (simp_all add: pad2_digits [OF assms(1)] pad2_digits [OF assms(2)] D)
    then have "int m = int n" by (metis mult_div_mod_eq)
    then show "m = n" by simp
  qed simp
qed

section \<open>Days in order\<close>

definition date_valid :: "tm \<Rightarrow> bool" where
  "date_valid t \<longleftrightarrow> 1000 \<le> tm_year t + 1900 \<and> tm_year t + 1900 < 10000 \<and> tm_mon t < 12 \<and> tm_mday t < 32"

definition date_before :: "tm \<Rightarrow> tm \<Rightarrow> bool" where
  "date_before s t \<longleftrightarrow> tm_year s < tm_year t \<or> tm_year s = tm_year t \<and>
     (tm_mon s < tm_mon t \<or> tm_mon s = tm_mon t \<and> tm_mday s < tm_mday t)"

lemma year_digits: "1000 \<le> y \<Longrightarrow> y < 10000 \<Longrightarrow> show_int y = show_nat y \<and> length (show_nat y) = 4"
proof -
  assume y: "1000 \<le> y" "y < 10000"
  have step: "10 \<le> i \<Longrightarrow> length (show_nat i) = Suc (length (show_nat (i div 10)))" for i
    by (subst show_nat_rec) simp
  have one: "i < 10 \<Longrightarrow> length (show_nat i) = 1" for i by (subst show_nat_rec) simp
  define a where "a = y div 10"
  define b where "b = a div 10"
  define c where "c = b div 10"
  have "100 \<le> a" "a < 1000" using y by (simp_all add: a_def)
  moreover from this have "10 \<le> b" "b < 100" by (simp_all add: b_def)
  moreover from this have "c < 10" by (simp add: c_def)
  ultimately have "length (show_nat y) = 4"
    using step [of y] step [of a] step [of b] one [of c] y by (simp add: a_def b_def c_def)
  then show ?thesis using y by (simp add: show_int_def)
qed

text \<open>
C30: Days are ordered by their names. For dates with a year of four digits \<open>today_string\<close> is defined and
fits \<open>DATE_STR_SIZE\<close>, and of two such names the lexicographically smaller one, which is what SQLite's
\<open>ORDER BY date ASC\<close> puts first, is the earlier day; equal names are the same day.
\<close>

theorem day_names_ordered:
  assumes "date_valid s" and "date_valid t"
  shows "today_string t = Some (date_string t, tm_yday t) \<and> length (date_string t) = 10 \<and>
    (date_string s < date_string t \<longleftrightarrow> date_before s t) \<and>
    (date_string s = date_string t \<longleftrightarrow> tm_year s = tm_year t \<and> tm_mon s = tm_mon t \<and> tm_mday s = tm_mday t)"
proof -
  have d: "tm_mon r + 1 < 100" "tm_mday r < 100" "1000 \<le> tm_year r + 1900" "tm_year r + 1900 < 10000"
    if "date_valid r" for r using that by (auto simp: date_valid_def)
  note s = d [OF assms(1)] and t = d [OF assms(2)]
  note ys = year_digits [OF s(3,4)] and yt = year_digits [OF t(3,4)]
  note M = pad2_less [OF s(1) t(1)] and D = pad2_less [OF s(2) t(2)]
  have len: "length (date_string r) = 10" if "date_valid r" for r
    using d [OF that] year_digits pad2_length by (simp add: date_string_def)
  have y: "show_int (tm_year s + 1900) < show_int (tm_year t + 1900) \<longleftrightarrow> tm_year s < tm_year t"
    "show_int (tm_year s + 1900) = show_int (tm_year t + 1900) \<longleftrightarrow> tm_year s = tm_year t"
    using ys yt s t show_nat_less [of "tm_year s + 1900" "tm_year t + 1900"]
      show_nat_eq [of "tm_year s + 1900" "tm_year t + 1900"] by simp_all
  have ly: "length (show_int (tm_year s + 1900)) = length (show_int (tm_year t + 1900))" using ys yt by simp
  have lm: "length (pad2 (tm_mon s + 1)) = length (pad2 (tm_mon t + 1))" using pad2_length s t by simp
  have "date_string s < date_string t \<longleftrightarrow> date_before s t"
    by (simp add: date_string_def date_before_def list_less_append [OF ly]
        list_less_append [OF lm [folded Suc_eq_plus1]] y M [folded Suc_eq_plus1] D)
  moreover have "date_string s = date_string t \<longleftrightarrow>
      tm_year s = tm_year t \<and> tm_mon s = tm_mon t \<and> tm_mday s = tm_mday t"
    by (simp add: date_string_def append_eq_append_conv [OF disjI1, OF ly]
        append_eq_append_conv [OF disjI1, OF lm [folded Suc_eq_plus1]] y M [folded Suc_eq_plus1] D)
  ultimately show ?thesis using len [OF assms(2)] by (simp add: today_string_def)
qed

lemma day_names_ordered_witness:
  "''2024-12-31'' < ''2025-01-01''"
proof -
  let ?s = "\<lparr>tm_sec = 0, tm_min = 0, tm_hour = 0, tm_mday = 31, tm_mon = 11, tm_year = 124, tm_yday = 365\<rparr>"
  let ?t = "\<lparr>tm_sec = 0, tm_min = 0, tm_hour = 0, tm_mday = 1, tm_mon = 0, tm_year = 125, tm_yday = 0\<rparr>"
  have n: "date_string ?s = ''2024-12-31''" "date_string ?t = ''2025-01-01''" by code_simp+
  have "date_valid ?s" "date_valid ?t" "date_before ?s ?t" by (simp_all add: date_valid_def date_before_def)
  with day_names_ordered [of ?s ?t] n show ?thesis by simp
qed

end
