(* ===== verification/Config.thy ===== *)
theory Config
  imports CLib
begin

text \<open>
  \<open>src/config.c\<close> and \<open>include/motionsense/config.h\<close>: the runtime configuration, its
  compiled-in defaults, and the loading of \<open>config.yaml\<close>. libyaml is a library the source only
  calls: a parsed document is the function \<open>yaml_document_get_node(doc, \<cdot>)\<close> from node numbers to
  nodes, with the node kinds the code tests.
\<close>

section \<open>Constants and data\<close>

definition CFG_VI_W :: u32 where "CFG_VI_W = 1920"
definition CFG_VI_H :: u32 where "CFG_VI_H = 1080"
definition CFG_VI_BASE_FPS :: int where "CFG_VI_BASE_FPS = 30"
definition CFG_H264_BITRATE :: u32 where "CFG_H264_BITRATE = 4000"
definition CFG_IVS_W :: u32 where "CFG_IVS_W = 640"
definition CFG_IVS_H :: u32 where "CFG_IVS_H = 360"
definition CFG_FPS_LOW :: int where "CFG_FPS_LOW = 1"
definition CFG_FPS_HIGH :: int where "CFG_FPS_HIGH = 30"
definition CFG_MD_AREA_RATIO :: rat where "CFG_MD_AREA_RATIO = fl32 (5 / 100)"
definition CFG_IVS_POLL_MS :: int where "CFG_IVS_POLL_MS = 250"
definition CFG_OSD_FONT_SIZE :: int where "CFG_OSD_FONT_SIZE = 36"
definition CFG_OSD_MARGIN :: int where "CFG_OSD_MARGIN = 16"
definition CFG_HLS_DURATION_S :: int where "CFG_HLS_DURATION_S = 0"
definition CFG_DISK_FREE_MIN_MB :: u32 where "CFG_DISK_FREE_MIN_MB = 2048"
definition CFG_CLEANUP_EVERY_TS :: int where "CFG_CLEANUP_EVERY_TS = 20"
definition CFG_FQ_CAPACITY :: nat where "CFG_FQ_CAPACITY = 64"
definition CFG_MOTION_DEBOUNCE_MS :: int where "CFG_MOTION_DEBOUNCE_MS = 1000"

definition MOTION_UNDETECTED :: int where "MOTION_UNDETECTED = 0"
definition MOTION_DETECTED :: int where "MOTION_DETECTED = 1"

definition CFG_SDCARD_ROOT :: string where "CFG_SDCARD_ROOT = ''/mnt/sdcard''"
definition CFG_DCIM_ROOT :: string where "CFG_DCIM_ROOT = ''/mnt/sdcard/DCIM/''"
definition CFG_VIDEO_META_DB :: string where
  "CFG_VIDEO_META_DB = ''/mnt/sdcard/DCIM/VideoMetadata.db''"

datatype osd_position_t =
  OSD_POS_TOP_LEFT | OSD_POS_TOP_RIGHT | OSD_POS_BOTTOM_LEFT | OSD_POS_BOTTOM_RIGHT

record ms_h264_cfg_t =
  h264_width :: u32
  h264_height :: u32
  h264_fps :: int
  h264_bitrate_kbps :: u32
  h264_gop :: int

record ms_mjpeg_cfg_t =
  mjpeg_width :: u32
  mjpeg_height :: u32
  mjpeg_fps :: int
  mjpeg_qfactor_max :: u32
  mjpeg_qfactor_min :: u32

record ms_ivs_cfg_t =
  ivs_width :: u32
  ivs_height :: u32
  ivs_fps :: int
  ivs_md_interval :: int
  ivs_md_sensibility :: int
  ivs_md_night_mode :: bool
  ivs_thresh_sad :: int
  ivs_thresh_move :: int
  ivs_area_ratio :: rat
  ivs_poll_ms :: int
  ivs_fps_low :: int
  ivs_fps_high :: int
  ivs_motion_debounce_ms :: int

record ms_osd_cfg_t =
  osd_font_size :: int
  osd_margin :: int
  osd_position :: osd_position_t

record ms_storage_cfg_t =
  st_hls_duration_s :: int
  st_disk_free_min_mb :: u32
  st_cleanup_every_ts :: int

record ms_config_t =
  c_h264 :: ms_h264_cfg_t
  c_mjpeg :: ms_mjpeg_cfg_t
  c_ivs :: ms_ivs_cfg_t
  c_osd :: ms_osd_cfg_t
  c_storage :: ms_storage_cfg_t

definition config_defaults :: ms_config_t where
  "config_defaults = \<lparr>
     c_h264 = \<lparr>h264_width = CFG_VI_W, h264_height = CFG_VI_H, h264_fps = CFG_VI_BASE_FPS,
               h264_bitrate_kbps = CFG_H264_BITRATE, h264_gop = CFG_FPS_HIGH * 2\<rparr>,
     c_mjpeg = \<lparr>mjpeg_width = CFG_VI_W, mjpeg_height = CFG_VI_H, mjpeg_fps = 15,
                mjpeg_qfactor_max = 80, mjpeg_qfactor_min = 65\<rparr>,
     c_ivs = \<lparr>ivs_width = CFG_IVS_W, ivs_height = CFG_IVS_H, ivs_fps = 15, ivs_md_interval = 4,
              ivs_md_sensibility = 3, ivs_md_night_mode = True, ivs_thresh_sad = 40,
              ivs_thresh_move = 2, ivs_area_ratio = CFG_MD_AREA_RATIO, ivs_poll_ms = CFG_IVS_POLL_MS,
              ivs_fps_low = CFG_FPS_LOW, ivs_fps_high = CFG_FPS_HIGH,
              ivs_motion_debounce_ms = CFG_MOTION_DEBOUNCE_MS\<rparr>,
     c_osd = \<lparr>osd_font_size = CFG_OSD_FONT_SIZE, osd_margin = CFG_OSD_MARGIN,
              osd_position = OSD_POS_BOTTOM_RIGHT\<rparr>,
     c_storage = \<lparr>st_hls_duration_s = CFG_HLS_DURATION_S,
                  st_disk_free_min_mb = CFG_DISK_FREE_MIN_MB,
                  st_cleanup_every_ts = CFG_CLEANUP_EVERY_TS\<rparr>\<rparr>"

section \<open>Reading a parsed document\<close>

datatype yaml_node = YScalar string | YSequence | YMapping "(int \<times> int) list"

type_synonym yaml_document = "int \<Rightarrow> yaml_node option"

fun map_get_pairs :: "yaml_document \<Rightarrow> (int \<times> int) list \<Rightarrow> string \<Rightarrow> yaml_node option" where
  "map_get_pairs doc [] key = None"
| "map_get_pairs doc ((k, v) # ps) key =
     (case doc k of
        Some (YScalar s) \<Rightarrow> if s = key then doc v else map_get_pairs doc ps key
      | _ \<Rightarrow> map_get_pairs doc ps key)"

definition map_get :: "yaml_document \<Rightarrow> yaml_node option \<Rightarrow> string \<Rightarrow> yaml_node option" where
  "map_get doc m key = (case m of
      Some (YMapping ps) \<Rightarrow> map_get_pairs doc ps key
    | _ \<Rightarrow> None)"

definition str_val :: "yaml_document \<Rightarrow> yaml_node option \<Rightarrow> string \<Rightarrow> string option" where
  "str_val doc m key = (case map_get doc m key of Some (YScalar s) \<Rightarrow> Some s | _ \<Rightarrow> None)"

definition int_val :: "yaml_document \<Rightarrow> yaml_node option \<Rightarrow> string \<Rightarrow> int \<Rightarrow> int" where
  "int_val doc m key d = (case str_val doc m key of Some s \<Rightarrow> atoi s | None \<Rightarrow> d)"

definition u32_val :: "yaml_document \<Rightarrow> yaml_node option \<Rightarrow> string \<Rightarrow> u32 \<Rightarrow> u32" where
  "u32_val doc m key d = (case str_val doc m key of Some s \<Rightarrow> strtoul s | None \<Rightarrow> d)"

definition float_val :: "yaml_document \<Rightarrow> yaml_node option \<Rightarrow> string \<Rightarrow> rat \<Rightarrow> rat" where
  "float_val doc m key d = (case str_val doc m key of Some s \<Rightarrow> fl32 (atof s) | None \<Rightarrow> d)"

definition bool_val :: "yaml_document \<Rightarrow> yaml_node option \<Rightarrow> string \<Rightarrow> bool \<Rightarrow> bool" where
  "bool_val doc m key d = (case str_val doc m key of
      None \<Rightarrow> d
    | Some s \<Rightarrow> s = ''true'' \<or> s = ''yes'' \<or> s = ''1'')"

definition pos_val ::
  "yaml_document \<Rightarrow> yaml_node option \<Rightarrow> string \<Rightarrow> osd_position_t \<Rightarrow> osd_position_t" where
  "pos_val doc m key d = (case str_val doc m key of
      None \<Rightarrow> d
    | Some s \<Rightarrow>
        if s = ''top-left'' then OSD_POS_TOP_LEFT
        else if s = ''top-right'' then OSD_POS_TOP_RIGHT
        else if s = ''bottom-left'' then OSD_POS_BOTTOM_LEFT
        else if s = ''bottom-right'' then OSD_POS_BOTTOM_RIGHT
        else d)"

section \<open>Sections\<close>

definition parse_h264 :: "yaml_document \<Rightarrow> yaml_node option \<Rightarrow> ms_config_t \<Rightarrow> ms_config_t" where
  "parse_h264 doc sec c =
     (let h = c_h264 c in c\<lparr>c_h264 := \<lparr>
        h264_width = u32_val doc sec ''width'' (h264_width h),
        h264_height = u32_val doc sec ''height'' (h264_height h),
        h264_fps = int_val doc sec ''fps'' (h264_fps h),
        h264_bitrate_kbps = u32_val doc sec ''bitrate_kbps'' (h264_bitrate_kbps h),
        h264_gop = int_val doc sec ''gop'' (h264_gop h)\<rparr>\<rparr>)"

definition parse_mjpeg :: "yaml_document \<Rightarrow> yaml_node option \<Rightarrow> ms_config_t \<Rightarrow> ms_config_t" where
  "parse_mjpeg doc sec c =
     (let m = c_mjpeg c in c\<lparr>c_mjpeg := \<lparr>
        mjpeg_width = u32_val doc sec ''width'' (mjpeg_width m),
        mjpeg_height = u32_val doc sec ''height'' (mjpeg_height m),
        mjpeg_fps = int_val doc sec ''fps'' (mjpeg_fps m),
        mjpeg_qfactor_max = u32_val doc sec ''qfactor_max'' (mjpeg_qfactor_max m),
        mjpeg_qfactor_min = u32_val doc sec ''qfactor_min'' (mjpeg_qfactor_min m)\<rparr>\<rparr>)"

definition parse_ivs :: "yaml_document \<Rightarrow> yaml_node option \<Rightarrow> ms_config_t \<Rightarrow> ms_config_t" where
  "parse_ivs doc sec c =
     (let i = c_ivs c in c\<lparr>c_ivs := \<lparr>
        ivs_width = u32_val doc sec ''width'' (ivs_width i),
        ivs_height = u32_val doc sec ''height'' (ivs_height i),
        ivs_fps = int_val doc sec ''fps'' (ivs_fps i),
        ivs_md_interval = int_val doc sec ''md_interval'' (ivs_md_interval i),
        ivs_md_sensibility = int_val doc sec ''md_sensibility'' (ivs_md_sensibility i),
        ivs_md_night_mode = bool_val doc sec ''md_night_mode'' (ivs_md_night_mode i),
        ivs_thresh_sad = int_val doc sec ''thresh_sad'' (ivs_thresh_sad i),
        ivs_thresh_move = int_val doc sec ''thresh_move'' (ivs_thresh_move i),
        ivs_area_ratio = float_val doc sec ''area_ratio'' (ivs_area_ratio i),
        ivs_poll_ms = int_val doc sec ''poll_ms'' (ivs_poll_ms i),
        ivs_fps_low = int_val doc sec ''fps_low'' (ivs_fps_low i),
        ivs_fps_high = int_val doc sec ''fps_high'' (ivs_fps_high i),
        ivs_motion_debounce_ms = int_val doc sec ''motion_debounce_ms'' (ivs_motion_debounce_ms i)\<rparr>\<rparr>)"

definition parse_osd :: "yaml_document \<Rightarrow> yaml_node option \<Rightarrow> ms_config_t \<Rightarrow> ms_config_t" where
  "parse_osd doc sec c =
     (let r = c_osd c in c\<lparr>c_osd := \<lparr>
        osd_font_size = int_val doc sec ''font_size'' (osd_font_size r),
        osd_margin = int_val doc sec ''margin'' (osd_margin r),
        osd_position = pos_val doc sec ''position'' (osd_position r)\<rparr>\<rparr>)"

definition parse_storage :: "yaml_document \<Rightarrow> yaml_node option \<Rightarrow> ms_config_t \<Rightarrow> ms_config_t" where
  "parse_storage doc sec c =
     (let s = c_storage c in c\<lparr>c_storage := \<lparr>
        st_hls_duration_s = int_val doc sec ''hls_duration_s'' (st_hls_duration_s s),
        st_disk_free_min_mb = u32_val doc sec ''disk_free_min_mb'' (st_disk_free_min_mb s),
        st_cleanup_every_ts = int_val doc sec ''cleanup_every_ts'' (st_cleanup_every_ts s)\<rparr>\<rparr>)"

text \<open>
  What happens to the file: it cannot be opened, libyaml rejects it, or libyaml returns a document
  and its root node (\<open>None\<close> for an empty document).
\<close>

datatype config_file =
  FileMissing | ParseError | Parsed yaml_document "yaml_node option"

definition apply_section ::
  "yaml_document \<Rightarrow> yaml_node option \<Rightarrow> string
     \<Rightarrow> (yaml_document \<Rightarrow> yaml_node option \<Rightarrow> ms_config_t \<Rightarrow> ms_config_t)
     \<Rightarrow> ms_config_t \<Rightarrow> ms_config_t" where
  "apply_section doc rnode key parse c =
     (case map_get doc rnode key of None \<Rightarrow> c | Some sec \<Rightarrow> parse doc (Some sec) c)"

definition is_mapping :: "yaml_node option \<Rightarrow> bool" where
  "is_mapping n = (case n of Some (YMapping ps) \<Rightarrow> True | _ \<Rightarrow> False)"

definition ms_config_load :: "config_file \<Rightarrow> ms_config_t" where
  "ms_config_load f = (case f of
      FileMissing \<Rightarrow> config_defaults
    | ParseError \<Rightarrow> config_defaults
    | Parsed doc rnode \<Rightarrow>
        if is_mapping rnode then
          apply_section doc rnode ''storage'' parse_storage
            (apply_section doc rnode ''osd'' parse_osd
              (apply_section doc rnode ''ivs'' parse_ivs
                (apply_section doc rnode ''mjpeg'' parse_mjpeg
                  (apply_section doc rnode ''h264'' parse_h264 config_defaults))))
        else config_defaults)"

end
