(* ===== verification/ConfigProps.thy ===== *)
theory ConfigProps
  imports Config
begin

text \<open>
  The configuration file: what \<open>ms_config_load\<close> makes of a document depends only on the text it holds
  for each section and key; every value it returns fits its C type; and a file that prints a
  configuration is read back to it.
\<close>

section \<open>A document as text\<close>

text \<open>The scalar text under a section and a key.\<close>

definition doc_text :: "yaml_document \<Rightarrow> yaml_node option \<Rightarrow> string \<Rightarrow> string \<Rightarrow> string option" where
  "doc_text doc rnode sec key = str_val doc (map_get doc rnode sec) key"

lemma map_get_none [simp]: "map_get doc None key = None"
  by (simp add: map_get_def)

lemma vals_none [simp]:
  "int_val doc None k d = d" "u32_val doc None k w = w" "float_val doc None k r = r" "bool_val doc None k b = b"
  "pos_val doc None k p = p"
  by (simp_all add: int_val_def u32_val_def float_val_def bool_val_def pos_val_def str_val_def)

lemma parse_none:
  "parse_h264 doc None c = c" "parse_mjpeg doc None c = c" "parse_ivs doc None c = c" "parse_osd doc None c = c"
  "parse_storage doc None c = c"
  by (simp_all add: parse_h264_def parse_mjpeg_def parse_ivs_def parse_osd_def parse_storage_def Let_def)

lemma apply_section_parse:
  "parse doc None c = c \<Longrightarrow> apply_section doc rnode key parse c = parse doc (map_get doc rnode key) c"
  by (simp add: apply_section_def split: option.splits)

lemma load_parses:
  assumes "is_mapping rnode"
  shows "ms_config_load (Parsed doc rnode) =
    parse_storage doc (map_get doc rnode ''storage'') (parse_osd doc (map_get doc rnode ''osd'')
      (parse_ivs doc (map_get doc rnode ''ivs'') (parse_mjpeg doc (map_get doc rnode ''mjpeg'')
        (parse_h264 doc (map_get doc rnode ''h264'') config_defaults))))"
  using assms by (simp add: ms_config_load_def apply_section_parse parse_none)

section \<open>Ranges\<close>

text \<open>The \<open>int\<close> fields hold values of their type; the unsigned ones are words of their width.\<close>

definition config_typed :: "ms_config_t \<Rightarrow> bool" where
  "config_typed c \<longleftrightarrow> list_all in_i32
     [h264_fps (c_h264 c), h264_gop (c_h264 c), mjpeg_fps (c_mjpeg c), ivs_fps (c_ivs c), ivs_md_interval (c_ivs c),
      ivs_md_sensibility (c_ivs c), ivs_thresh_sad (c_ivs c), ivs_thresh_move (c_ivs c), ivs_poll_ms (c_ivs c),
      ivs_fps_low (c_ivs c), ivs_fps_high (c_ivs c), ivs_motion_debounce_ms (c_ivs c), osd_font_size (c_osd c),
      osd_margin (c_osd c), st_hls_duration_s (c_storage c), st_cleanup_every_ts (c_storage c)]"

lemma int_val_typed: "in_i32 d \<Longrightarrow> in_i32 (int_val doc m k d)"
  by (simp add: int_val_def atoi_range split: option.splits)

lemma float_val_rounded: "\<exists>x. d = fl32 x \<Longrightarrow> \<exists>x. float_val doc m k d = fl32 x"
  by (auto simp: float_val_def split: option.splits)

lemma defaults_typed: "config_typed config_defaults" "\<exists>x. ivs_area_ratio (c_ivs config_defaults) = fl32 x"
proof -
  show "config_typed config_defaults"
    by (simp add: config_typed_def config_defaults_def in_i32_def CFG_VI_BASE_FPS_def CFG_FPS_HIGH_def CFG_FPS_LOW_def
        CFG_IVS_POLL_MS_def CFG_MOTION_DEBOUNCE_MS_def CFG_OSD_FONT_SIZE_def CFG_OSD_MARGIN_def CFG_HLS_DURATION_S_def
        CFG_CLEANUP_EVERY_TS_def)
  show "\<exists>x. ivs_area_ratio (c_ivs config_defaults) = fl32 x"
    by (auto simp: config_defaults_def CFG_MD_AREA_RATIO_def)
qed

lemma parse_typed:
  assumes "config_typed c"
  shows "config_typed (parse_h264 doc sec c)" "config_typed (parse_mjpeg doc sec c)" "config_typed (parse_ivs doc sec c)"
    "config_typed (parse_osd doc sec c)" "config_typed (parse_storage doc sec c)"
  using assms
  by (simp_all add: config_typed_def parse_h264_def parse_mjpeg_def parse_ivs_def parse_osd_def parse_storage_def
      Let_def int_val_typed)

lemma parse_ratio:
  "ivs_area_ratio (c_ivs (parse_h264 doc sec c)) = ivs_area_ratio (c_ivs c)"
  "ivs_area_ratio (c_ivs (parse_mjpeg doc sec c)) = ivs_area_ratio (c_ivs c)"
  "ivs_area_ratio (c_ivs (parse_osd doc sec c)) = ivs_area_ratio (c_ivs c)"
  "ivs_area_ratio (c_ivs (parse_storage doc sec c)) = ivs_area_ratio (c_ivs c)"
  "ivs_area_ratio (c_ivs (parse_ivs doc sec c)) = float_val doc sec ''area_ratio'' (ivs_area_ratio (c_ivs c))"
  by (simp_all add: parse_h264_def parse_mjpeg_def parse_osd_def parse_storage_def parse_ivs_def Let_def)


section \<open>Round trip\<close>

text \<open>A file as its sections, each with its keys and their texts, and the nodes libyaml makes of it.\<close>

type_synonym config_tree = "(string \<times> (string \<times> string) list) list"

definition scalar_pair :: "yaml_document \<Rightarrow> int \<times> int \<Rightarrow> string \<times> string \<Rightarrow> bool" where
  "scalar_pair doc n kt \<longleftrightarrow> doc (fst n) = Some (YScalar (fst kt)) \<and> doc (snd n) = Some (YScalar (snd kt))"

definition section_pair :: "yaml_document \<Rightarrow> int \<times> int \<Rightarrow> string \<times> (string \<times> string) list \<Rightarrow> bool" where
  "section_pair doc n st \<longleftrightarrow> doc (fst n) = Some (YScalar (fst st)) \<and>
     (case doc (snd n) of Some (YMapping ps) \<Rightarrow> list_all2 (scalar_pair doc) ps (snd st) | _ \<Rightarrow> False)"

definition parses_to :: "yaml_document \<Rightarrow> yaml_node option \<Rightarrow> config_tree \<Rightarrow> bool" where
  "parses_to doc rnode tree \<longleftrightarrow> (case rnode of Some (YMapping ps) \<Rightarrow> list_all2 (section_pair doc) ps tree | _ \<Rightarrow> False)"

definition tree_text :: "config_tree \<Rightarrow> string \<Rightarrow> string \<Rightarrow> string option" where
  "tree_text tree sec key = (case map_of tree sec of None \<Rightarrow> None | Some kts \<Rightarrow> map_of kts key)"

lemma scalar_pairs_lookup:
  "list_all2 (scalar_pair doc) ps kts \<Longrightarrow>
   (case map_get_pairs doc ps key of Some (YScalar s) \<Rightarrow> Some s | _ \<Rightarrow> None) = map_of kts key"
  by (induction ps kts rule: list_all2_induct) (auto simp: scalar_pair_def)

lemma section_pairs_lookup:
  "list_all2 (section_pair doc) ps tree \<Longrightarrow>
   (case map_of tree sec of
      None \<Rightarrow> map_get_pairs doc ps sec = None
    | Some kts \<Rightarrow> \<exists>qs. map_get_pairs doc ps sec = Some (YMapping qs) \<and> list_all2 (scalar_pair doc) qs kts)"
  by (induction ps tree rule: list_all2_induct)
    (auto simp: section_pair_def split: option.splits yaml_node.splits)

lemma doc_text_tree:
  assumes "parses_to doc rnode tree"
  shows "is_mapping rnode" "doc_text doc rnode sec key = tree_text tree sec key"
proof -
  obtain ps where r: "rnode = Some (YMapping ps)" "list_all2 (section_pair doc) ps tree"
    using assms by (auto simp: parses_to_def split: option.splits yaml_node.splits)
  then show "is_mapping rnode" by (simp add: is_mapping_def)
  show "doc_text doc rnode sec key = tree_text tree sec key"
  proof (cases "map_of tree sec")
    case None
    then show ?thesis using section_pairs_lookup [OF r(2), of sec]
      by (simp add: doc_text_def tree_text_def str_val_def map_get_def r(1))
  next
    case (Some kts)
    then obtain qs where "map_get_pairs doc ps sec = Some (YMapping qs)" "list_all2 (scalar_pair doc) qs kts"
      using section_pairs_lookup [OF r(2), of sec] by auto
    then show ?thesis using scalar_pairs_lookup [of doc qs kts key] Some
      by (simp add: doc_text_def tree_text_def str_val_def map_get_def r(1))
  qed
qed

text \<open>The text of a value.\<close>

definition pos_text :: "osd_position_t \<Rightarrow> string" where
  "pos_text p = (case p of OSD_POS_TOP_LEFT \<Rightarrow> ''top-left'' | OSD_POS_TOP_RIGHT \<Rightarrow> ''top-right''
     | OSD_POS_BOTTOM_LEFT \<Rightarrow> ''bottom-left'' | OSD_POS_BOTTOM_RIGHT \<Rightarrow> ''bottom-right'')"

definition u32_text :: "u32 \<Rightarrow> string" where
  "u32_text w = show_nat (uint w)"

definition h264_texts :: "ms_h264_cfg_t \<Rightarrow> (string \<times> string) list" where
  "h264_texts h = [(''width'', u32_text (h264_width h)), (''height'', u32_text (h264_height h)),
     (''fps'', show_int (h264_fps h)), (''bitrate_kbps'', u32_text (h264_bitrate_kbps h)),
     (''gop'', show_int (h264_gop h))]"

definition mjpeg_texts :: "ms_mjpeg_cfg_t \<Rightarrow> (string \<times> string) list" where
  "mjpeg_texts m = [(''width'', u32_text (mjpeg_width m)), (''height'', u32_text (mjpeg_height m)),
     (''fps'', show_int (mjpeg_fps m)), (''qfactor_max'', u32_text (mjpeg_qfactor_max m)),
     (''qfactor_min'', u32_text (mjpeg_qfactor_min m))]"

definition ivs_texts :: "ms_ivs_cfg_t \<Rightarrow> (string \<times> string) list" where
  "ivs_texts i = [(''width'', u32_text (ivs_width i)), (''height'', u32_text (ivs_height i)),
     (''fps'', show_int (ivs_fps i)), (''md_interval'', show_int (ivs_md_interval i)),
     (''md_sensibility'', show_int (ivs_md_sensibility i)),
     (''md_night_mode'', if ivs_md_night_mode i then ''true'' else ''false''),
     (''thresh_sad'', show_int (ivs_thresh_sad i)), (''thresh_move'', show_int (ivs_thresh_move i)),
     (''poll_ms'', show_int (ivs_poll_ms i)),
     (''fps_low'', show_int (ivs_fps_low i)), (''fps_high'', show_int (ivs_fps_high i)),
     (''motion_debounce_ms'', show_int (ivs_motion_debounce_ms i))]"

definition osd_texts :: "ms_osd_cfg_t \<Rightarrow> (string \<times> string) list" where
  "osd_texts r = [(''font_size'', show_int (osd_font_size r)), (''margin'', show_int (osd_margin r)),
     (''position'', pos_text (osd_position r))]"

definition storage_texts :: "ms_storage_cfg_t \<Rightarrow> (string \<times> string) list" where
  "storage_texts s = [(''hls_duration_s'', show_int (st_hls_duration_s s)),
     (''disk_free_min_mb'', u32_text (st_disk_free_min_mb s)),
     (''cleanup_every_ts'', show_int (st_cleanup_every_ts s))]"

definition config_tree_of :: "ms_config_t \<Rightarrow> config_tree" where
  "config_tree_of c =
     [(''h264'', h264_texts (c_h264 c)), (''mjpeg'', mjpeg_texts (c_mjpeg c)), (''ivs'', ivs_texts (c_ivs c)),
      (''osd'', osd_texts (c_osd c)), (''storage'', storage_texts (c_storage c))]"

definition config_text :: "ms_config_t \<Rightarrow> string \<Rightarrow> string \<Rightarrow> string option" where
  "config_text c = tree_text (config_tree_of c)"

text \<open>A document that prints a value, or leaves out a key whose default it is, gives the value.\<close>

definition says :: "string option \<Rightarrow> string \<Rightarrow> string \<Rightarrow> bool" where
  "says t txt dflt \<longleftrightarrow> t = Some txt \<or> t = None \<and> txt = dflt"

lemma strtoul_u32_text [simp]: "strtoul (u32_text w) = w"
  using strtoul_show_nat [of "uint w"] uint_lt2p [of w] by (simp add: u32_text_def)

lemma int_val_says: "says (str_val doc m k) (show_int v) (show_int d) \<Longrightarrow> in_i32 v \<Longrightarrow> in_i32 d \<Longrightarrow> int_val doc m k d = v"
  by (auto simp: says_def int_val_def atoi_show_int dest: arg_cong [where f = atoi])

lemma u32_val_says: "says (str_val doc m k) (u32_text v) (u32_text d) \<Longrightarrow> u32_val doc m k d = v"
  by (auto simp: says_def u32_val_def dest: arg_cong [where f = strtoul])

lemma bool_val_says:
  "says (str_val doc m k) (if v then ''true'' else ''false'') (if d then ''true'' else ''false'') \<Longrightarrow> bool_val doc m k d = v"
  by (auto simp: says_def bool_val_def split: if_splits)

lemma pos_text_inj: "pos_text p = pos_text q \<Longrightarrow> p = q"
  by (cases p; cases q; simp add: pos_text_def)

lemma pos_val_says:
  assumes "says (str_val doc m k) (pos_text v) (pos_text d)"
  shows "pos_val doc m k d = v"
proof (cases "str_val doc m k")
  case None
  then show ?thesis using assms pos_text_inj [of v d] by (simp add: says_def pos_val_def)
next
  case (Some t)
  then have "t = pos_text v" using assms by (simp add: says_def)
  with Some show ?thesis by (cases v; simp add: pos_val_def pos_text_def)
qed


lemma config_text_sections:
  "config_text c ''h264'' = map_of (h264_texts (c_h264 c))" "config_text c ''mjpeg'' = map_of (mjpeg_texts (c_mjpeg c))"
  "config_text c ''ivs'' = map_of (ivs_texts (c_ivs c))" "config_text c ''osd'' = map_of (osd_texts (c_osd c))"
  "config_text c ''storage'' = map_of (storage_texts (c_storage c))"
  by (simp_all add: config_text_def tree_text_def config_tree_of_def fun_eq_iff)

text \<open>
  A file that says \<open>c\<close>: every key is there with the text of its value, or absent and its value is the
  default. The area ratio has many decimal texts: any that single precision reading takes to its value.
\<close>

definition file_says :: "ms_config_t \<Rightarrow> config_tree \<Rightarrow> bool" where
  "file_says c tree \<longleftrightarrow> (\<forall>sec key txt. config_text c sec key = Some txt \<longrightarrow>
     tree_text tree sec key = Some txt \<or>
     tree_text tree sec key = None \<and> config_text config_defaults sec key = Some txt) \<and>
   (case tree_text tree ''ivs'' ''area_ratio'' of
      None \<Rightarrow> ivs_area_ratio (c_ivs c) = CFG_MD_AREA_RATIO
    | Some txt \<Rightarrow> fl32 (atof txt) = ivs_area_ratio (c_ivs c))"

lemma file_says_ratio:
  assumes "parses_to doc rnode tree" and "file_says c tree"
  shows "float_val doc (map_get doc rnode ''ivs'') ''area_ratio'' CFG_MD_AREA_RATIO = ivs_area_ratio (c_ivs c)"
  using assms(2) doc_text_tree(2) [OF assms(1), of "''ivs''" "''area_ratio''"]
  by (auto simp: file_says_def float_val_def doc_text_def split: option.splits)

lemma file_says_value:
  assumes "parses_to doc rnode tree" and "file_says c tree"
    and "config_text c sec key = Some txt" and "config_text config_defaults sec key = Some dflt"
  shows "says (str_val doc (map_get doc rnode sec) key) txt dflt"
proof -
  have "tree_text tree sec key = Some txt \<or> tree_text tree sec key = None \<and> Some dflt = Some txt"
    using assms(2) [unfolded file_says_def, THEN conjunct1, rule_format, OF assms(3)] assms(4) by simp
  then show ?thesis using doc_text_tree(2) [OF assms(1), of sec key] by (auto simp: says_def doc_text_def)
qed

lemma parse_says:
  assumes "parses_to doc rnode tree" and "file_says c tree" and "config_typed c"
  shows "c_h264 c0 = c_h264 config_defaults \<Longrightarrow>
      parse_h264 doc (map_get doc rnode ''h264'') c0 = c0\<lparr>c_h264 := c_h264 c\<rparr>"
    and "c_mjpeg c0 = c_mjpeg config_defaults \<Longrightarrow>
      parse_mjpeg doc (map_get doc rnode ''mjpeg'') c0 = c0\<lparr>c_mjpeg := c_mjpeg c\<rparr>"
    and "c_ivs c0 = c_ivs config_defaults \<Longrightarrow>
      parse_ivs doc (map_get doc rnode ''ivs'') c0 = c0\<lparr>c_ivs := c_ivs c\<rparr>"
    and "c_osd c0 = c_osd config_defaults \<Longrightarrow>
      parse_osd doc (map_get doc rnode ''osd'') c0 = c0\<lparr>c_osd := c_osd c\<rparr>"
    and "c_storage c0 = c_storage config_defaults \<Longrightarrow>
      parse_storage doc (map_get doc rnode ''storage'') c0 = c0\<lparr>c_storage := c_storage c\<rparr>"
proof -
  note F = file_says_value [OF assms(1,2)]
  note V = int_val_says [OF F] u32_val_says [OF F] bool_val_says [OF F] pos_val_says [OF F]
  have D: "ivs_area_ratio (c_ivs config_defaults) = CFG_MD_AREA_RATIO" by (simp add: config_defaults_def)
  note T = assms(3) [unfolded config_typed_def] defaults_typed(1) [unfolded config_typed_def]
  show "c_h264 c0 = c_h264 config_defaults \<Longrightarrow>
      parse_h264 doc (map_get doc rnode ''h264'') c0 = c0\<lparr>c_h264 := c_h264 c\<rparr>"
    using T by (simp add: parse_h264_def Let_def V config_text_sections h264_texts_def)
  show "c_mjpeg c0 = c_mjpeg config_defaults \<Longrightarrow>
      parse_mjpeg doc (map_get doc rnode ''mjpeg'') c0 = c0\<lparr>c_mjpeg := c_mjpeg c\<rparr>"
    using T by (simp add: parse_mjpeg_def Let_def V config_text_sections mjpeg_texts_def)
  show "c_ivs c0 = c_ivs config_defaults \<Longrightarrow>
      parse_ivs doc (map_get doc rnode ''ivs'') c0 = c0\<lparr>c_ivs := c_ivs c\<rparr>"
    using T by (simp add: D file_says_ratio [OF assms(1,2)] parse_ivs_def Let_def V config_text_sections ivs_texts_def)
  show "c_osd c0 = c_osd config_defaults \<Longrightarrow>
      parse_osd doc (map_get doc rnode ''osd'') c0 = c0\<lparr>c_osd := c_osd c\<rparr>"
    using T by (simp add: parse_osd_def Let_def V config_text_sections osd_texts_def)
  show "c_storage c0 = c_storage config_defaults \<Longrightarrow>
      parse_storage doc (map_get doc rnode ''storage'') c0 = c0\<lparr>c_storage := c_storage c\<rparr>"
    using T by (simp add: parse_storage_def Let_def V config_text_sections storage_texts_def)
qed

text \<open>
C21: A configuration written to a file is read back: if libyaml turns the file into any document whose
texts are those \<open>config_tree_of\<close> prints for \<open>c\<close> - keys and whole sections may be left out where \<open>c\<close>
has the default, come in any order, and stand beside keys the program does not know - then
\<open>ms_config_load\<close> gives \<open>c\<close>. The area ratio may be given by any decimal
text that single precision reading takes to its value.
\<close>

theorem config_roundtrip:
  assumes "parses_to doc rnode tree" and "config_typed c" and "file_says c tree"
  shows "ms_config_load (Parsed doc rnode) = c"
  by (simp add: load_parses [OF doc_text_tree(1) [OF assms(1)]] parse_says [OF assms(1,3,2)])


text \<open>A file that sets the polling period and the area ratio, next to a key the program does not know.\<close>

definition demo_doc :: yaml_document where
  "demo_doc = (\<lambda>n. if n = 1 then Some (YMapping [(2, 3)]) else if n = 2 then Some (YScalar ''ivs'')
     else if n = 3 then Some (YMapping [(4, 5), (6, 7), (8, 9)]) else if n = 4 then Some (YScalar ''colour'')
     else if n = 5 then Some (YScalar ''blue'') else if n = 6 then Some (YScalar ''poll_ms'')
     else if n = 7 then Some (YScalar ''100'') else if n = 8 then Some (YScalar ''area_ratio'')
     else if n = 9 then Some (YScalar ''0.5'') else None)"

definition demo_tree :: config_tree where
  "demo_tree = [(''ivs'', [(''colour'', ''blue''), (''poll_ms'', ''100''), (''area_ratio'', ''0.5'')])]"

definition demo_config :: ms_config_t where
  "demo_config = config_defaults\<lparr>c_ivs := (c_ivs config_defaults)\<lparr>ivs_poll_ms := 100, ivs_area_ratio := 1 / 2\<rparr>\<rparr>"

lemma demo_says: "file_says demo_config demo_tree"
proof -
  have "show_int 100 = ''100''" by code_simp
  then have "config_text demo_config sec key = (if sec = ''ivs'' \<and> key = ''poll_ms'' then Some ''100''
      else config_text config_defaults sec key)" for sec key
    by (simp add: config_text_def tree_text_def config_tree_of_def ivs_texts_def demo_config_def)
  moreover have "config_text c ''ivs'' ''area_ratio'' = None" "config_text c ''ivs'' ''colour'' = None" for c
    by (simp_all add: config_text_def tree_text_def config_tree_of_def ivs_texts_def)
  moreover have "fl32 (atof ''0.5'') = 1 / 2" by code_simp
  ultimately show ?thesis
    by (simp add: file_says_def demo_tree_def tree_text_def demo_config_def)
qed

lemma config_roundtrip_witness: "ms_config_load (Parsed demo_doc (demo_doc 1)) = demo_config"
proof (rule config_roundtrip [OF _ _ demo_says])
  show "parses_to demo_doc (demo_doc 1) demo_tree"
    by (simp add: parses_to_def section_pair_def scalar_pair_def demo_doc_def demo_tree_def)
  show "config_typed demo_config" using defaults_typed(1) by (simp add: config_typed_def demo_config_def in_i32_def)
qed

end
