(* ===== verification/Motion.thy ===== *)
theory Motion
  imports Config FrameQueueProps
begin

text \<open>
  The application context of \<open>src/main.c\<close> and the motion thread, \<open>ivs_thread\<close> of
  \<open>src/media.c\<close>: it polls the Rockchip motion detector, publishes the motion state and the
  matching frame rate to the other threads, and keeps its polling period.
\<close>

section \<open>The application context\<close>

record app_ctx_t =
  ctx_is_running :: bool
  ctx_motion_state :: int
  ctx_current_fps :: int
  ctx_vq :: "frame_queue option"

text \<open>The two allocations of \<open>fq_create\<close> may fail. Returns the return code and the context.\<close>

definition app_ctx_init :: "bool \<Rightarrow> bool \<Rightarrow> int \<times> app_ctx_t" where
  "app_ctx_init calloc_q calloc_slots =
     (let vq = fq_create calloc_q calloc_slots CFG_FQ_CAPACITY;
          ctx = \<lparr>ctx_is_running = True, ctx_motion_state = MOTION_UNDETECTED,
                 ctx_current_fps = CFG_FPS_LOW, ctx_vq = vq\<rparr>
      in if vq = None then (-1, ctx) else (0, ctx))"

definition app_ctx_deinit :: "app_ctx_t \<Rightarrow> app_ctx_t \<times> bytes list" where
  "app_ctx_deinit ctx = (case ctx_vq ctx of
      None \<Rightarrow> (ctx, [])
    | Some q \<Rightarrow> (ctx\<lparr>ctx_vq := None\<rparr>, fq_destroy (Some q)))"

definition on_signal :: "app_ctx_t \<Rightarrow> app_ctx_t" where
  "on_signal ctx = ctx\<lparr>ctx_is_running := False\<rparr>"

section \<open>The motion thread\<close>

text \<open>
  The area above which a frame counts as moving: \<open>width * height\<close> wraps at 32 bits, is rounded to
  a \<open>float\<close>, and so is its product with the ratio; the conversion back is undefined (\<open>None\<close>)
  outside \<open>uint32_t\<close>.
\<close>

definition md_threshold :: "ms_ivs_cfg_t \<Rightarrow> u32 option" where
  "md_threshold cfg =
     f_to_u32 (fl32 (fl32 (of_int (uint (ivs_width cfg * ivs_height cfg))) * ivs_area_ratio cfg))"

text \<open>
  What one pass meets: the clock at its start and end, and the detector's results if there are any
  (the number of regions and the moving area of the first).
\<close>

record ivs_input =
  ii_t0 :: int
  ii_result :: "(int \<times> u32) option"
  ii_t1 :: int

record ivs_effect =
  ie_released :: bool
  ie_usleep :: "u32 option"

definition ivs_state :: "u32 \<Rightarrow> int \<times> u32 \<Rightarrow> int" where
  "ivs_state threshold res = (case res of (num, square) \<Rightarrow>
     if num = 1 \<and> threshold < square then MOTION_DETECTED else MOTION_UNDETECTED)"

definition ivs_iter ::
  "ms_ivs_cfg_t \<Rightarrow> u32 \<Rightarrow> ivs_input \<Rightarrow> app_ctx_t \<Rightarrow> app_ctx_t \<times> ivs_effect" where
  "ivs_iter cfg threshold inp ctx =
     (let cycle_ms = ivs_poll_ms cfg;
          (ctx', released) = (case ii_result inp of
              None \<Rightarrow> (ctx, False)
            | Some res \<Rightarrow>
                let state = ivs_state threshold res;
                    prev = ctx_motion_state ctx
                in (if state \<noteq> prev
                    then (ctx\<lparr>ctx_motion_state := state,
                              ctx_current_fps := (if state = MOTION_DETECTED then ivs_fps_high cfg
                                                  else ivs_fps_low cfg)\<rparr>, True)
                    else (ctx, True)));
          elapsed = ii_t1 inp - ii_t0 inp
      in (ctx', \<lparr>ie_released = released,
                 ie_usleep = (if elapsed < cycle_ms
                              then Some (word_of_int ((cycle_ms - elapsed) * 1000)) else None)\<rparr>))"

fun ivs_loop ::
  "ms_ivs_cfg_t \<Rightarrow> u32 \<Rightarrow> ivs_input list \<Rightarrow> app_ctx_t \<Rightarrow> app_ctx_t \<times> ivs_effect list" where
  "ivs_loop cfg threshold [] ctx = (ctx, [])"
| "ivs_loop cfg threshold (inp # ins) ctx =
     (case ivs_iter cfg threshold inp ctx of (ctx', eff) \<Rightarrow>
        (case ivs_loop cfg threshold ins ctx' of (ctx'', effs) \<Rightarrow> (ctx'', eff # effs)))"

text \<open>The thread; the threshold's conversion may be undefined.\<close>

definition ivs_thread ::
  "ms_ivs_cfg_t \<Rightarrow> ivs_input list \<Rightarrow> app_ctx_t \<Rightarrow> (app_ctx_t \<times> ivs_effect list) option" where
  "ivs_thread cfg ins ctx = (case md_threshold cfg of
      None \<Rightarrow> None
    | Some threshold \<Rightarrow> Some (ivs_loop cfg threshold ins ctx))"

section \<open>The published state\<close>

definition last_result :: "ivs_input list \<Rightarrow> (int \<times> u32) option" where
  "last_result ins = (case rev (concat (map (\<lambda>i. case ii_result i of None \<Rightarrow> [] | Some r \<Rightarrow> [r]) ins)) of
      [] \<Rightarrow> None | r # rs \<Rightarrow> Some r)"

definition state_fps :: "ms_ivs_cfg_t \<Rightarrow> int \<Rightarrow> int" where
  "state_fps cfg state = (if state = MOTION_DETECTED then ivs_fps_high cfg else ivs_fps_low cfg)"

lemma last_result_snoc [simp]:
  "last_result (ins @ [i]) = (case ii_result i of None \<Rightarrow> last_result ins | Some r \<Rightarrow> Some r)"
  by (simp add: last_result_def split: option.splits)

lemma last_result_Nil [simp]: "last_result [] = None"
  by (simp add: last_result_def)

lemma ivs_loop_snoc:
  "fst (ivs_loop cfg threshold (ins @ [i]) ctx)
     = fst (ivs_iter cfg threshold i (fst (ivs_loop cfg threshold ins ctx)))"
  by (induction cfg threshold ins ctx rule: ivs_loop.induct) (auto split: prod.splits)

lemma ivs_iter_state:
  "ctx_motion_state (fst (ivs_iter cfg threshold i ctx))
     = (case ii_result i of None \<Rightarrow> ctx_motion_state ctx | Some r \<Rightarrow> ivs_state threshold r)"
  by (auto simp: ivs_iter_def Let_def split: option.splits)

lemma ivs_iter_fps:
  "ctx_current_fps (fst (ivs_iter cfg threshold i ctx))
     = (if ctx_motion_state (fst (ivs_iter cfg threshold i ctx)) = ctx_motion_state ctx
        then ctx_current_fps ctx
        else state_fps cfg (ctx_motion_state (fst (ivs_iter cfg threshold i ctx))))"
  by (auto simp: ivs_iter_def Let_def state_fps_def split: option.splits)

lemma ivs_loop_state:
  "ctx_motion_state (fst (ivs_loop cfg threshold ins ctx))
     = (case last_result ins of None \<Rightarrow> ctx_motion_state ctx | Some r \<Rightarrow> ivs_state threshold r)"
  by (induction ins rule: rev_induct) (auto simp: ivs_loop_snoc ivs_iter_state split: option.splits)

lemma ivs_loop_fps:
  "ctx_current_fps (fst (ivs_loop cfg threshold ins ctx)) = ctx_current_fps ctx \<and>
     ctx_motion_state (fst (ivs_loop cfg threshold ins ctx)) = ctx_motion_state ctx \<or>
   ctx_current_fps (fst (ivs_loop cfg threshold ins ctx))
     = state_fps cfg (ctx_motion_state (fst (ivs_loop cfg threshold ins ctx)))"
proof (induction ins rule: rev_induct)
  case (snoc i ins)
  show ?case using snoc ivs_iter_fps [of cfg threshold i "fst (ivs_loop cfg threshold ins ctx)"]
    by (auto simp: ivs_loop_snoc)
qed simp


definition quarter_ivs :: ms_ivs_cfg_t where
  "quarter_ivs = \<lparr>ivs_width = 640, ivs_height = 360, ivs_fps = 10, ivs_md_interval = 100,
     ivs_md_sensibility = 3, ivs_md_night_mode = False, ivs_thresh_sad = 40, ivs_thresh_move = 2,
     ivs_area_ratio = 1 / 4, ivs_poll_ms = 100, ivs_fps_low = 1, ivs_fps_high = 10,
     ivs_motion_debounce_ms = 0\<rparr>"

definition quarter_inputs :: "ivs_input list" where
  "quarter_inputs = [\<lparr>ii_t0 = 0, ii_result = Some (1, 57600), ii_t1 = 30\<rparr>,
     \<lparr>ii_t0 = 100, ii_result = None, ii_t1 = 1100\<rparr>,
     \<lparr>ii_t0 = 1100, ii_result = Some (1, 57601), ii_t1 = 1110\<rparr>]"

lemma quarter_threshold: "md_threshold quarter_ivs = Some 57600"
  by code_simp

lemma quarter_thread:
  "app_ctx_init True True = (0, snd (app_ctx_init True True))"
  "ivs_thread quarter_ivs quarter_inputs (snd (app_ctx_init True True))
     = Some (fst (ivs_loop quarter_ivs 57600 quarter_inputs (snd (app_ctx_init True True))),
         [\<lparr>ie_released = True, ie_usleep = Some 70000\<rparr>, \<lparr>ie_released = False, ie_usleep = None\<rparr>,
          \<lparr>ie_released = True, ie_usleep = Some 90000\<rparr>])"
  unfolding ivs_thread_def quarter_threshold by code_simp+

lemma quarter_facts:
  "ivs_fps_low quarter_ivs = CFG_FPS_LOW" "ivs_fps_high quarter_ivs = 10"
  "last_result quarter_inputs = Some (1, 57601)"
  by (simp_all add: quarter_ivs_def CFG_FPS_LOW_def quarter_inputs_def last_result_def)


section \<open>The polling period\<close>

text \<open>
A pass of the motion thread that finishes within its period sleeps exactly for the rest of it
(in microseconds, without 32-bit wrap-around for periods up to 4294967 ms), a later one does not
sleep; and it releases the detector's results exactly when it got some.\<close>

theorem motion_poll_period:
  assumes "ii_t0 inp \<le> ii_t1 inp" and "ivs_poll_ms cfg \<le> 4294967"
  shows "case snd (ivs_iter cfg threshold inp ctx) of eff \<Rightarrow>
    (ie_released eff \<longleftrightarrow> ii_result inp \<noteq> None) \<and>
    (case ie_usleep eff of
       None \<Rightarrow> ivs_poll_ms cfg \<le> ii_t1 inp - ii_t0 inp
     | Some us \<Rightarrow> (ii_t1 inp - ii_t0 inp) * 1000 + uint us = ivs_poll_ms cfg * 1000 \<and> us \<noteq> 0)"
proof -
  define r where "r = ivs_poll_ms cfg - (ii_t1 inp - ii_t0 inp)"
  have "uint (word_of_int (r * 1000) :: u32) = r * 1000" if "0 < r"
    by (rule u32_of_int) (use that assms in \<open>simp_all add: r_def\<close>)
  moreover from this have "(word_of_int (r * 1000) :: u32) \<noteq> 0" if "0 < r"
    using that by (metis mult_pos_pos less_irrefl uint_0_eq zero_less_numeral)
  moreover have "snd (ivs_iter cfg threshold inp ctx) =
      \<lparr>ie_released = (ii_result inp \<noteq> None),
       ie_usleep = (if 0 < r then Some (word_of_int (r * 1000)) else None)\<rparr>"
    by (auto simp: ivs_iter_def Let_def r_def split: option.splits)
  ultimately show ?thesis by (auto simp: r_def)
qed

lemma motion_poll_period_witness:
  "(30 - 0) * 1000 + uint (70000 :: u32) = ivs_poll_ms quarter_ivs * (1000 :: int)"
  using motion_poll_period [of "\<lparr>ii_t0 = 0, ii_result = Some (1, 57600), ii_t1 = 30\<rparr>" quarter_ivs 57600
      "snd (app_ctx_init True True)"]
  by (simp add: quarter_ivs_def ivs_iter_def Let_def split: prod.splits)

end
