(* ===== verification/Capture.thy ===== *)
theory Capture
  imports Config FrameQueueRuns
begin

text \<open>
  The capture thread, \<open>h264_thread\<close> of \<open>src/media.c\<close>: it downsamples the sensor's fixed
  frame rate to \<open>fps_high\<close> while there is motion and to \<open>fps_low\<close> while there is none,
  rewrites the time stamps so that idle time plays back compressed, feeds the encoder and pushes
  what the encoder returns into the frame queue. The Rockchip calls are inputs (what they return)
  and a trace of calls (what the thread does).
\<close>

section \<open>The rate limiter and the synthesized timeline\<close>

record h264_state =
  h_pts :: int
  h_last_kept_hw :: int
  h_next_keep_hw :: int
  h_prev_motion_state :: int

definition h264_init :: h264_state where
  "h264_init = \<lparr>h_pts = 0, h_last_kept_hw = -1, h_next_keep_hw = 0, h_prev_motion_state = -1\<rparr>"

definition eff_fps_high :: "ms_ivs_cfg_t \<Rightarrow> int" where
  "eff_fps_high cfg = (if ivs_fps_high cfg < 1 then 1 else ivs_fps_high cfg)"

definition eff_fps_low :: "ms_ivs_cfg_t \<Rightarrow> int" where
  "eff_fps_low cfg = (if ivs_fps_low cfg < 1 then 1 else ivs_fps_low cfg)"

definition target_fps :: "ms_ivs_cfg_t \<Rightarrow> int \<Rightarrow> int" where
  "target_fps cfg motion_state =
     (if motion_state = MOTION_DETECTED then eff_fps_high cfg else eff_fps_low cfg)"

definition keep_interval :: "ms_ivs_cfg_t \<Rightarrow> int \<Rightarrow> int" where
  "keep_interval cfg motion_state = c_quot 1000000 (target_fps cfg motion_state)"

text \<open>
  What the thread does with one frame from the sensor: the new state, and the time stamp it gives
  the frame if it keeps it.
\<close>

definition h264_frame ::
  "ms_ivs_cfg_t \<Rightarrow> int \<Rightarrow> int \<Rightarrow> h264_state \<Rightarrow> h264_state \<times> int option" where
  "h264_frame cfg motion_state hw_pts st =
     (let fps_high = eff_fps_high cfg;
          fps_low = eff_fps_low cfg;
          interval = keep_interval cfg motion_state;
          transition = (motion_state \<noteq> h_prev_motion_state st);
          st1 = st\<lparr>h_prev_motion_state := motion_state\<rparr>
      in if h_last_kept_hw st \<ge> 0 \<and> \<not> transition \<and> hw_pts < h_next_keep_hw st
         then (st1, None)
         else
           let next = (if h_last_kept_hw st \<ge> 0 \<and> \<not> transition
                       then let n = h_next_keep_hw st + interval
                            in if n \<le> hw_pts then hw_pts + interval else n
                       else hw_pts + interval);
               pts = (if h_last_kept_hw st < 0 \<or> transition
                      then h_pts st + c_quot 1000000 fps_high
                      else if motion_state = MOTION_DETECTED
                      then h_pts st + (hw_pts - h_last_kept_hw st)
                      else h_pts st + c_quot ((hw_pts - h_last_kept_hw st) * fps_low) fps_high)
           in (st1\<lparr>h_pts := pts, h_last_kept_hw := hw_pts, h_next_keep_hw := next\<rparr>, Some pts))"

text \<open>A sequence of sensor frames, each with the motion state the thread read: the kept ones.\<close>

fun h264_run :: "ms_ivs_cfg_t \<Rightarrow> h264_state \<Rightarrow> (int \<times> int) list \<Rightarrow> h264_state \<times> (int \<times> int) list" where
  "h264_run cfg st [] = (st, [])"
| "h264_run cfg st ((motion_state, hw) # ins) =
     (case h264_frame cfg motion_state hw st of
        (st', None) \<Rightarrow> h264_run cfg st' ins
      | (st', Some pts) \<Rightarrow>
          (case h264_run cfg st' ins of (st'', kept) \<Rightarrow> (st'', (hw, pts) # kept)))"

section \<open>The thread's loop\<close>

datatype nalu_type = H264E_NALU_IDRSLICE | H264E_NALU_ISLICE | H264E_NALU_OTHER

record venc_pack =
  vp_type :: nalu_type
  vp_data :: "bytes option"
  vp_len :: nat
  vp_pts :: u64

text \<open>
  What one pass of the loop meets: the sensor frame's time stamp if \<open>GetChnFrame\<close> succeeds, the
  motion state read, the encoder's packet if \<open>GetStream\<close> succeeds, and whether \<open>malloc\<close> in
  \<open>fq_push\<close> does.
\<close>

record h264_input =
  hi_frame :: "u64 option"
  hi_motion :: int
  hi_pack :: "venc_pack option"
  hi_malloc :: bool

datatype mpi_call = ViGetFrame | VencSendFrame u64 | VencGetStream | VencReleaseStream | ViReleaseFrame

definition is_key_pack :: "venc_pack \<Rightarrow> bool" where
  "is_key_pack p \<longleftrightarrow> vp_type p = H264E_NALU_IDRSLICE \<or> vp_type p = H264E_NALU_ISLICE"

definition h264_iter ::
  "ms_ivs_cfg_t \<Rightarrow> h264_input \<Rightarrow> h264_state \<times> frame_queue
     \<Rightarrow> (h264_state \<times> frame_queue) \<times> mpi_call list" where
  "h264_iter cfg inp s = (case s of (st, vq) \<Rightarrow>
     (case hi_frame inp of
        None \<Rightarrow> ((st, vq), [])
      | Some u64pts \<Rightarrow>
          (case h264_frame cfg (hi_motion inp) (sint u64pts) st of
             (st', None) \<Rightarrow> ((st', vq), [ViGetFrame, ViReleaseFrame])
           | (st', Some pts) \<Rightarrow>
               (case hi_pack inp of
                  None \<Rightarrow> ((st', vq), [ViGetFrame, VencSendFrame (word_of_int pts), ViReleaseFrame])
                | Some p \<Rightarrow>
                    (case fq_push (hi_malloc inp) (Some vq) (vp_data p) (vp_len p) (is_key_pack p)
                            (sint (vp_pts p)) of
                       (rc, mq, freed, signalled) \<Rightarrow>
                         ((st', the mq),
                          [ViGetFrame, VencSendFrame (word_of_int pts), VencGetStream,
                           VencReleaseStream, ViReleaseFrame]))))))"

fun h264_loop ::
  "ms_ivs_cfg_t \<Rightarrow> h264_input list \<Rightarrow> h264_state \<times> frame_queue
     \<Rightarrow> (h264_state \<times> frame_queue) \<times> mpi_call list" where
  "h264_loop cfg [] s = (s, [])"
| "h264_loop cfg (inp # ins) s =
     (case h264_iter cfg inp s of (s', calls) \<Rightarrow>
        (case h264_loop cfg ins s' of (s'', calls') \<Rightarrow> (s'', calls @ calls')))"

text \<open>The thread runs its loop for as long as \<open>s_producers_run\<close> holds, one input per pass.\<close>

definition h264_thread ::
  "ms_ivs_cfg_t \<Rightarrow> bool \<Rightarrow> h264_input list \<Rightarrow> frame_queue \<Rightarrow> frame_queue \<times> mpi_call list" where
  "h264_thread cfg pack_ok ins vq =
     (if \<not> pack_ok then (vq, [])
      else (case h264_loop cfg ins (h264_init, vq) of ((st, vq'), calls) \<Rightarrow> (vq', calls)))"

section \<open>One frame\<close>

named_theorems capture_simps \<open>the configured rates\<close>

lemma eff_fps_pos [simp]: "0 < eff_fps_high cfg" "0 < eff_fps_low cfg" "0 < target_fps cfg m"
  by (simp_all add: eff_fps_high_def eff_fps_low_def target_fps_def)

lemma eff_fps_neq [simp]: "eff_fps_high cfg \<noteq> 0" "eff_fps_low cfg \<noteq> 0" "target_fps cfg m \<noteq> 0"
  using eff_fps_pos(1) [of cfg] eff_fps_pos(2) [of cfg] eff_fps_pos(3) [of cfg m] by linarith+

lemma keep_interval_bounds:
  "0 \<le> keep_interval cfg m" "keep_interval cfg m \<le> 1000000"
  "target_fps cfg m \<le> 1000000 \<Longrightarrow> 0 < keep_interval cfg m"
  using c_quot_ge_0 [of 1000000 "target_fps cfg m"] c_quot_le [of 1000000 "target_fps cfg m"]
  by (simp_all add: keep_interval_def)
    (simp add: c_quot_nonneg pos_imp_zdiv_pos_iff)

text \<open>The frame is dropped exactly by the rate limiter, between its deadlines.\<close>

definition gated :: "int \<Rightarrow> int \<Rightarrow> h264_state \<Rightarrow> bool" where
  "gated m hw st \<longleftrightarrow> 0 \<le> h_last_kept_hw st \<and> m = h_prev_motion_state st \<and> hw < h_next_keep_hw st"

lemma h264_frame_dropped [capture_simps]:
  "gated m hw st \<Longrightarrow> h264_frame cfg m hw st = (st, None)"
  by (simp add: gated_def h264_frame_def Let_def)

lemma h264_frame_kept:
  assumes "\<not> gated m hw st"
  obtains st' pts where "h264_frame cfg m hw st = (st', Some pts)"
    "h_pts st' = pts" "h_last_kept_hw st' = hw" "h_prev_motion_state st' = m"
  using assms that by (auto simp: gated_def h264_frame_def Let_def)

lemma h264_frame_steady:
  assumes "0 \<le> h_last_kept_hw st" and "m = h_prev_motion_state st" and "h_next_keep_hw st \<le> hw"
  shows "h264_frame cfg m hw st =
    (let pts = h_pts st + (if m = MOTION_DETECTED then hw - h_last_kept_hw st
              else c_quot ((hw - h_last_kept_hw st) * eff_fps_low cfg) (eff_fps_high cfg))
     in (\<lparr>h_pts = pts, h_last_kept_hw = hw,
          h_next_keep_hw = (if h_next_keep_hw st + keep_interval cfg m \<le> hw
            then hw + keep_interval cfg m else h_next_keep_hw st + keep_interval cfg m),
          h_prev_motion_state = m\<rparr>, Some pts))"
  using assms by (auto simp: h264_frame_def Let_def)

lemma h264_frame_restart:
  assumes "h_last_kept_hw st < 0 \<or> m \<noteq> h_prev_motion_state st"
  shows "h264_frame cfg m hw st =
    (let pts = h_pts st + c_quot 1000000 (eff_fps_high cfg)
     in (\<lparr>h_pts = pts, h_last_kept_hw = hw, h_next_keep_hw = hw + keep_interval cfg m,
          h_prev_motion_state = m\<rparr>, Some pts))"
  using assms by (auto simp: h264_frame_def Let_def)

lemma h264_frame_cases [case_names dropped steady restart]:
  obtains (dropped) "gated m hw st"
  | (steady) "0 \<le> h_last_kept_hw st" "m = h_prev_motion_state st" "h_next_keep_hw st \<le> hw"
  | (restart) "h_last_kept_hw st < 0 \<or> m \<noteq> h_prev_motion_state st"
  unfolding gated_def by linarith

text \<open>
  The limiter's deadline lies after the last kept frame, at most one interval away.
\<close>

definition deadline_ok :: "ms_ivs_cfg_t \<Rightarrow> h264_state \<Rightarrow> bool" where
  "deadline_ok cfg st \<longleftrightarrow> (0 \<le> h_last_kept_hw st \<longrightarrow>
     h_last_kept_hw st < h_next_keep_hw st \<and>
     h_next_keep_hw st \<le> h_last_kept_hw st + keep_interval cfg (h_prev_motion_state st))"

definition rates_ok :: "ms_ivs_cfg_t \<Rightarrow> bool" where
  "rates_ok cfg \<longleftrightarrow> ivs_fps_high cfg \<le> 1000000 \<and> ivs_fps_low cfg \<le> 1000000"

lemma rates_ok_target: "rates_ok cfg \<Longrightarrow> target_fps cfg m \<le> 1000000"
  by (simp add: rates_ok_def target_fps_def eff_fps_high_def eff_fps_low_def)

lemma rates_ok_interval: "rates_ok cfg \<Longrightarrow> 0 < keep_interval cfg m"
  by (simp add: keep_interval_bounds rates_ok_target)

lemma h264_frame_deadline:
  assumes "rates_ok cfg" and "deadline_ok cfg st"
  shows "deadline_ok cfg (fst (h264_frame cfg m hw st))"
  using rates_ok_interval [OF assms(1), of m] assms(2)
  by (cases rule: h264_frame_cases [of m hw st])
    (auto simp: h264_frame_dropped h264_frame_steady h264_frame_restart Let_def deadline_ok_def)

lemma h264_run_deadline:
  "rates_ok cfg \<Longrightarrow> deadline_ok cfg st \<Longrightarrow> deadline_ok cfg (fst (h264_run cfg st ins))"
proof (induction cfg st ins rule: h264_run.induct)
  case (2 cfg st m hw ins)
  then show ?case
    using h264_frame_deadline [of cfg st m hw]
    by (auto split: prod.splits option.splits)
qed simp

lemma deadline_init: "deadline_ok cfg h264_init"
  by (simp add: deadline_ok_def h264_init_def)

end
