(* ===== verification/CaptureProps.thy ===== *)
theory CaptureProps
  imports Capture
begin

text \<open>
  What the capture thread guarantees: the recorded frame rate, the synthesized timeline, and the
  pairing of its Rockchip calls.
\<close>

section \<open>Runs of steady motion state\<close>

definition steady_input :: "int \<Rightarrow> (int \<times> int) list \<Rightarrow> bool" where
  "steady_input m ins \<longleftrightarrow> (\<forall>(m', hw)\<in>set ins. m' = m \<and> 0 \<le> hw)"

lemma steady_input_Cons [simp]:
  "steady_input m ((m', hw) # ins) \<longleftrightarrow> m' = m \<and> 0 \<le> hw \<and> steady_input m ins"
  by (auto simp: steady_input_def)

lemma steady_input_Nil [simp]: "steady_input m []"
  by (simp add: steady_input_def)

text \<open>Induction over a steady run: a dropped frame changes nothing, a kept one is a steady step.\<close>

lemma steady_run_induct [consumes 4, case_names nil dropped kept]:
  assumes "h264_run cfg st ins = (st', kept)" and "steady_input m ins"
    and "0 \<le> h_last_kept_hw st" and "h_prev_motion_state st = m"
    and nil: "\<And>st. 0 \<le> h_last_kept_hw st \<Longrightarrow> h_prev_motion_state st = m \<Longrightarrow> P st [] st []"
    and dropped: "\<And>st hw ins st' kept. 0 \<le> h_last_kept_hw st \<Longrightarrow> h_prev_motion_state st = m \<Longrightarrow>
       hw < h_next_keep_hw st \<Longrightarrow> P st ins st' kept \<Longrightarrow> P st ((m, hw) # ins) st' kept"
    and kept: "\<And>st hw ins st1 pts st' kept. 0 \<le> h_last_kept_hw st \<Longrightarrow> h_prev_motion_state st = m \<Longrightarrow>
       0 \<le> hw \<Longrightarrow> h_next_keep_hw st \<le> hw \<Longrightarrow> h264_frame cfg m hw st = (st1, Some pts) \<Longrightarrow>
       P st1 ins st' kept \<Longrightarrow> P st ((m, hw) # ins) st' ((hw, pts) # kept)"
  shows "P st ins st' kept"
  using assms(1-4)
proof (induction ins arbitrary: st st' kept)
  case Nil
  then show ?case by (simp add: nil)
next
  case (Cons i ins)
  obtain hw where i: "i = (m, hw)" and hw: "0 \<le> hw" and ins: "steady_input m ins"
    using Cons.prems(2) by (cases i) simp
  show ?case
  proof (cases "hw < h_next_keep_hw st")
    case True
    then have "h264_frame cfg m hw st = (st, None)"
      using Cons.prems by (simp add: h264_frame_dropped gated_def)
    then have "h264_run cfg st ins = (st', kept)" using Cons.prems(1) i by simp
    from dropped [OF Cons.prems(3,4) True Cons.IH [OF this ins Cons.prems(3,4)]] show ?thesis
      by (simp add: i)
  next
    case False
    define st1 where "st1 = fst (h264_frame cfg m hw st)"
    have frame: "h264_frame cfg m hw st = (st1, Some (h_pts st1))"
      and st1: "0 \<le> h_last_kept_hw st1" "h_prev_motion_state st1 = m"
      using False Cons.prems hw by (simp_all add: st1_def h264_frame_steady Let_def)
    obtain kept' where run: "h264_run cfg st1 ins = (st', kept')" "kept = (hw, h_pts st1) # kept'"
      using Cons.prems(1) by (auto simp: i frame split: prod.splits)
    from kept [OF Cons.prems(3,4) hw _ frame Cons.IH [OF run(1) ins st1]] False
    show ?thesis by (simp add: i run(2))
  qed
qed

lemma steady_rate:
  assumes "h264_run cfg st ins = (st', kept)" and "steady_input m ins"
    and "0 \<le> h_last_kept_hw st" and "h_prev_motion_state st = m"
  shows "\<forall>k < length kept. h_next_keep_hw st + int k * keep_interval cfg m \<le> fst (kept ! k)"
  using assms
proof (induction rule: steady_run_induct)
  case (kept st hw ins st1 pts st' kept)
  have next1: "h_next_keep_hw st + keep_interval cfg m \<le> h_next_keep_hw st1"
    using kept(1-5) by (auto simp: h264_frame_steady Let_def)
  show ?case
  proof (intro allI impI)
    fix k assume "k < length ((hw, pts) # kept)"
    then show "h_next_keep_hw st + int k * keep_interval cfg m \<le> fst (((hw, pts) # kept) ! k)"
      using kept(4,6) next1
      by (cases k) (auto simp: algebra_simps dest: spec [where x = "k - 1"])
  qed
qed simp_all

text \<open>In motion the timeline is real time.\<close>

lemma steady_motion_pts:
  assumes "h264_run cfg st ins = (st', kept)" and "steady_input m ins"
    and "0 \<le> h_last_kept_hw st" and "h_prev_motion_state st = m" and "m = MOTION_DETECTED"
  shows "\<forall>(hw, pts)\<in>set kept. pts - h_pts st = hw - h_last_kept_hw st"
  using assms(1-4)
proof (induction rule: steady_run_induct)
  case (kept st hw ins st1 pts st' kept)
  have "h_pts st1 = pts" "h_last_kept_hw st1 = hw" "pts - h_pts st = hw - h_last_kept_hw st"
    using kept(1-5) assms(5) by (auto simp: h264_frame_steady Let_def)
  with kept(6) show ?case by (auto split: prod.splits)
qed simp_all

text \<open>
  Idle, the timeline runs \<open>fps_high / fps_low\<close> times faster, up to less than a microsecond of
  rounding per kept frame.
\<close>

lemma steady_idle_pts:
  assumes "h264_run cfg st ins = (st', kept)" and "steady_input m ins"
    and "0 \<le> h_last_kept_hw st" and "h_prev_motion_state st = m"
    and "m \<noteq> MOTION_DETECTED" and "rates_ok cfg" and "deadline_ok cfg st"
  shows "\<forall>k < length kept. case kept ! k of (hw, pts) \<Rightarrow>
      eff_fps_high cfg * (pts - h_pts st) \<le> eff_fps_low cfg * (hw - h_last_kept_hw st) \<and>
      eff_fps_low cfg * (hw - h_last_kept_hw st)
        < eff_fps_high cfg * (pts - h_pts st) + int (Suc k) * eff_fps_high cfg"
  using assms(1-4,7)
proof (induction rule: steady_run_induct)
  case (kept st hw ins st1 pts st' kept)
  let ?L = "eff_fps_low cfg" and ?H = "eff_fps_high cfg"
  let ?d = "hw - h_last_kept_hw st"
  have d: "0 \<le> ?d" using kept(1,4,7) by (simp add: deadline_ok_def)
  have st1: "h_pts st1 = pts" "h_last_kept_hw st1 = hw" "pts - h_pts st = c_quot (?d * ?L) ?H"
    using kept(1-5) assms(5) by (auto simp: h264_frame_steady Let_def)
  have "0 \<le> ?d * ?L" using d by (intro mult_nonneg_nonneg) (simp_all add: less_imp_le)
  then have q: "?H * (pts - h_pts st) \<le> ?L * ?d" "?L * ?d < ?H * (pts - h_pts st) + ?H"
    using st1(3) c_quot_bounds [of "?d * ?L" ?H] by (simp_all add: mult.commute)
  have "deadline_ok cfg st1"
    using h264_frame_deadline [OF assms(6) kept(7), of m hw] kept(5) by simp
  note IH = kept(6) [OF this]
  show ?case
  proof (intro allI impI)
    fix k assume k: "k < length ((hw, pts) # kept)"
    show "case ((hw, pts) # kept) ! k of (hw', pts') \<Rightarrow>
        ?H * (pts' - h_pts st) \<le> ?L * (hw' - h_last_kept_hw st) \<and>
        ?L * (hw' - h_last_kept_hw st) < ?H * (pts' - h_pts st) + int (Suc k) * ?H"
    proof (cases k)
      case 0
      with q show ?thesis by simp
    next
      case (Suc j)
      obtain hw' pts' where at: "kept ! j = (hw', pts')" by fastforce
      have "?H * (pts' - pts) \<le> ?L * (hw' - hw) \<and>
          ?L * (hw' - hw) < ?H * (pts' - pts) + int (Suc j) * ?H"
        using IH k Suc at st1 by auto
      with q Suc at show ?thesis by (simp add: algebra_simps)
    qed
  qed
qed simp_all

section \<open>The whole timeline\<close>

lemma h264_frame_pts_mono:
  assumes "rates_ok cfg" and "deadline_ok cfg st"
  shows "case h264_frame cfg m hw st of (st', r) \<Rightarrow> h_pts st \<le> h_pts st' \<and>
    (\<forall>pts. r = Some pts \<longrightarrow> pts = h_pts st')"
proof (cases rule: h264_frame_cases [of m hw st])
  case dropped
  then show ?thesis by (simp add: h264_frame_dropped)
next
  case steady
  then have "0 \<le> hw - h_last_kept_hw st" using assms(2) by (simp add: deadline_ok_def)
  then have "0 \<le> (hw - h_last_kept_hw st) * eff_fps_low cfg"
    by (intro mult_nonneg_nonneg) (simp_all add: less_imp_le)
  with steady show ?thesis
    using \<open>0 \<le> hw - h_last_kept_hw st\<close> by (simp add: h264_frame_steady Let_def c_quot_ge_0)
next
  case restart
  then show ?thesis by (simp add: h264_frame_restart Let_def c_quot_ge_0)
qed

lemma h264_run_pts:
  assumes "rates_ok cfg" and "deadline_ok cfg st"
  shows "sorted (map snd (snd (h264_run cfg st ins))) \<and>
    (\<forall>p\<in>set (map snd (snd (h264_run cfg st ins))). h_pts st \<le> p)"
  using assms
proof (induction cfg st ins rule: h264_run.induct)
  case (2 cfg st m hw ins)
  obtain st1 r where frame: "h264_frame cfg m hw st = (st1, r)" by fastforce
  have "deadline_ok cfg st1" using h264_frame_deadline [OF "2.prems", of m hw] frame by simp
  moreover have "h_pts st \<le> h_pts st1" "\<And>pts. r = Some pts \<Longrightarrow> pts = h_pts st1"
    using h264_frame_pts_mono [OF "2.prems", of m hw] frame by auto
  ultimately show ?case
    using "2.IH"(1) [OF frame [symmetric]] "2.IH"(2) [OF frame [symmetric]] frame "2.prems"(1)
    by (cases r) (fastforce split: prod.splits)+
qed simp

section \<open>Reachable states\<close>

text \<open>The observable history: the last kept frame and the last motion state are in the state.\<close>

definition hist_ok :: "h264_state \<Rightarrow> (int \<times> int) list \<Rightarrow> (int \<times> int) list \<Rightarrow> bool" where
  "hist_ok st ins kept \<longleftrightarrow>
     h_last_kept_hw st = (if kept = [] then -1 else fst (last kept)) \<and>
     h_prev_motion_state st = (if ins = [] then -1 else fst (last ins)) \<and>
     (ins = [] \<longleftrightarrow> kept = []) \<and> (kept \<noteq> [] \<longrightarrow> h_pts st = snd (last kept))"

lemma h264_run_append:
  "h264_run cfg st (xs @ ys) =
     (case h264_run cfg st xs of (st', k1) \<Rightarrow>
       (case h264_run cfg st' ys of (st'', k2) \<Rightarrow> (st'', k1 @ k2)))"
  by (induction cfg st xs rule: h264_run.induct) (auto split: prod.splits option.splits)

lemma h264_frame_hist:
  assumes "hist_ok st ins kept" and "0 \<le> hw"
  shows "case h264_frame cfg m hw st of (st', r) \<Rightarrow>
    hist_ok st' (ins @ [(m, hw)]) (kept @ (case r of None \<Rightarrow> [] | Some pts \<Rightarrow> [(hw, pts)]))"
  using assms
  by (cases rule: h264_frame_cases [of m hw st])
    (auto simp: h264_frame_dropped h264_frame_steady h264_frame_restart gated_def Let_def hist_ok_def
      split: if_splits)

lemma h264_run_hist:
  assumes "h264_run cfg h264_init ins = (st, kept)" and "\<forall>(m, hw)\<in>set ins. 0 \<le> hw"
  shows "hist_ok st ins kept"
  using assms
proof (induction ins arbitrary: st kept rule: rev_induct)
  case Nil
  then show ?case by (auto simp: hist_ok_def h264_init_def)
next
  case (snoc i ins)
  obtain m hw where i: "i = (m, hw)" by (cases i)
  obtain st1 kept1 where run: "h264_run cfg h264_init ins = (st1, kept1)" by fastforce
  have "hist_ok st1 ins kept1" by (rule snoc.IH [OF run]) (use snoc.prems(2) in auto)
  moreover have "0 \<le> hw" using snoc.prems(2) i by simp
  ultimately show ?case
    using h264_frame_hist [where st = st1 and ins = ins and kept = kept1 and hw = hw and cfg = cfg and m = m] snoc.prems(1) run i
    by (auto simp: h264_run_append split: prod.splits option.splits)
qed

lemma h264_run_sources:
  "h264_run cfg st ins = (st', kept) \<Longrightarrow> set (map fst kept) \<subseteq> set (map snd ins)"
  by (induction cfg st ins arbitrary: kept rule: h264_run.induct)
    (fastforce split: prod.splits option.splits)+

lemma h264_reach_deadline:
  "rates_ok cfg \<Longrightarrow> h264_run cfg h264_init ins = (st, kept) \<Longrightarrow> deadline_ok cfg st"
  using h264_run_deadline [OF _ deadline_init, of cfg ins] by simp

section \<open>Rate\<close>

lemma steady_spacing:
  assumes "h264_run cfg st ins = (st', kept)" and "steady_input m ins"
    and "0 \<le> h_last_kept_hw st" and "h_prev_motion_state st = m"
    and "rates_ok cfg" and "deadline_ok cfg st"
  shows "(\<forall>k < length kept. h_next_keep_hw st + int k * keep_interval cfg m \<le> fst (kept ! k)) \<and>
    (\<forall>i k. i + Suc k < length kept \<longrightarrow>
       int k * keep_interval cfg m < fst (kept ! (i + Suc k)) - fst (kept ! i))"
  using assms(1-4,6)
proof (induction rule: steady_run_induct)
  case (kept st hw ins st1 pts st' kept)
  let ?I = "keep_interval cfg m"
  have d1: "deadline_ok cfg st1" using h264_frame_deadline [OF assms(5) kept(7), of m hw] kept(5) by simp
  have next1: "h_next_keep_hw st + ?I \<le> h_next_keep_hw st1" "hw < h_next_keep_hw st1"
    using kept(1-5) d1 by (auto simp: h264_frame_steady Let_def deadline_ok_def)
  note IH = kept(6) [OF d1]
  have A: "h_next_keep_hw st + int k * ?I \<le> fst (((hw, pts) # kept) ! k)"
    if "k < length ((hw, pts) # kept)" for k
    using that kept(4) IH next1
    by (cases k) (auto simp: algebra_simps dest: spec [where x = "k - 1"])
  have B: "int k * ?I < fst (((hw, pts) # kept) ! (i + Suc k)) - fst (((hw, pts) # kept) ! i)"
    if "i + Suc k < length ((hw, pts) # kept)" for i k
  proof (cases i)
    case 0
    have "h_next_keep_hw st1 + int k * ?I \<le> fst (kept ! k)" using IH that 0 by simp
    with next1(2) 0 show ?thesis by simp
  next
    case (Suc j)
    with IH that show ?thesis by simp
  qed
  from A B show ?case by blast
qed simp_all

lemma spacing_Cons:
  assumes "h264_run cfg st ins = (st', kept)" and "steady_input m ins"
    and "0 \<le> h_last_kept_hw st" and "h_prev_motion_state st = m"
    and "rates_ok cfg" and "deadline_ok cfg st" and "i + Suc k < length ((hw, pts) # kept)"
    and "hw = h_last_kept_hw st"
  shows "int k * keep_interval cfg m
    < fst (((hw, pts) # kept) ! (i + Suc k)) - fst (((hw, pts) # kept) ! i)"
proof (cases i)
  case 0
  have "h_next_keep_hw st + int k * keep_interval cfg m \<le> fst (kept ! k)"
    using steady_spacing [OF assms(1-6)] assms(7) 0 by simp
  moreover have "hw < h_next_keep_hw st" using assms(3,6,8) by (simp add: deadline_ok_def)
  ultimately show ?thesis using 0 by simp
next
  case (Suc j)
  with steady_spacing [OF assms(1-6)] assms(7) show ?thesis by simp
qed


definition demo_ivs :: ms_ivs_cfg_t where
  "demo_ivs = \<lparr>ivs_width = 640, ivs_height = 360, ivs_fps = 10, ivs_md_interval = 100,
     ivs_md_sensibility = 3, ivs_md_night_mode = False, ivs_thresh_sad = 40, ivs_thresh_move = 2,
     ivs_area_ratio = 0, ivs_poll_ms = 100, ivs_fps_low = 1, ivs_fps_high = 10,
     ivs_motion_debounce_ms = 0\<rparr>"

lemma demo_rates [simp]: "rates_ok demo_ivs"
  by (simp add: rates_ok_def demo_ivs_def)

lemma demo_run_switch:
  "h264_run demo_ivs h264_init [(0, 5)]
     = (\<lparr>h_pts = 100000, h_last_kept_hw = 5, h_next_keep_hw = 1000005, h_prev_motion_state = 0\<rparr>, [(5, 100000)])"
  "h264_run demo_ivs \<lparr>h_pts = 100000, h_last_kept_hw = 5, h_next_keep_hw = 1000005, h_prev_motion_state = 0\<rparr>
       [(1, 33000), (1, 66000), (1, 140000), (1, 150000), (1, 240000)]
     = (\<lparr>h_pts = 407000, h_last_kept_hw = 240000, h_next_keep_hw = 333000, h_prev_motion_state = 1\<rparr>,
        [(33000, 200000), (140000, 307000), (240000, 407000)])"
  by code_simp+


text \<open>
C22: The rate limiter never starves the recording: a frame is dropped only when the motion state
has not changed since the previous frame and less than one interval of the target rate has passed
since the last frame that was kept.\<close>

theorem capture_never_starves:
  assumes "rates_ok cfg" and "\<forall>(m', hw)\<in>set pre. 0 \<le> hw"
    and "h264_run cfg h264_init pre = (st, kept)"
    and "h264_frame cfg m hw st = (st', None)"
  shows "kept \<noteq> [] \<and> m = fst (last pre) \<and> hw < fst (last kept) + keep_interval cfg m \<and> st' = st"
proof -
  have "gated m hw st"
    using assms(4)
    by (cases rule: h264_frame_cases [of m hw st])
      (auto simp: h264_frame_steady h264_frame_restart Let_def)
  moreover from this have "st' = st" using assms(4) by (simp add: h264_frame_dropped)
  ultimately show ?thesis
    using h264_run_hist [OF assms(3,2)] h264_reach_deadline [OF assms(1,3)]
    by (auto simp: gated_def hist_ok_def deadline_ok_def split: if_splits)
qed

lemma demo_run_short:
  "h264_run demo_ivs h264_init [(0, 5), (1, 33000)]
     = (\<lparr>h_pts = 200000, h_last_kept_hw = 33000, h_next_keep_hw = 133000, h_prev_motion_state = 1\<rparr>,
        [(5, 100000), (33000, 200000)])"
  "h264_frame demo_ivs 1 66000 \<lparr>h_pts = 200000, h_last_kept_hw = 33000, h_next_keep_hw = 133000, h_prev_motion_state = 1\<rparr>
     = (\<lparr>h_pts = 200000, h_last_kept_hw = 33000, h_next_keep_hw = 133000, h_prev_motion_state = 1\<rparr>, None)"
  by code_simp+

lemma capture_never_starves_witness:
  "66000 < fst (last [(5, 100000), (33000, 200000 :: int)]) + keep_interval demo_ivs 1"
  using capture_never_starves [OF demo_rates _ demo_run_short] by simp

section \<open>Time stamps\<close>

text \<open>
C26: While the motion state stays the same, the synthesized timeline is real time in motion (the
time stamps advance exactly as the sensor's), and when idle it is the sensor's time compressed by
\<open>fps_high / fps_low\<close>, behind it by less than one microsecond per kept frame.\<close>

theorem capture_timeline:
  assumes "rates_ok cfg" and "\<forall>(m', hw)\<in>set pre. 0 \<le> hw"
    and "h264_run cfg h264_init pre = (st, kept0)" and "pre \<noteq> []" and "fst (last pre) = m"
    and "last kept0 = (hw0, pts0)"
    and "steady_input m ins" and "h264_run cfg st ins = (st', kept)"
    and "k < length kept" and "kept ! k = (hw, pts)"
  shows "if m = MOTION_DETECTED then pts - pts0 = hw - hw0
    else eff_fps_high cfg * (pts - pts0) \<le> eff_fps_low cfg * (hw - hw0) \<and>
         eff_fps_low cfg * (hw - hw0) < eff_fps_high cfg * (pts - pts0) + int (Suc k) * eff_fps_high cfg"
proof -
  have hist: "hist_ok st pre kept0" by (rule h264_run_hist [OF assms(3,2)])
  then have st: "h_last_kept_hw st = hw0" "h_pts st = pts0" "h_prev_motion_state st = m" "kept0 \<noteq> []"
    using assms(4-6) by (auto simp: hist_ok_def)
  have "hw0 \<in> snd ` set pre"
    using st(4) assms(6) h264_run_sources [OF assms(3)] last_in_set [of kept0] by force
  then have "0 \<le> h_last_kept_hw st" using assms(2) st(1) by auto
  note steady = assms(8,7) this st(3)
  show ?thesis
  proof (cases "m = MOTION_DETECTED")
    case True
    then show ?thesis
      using steady_motion_pts [OF steady] assms(9,10) st nth_mem [OF assms(9)] by fastforce
  next
    case False
    then show ?thesis
      using steady_idle_pts [OF steady False assms(1) h264_reach_deadline [OF assms(1,3)]] assms(9,10) st
      by auto
  qed
qed

lemma demo_run_idle:
  "h264_run demo_ivs h264_init [(0, 5)]
     = (\<lparr>h_pts = 100000, h_last_kept_hw = 5, h_next_keep_hw = 1000005, h_prev_motion_state = 0\<rparr>, [(5, 100000)])"
  "h264_run demo_ivs \<lparr>h_pts = 100000, h_last_kept_hw = 5, h_next_keep_hw = 1000005, h_prev_motion_state = 0\<rparr>
       [(0, 33000), (0, 1100009), (0, 1966000), (0, 2100019)]
     = (\<lparr>h_pts = 310001, h_last_kept_hw = 2100019, h_next_keep_hw = 3000005, h_prev_motion_state = 0\<rparr>,
        [(1100009, 210000), (2100019, 310001)])"
  by code_simp+

lemma capture_timeline_witness:
  "10 * (310001 - 100000) \<le> (2100019 - 5 :: int) \<and>
   (2100019 - 5 :: int) < 10 * (310001 - 100000) + 2 * 10"
  using capture_timeline [OF demo_rates _ demo_run_idle(1) _ _ _ _ demo_run_idle(2), of 0 5 100000 1]
  by (simp add: eff_fps_high_def eff_fps_low_def demo_ivs_def MOTION_DETECTED_def)

text \<open>
In any run of the capture thread, through any changes of the motion state, the time stamps it
gives the encoder are never negative and never decrease.\<close>

theorem capture_pts_monotone:
  assumes "rates_ok cfg"
  shows "sorted (map snd (snd (h264_run cfg h264_init ins))) \<and>
    (\<forall>p\<in>set (map snd (snd (h264_run cfg h264_init ins))). 0 \<le> p)"
  using h264_run_pts [OF assms deadline_init, of ins] by (simp add: h264_init_def)

lemma capture_pts_monotone_witness:
  "sorted (map snd (snd (h264_run demo_ivs h264_init [(0, 5), (1, 33000)])))"
  using capture_pts_monotone [OF demo_rates, of "[(0, 5), (1, 33000)]"] by blast

section \<open>64-bit arithmetic\<close>

text \<open>
  On sensor times below 2^42 microseconds (50 days of uptime) that do not go back, the timeline is
  at most the sensor's time plus one second per frame.
\<close>

definition pts_bound :: "nat \<Rightarrow> h264_state \<Rightarrow> bool" where
  "pts_bound n st \<longleftrightarrow> 0 \<le> h_pts st \<and> -1 \<le> h_last_kept_hw st \<and>
     h_pts st \<le> int n * 1000000 + h_last_kept_hw st + 1 \<and>
     (0 \<le> h_last_kept_hw st \<longrightarrow> h_next_keep_hw st \<le> h_last_kept_hw st + 1000000) \<and>
     0 \<le> h_next_keep_hw st \<and> (h_last_kept_hw st < 0 \<longrightarrow> h_next_keep_hw st = 0)"

lemma idle_step_le:
  assumes "0 \<le> d" and "eff_fps_low cfg \<le> eff_fps_high cfg"
  shows "c_quot (d * eff_fps_low cfg) (eff_fps_high cfg) \<le> d"
proof -
  have nn: "0 \<le> d * eff_fps_low cfg"
    using assms(1) by (intro mult_nonneg_nonneg) (simp_all add: less_imp_le)
  have "d * eff_fps_low cfg \<le> eff_fps_high cfg * d"
    using mult_left_mono [OF assms(2,1)] by (simp add: mult.commute)
  with c_quot_mult_le [OF nn eff_fps_pos(1) [of cfg]]
  have "eff_fps_high cfg * c_quot (d * eff_fps_low cfg) (eff_fps_high cfg) \<le> eff_fps_high cfg * d"
    by linarith
  then show ?thesis by simp
qed

lemma h264_frame_bound:
  assumes "rates_ok cfg" and "eff_fps_low cfg \<le> eff_fps_high cfg"
    and "deadline_ok cfg st" and "pts_bound n st" and "0 \<le> hw" and "h_last_kept_hw st \<le> hw"
  shows "pts_bound (Suc n) (fst (h264_frame cfg m hw st))"
proof (cases rule: h264_frame_cases [of m hw st])
  case dropped
  then show ?thesis using assms(4) by (auto simp: h264_frame_dropped pts_bound_def)
next
  case steady
  let ?d = "hw - h_last_kept_hw st"
  let ?q = "c_quot (?d * eff_fps_low cfg) (eff_fps_high cfg)"
  have d: "0 \<le> ?d" using assms(6) by simp
  have "0 \<le> ?d * eff_fps_low cfg"
    using d by (intro mult_nonneg_nonneg) (simp_all add: less_imp_le)
  then have "0 \<le> ?q" "?q \<le> ?d"
    by (simp_all add: c_quot_ge_0 idle_step_le [OF d assms(2)])
  with steady d assms(4,5) keep_interval_bounds(1,2) [of cfg m] show ?thesis
    by (auto simp: h264_frame_steady Let_def pts_bound_def)
next
  case restart
  with assms(4,5,6) keep_interval_bounds(1,2) [of cfg m]
    c_quot_le [of 1000000 "eff_fps_high cfg"] c_quot_ge_0 [of 1000000 "eff_fps_high cfg"]
  show ?thesis by (auto simp: h264_frame_restart Let_def pts_bound_def)
qed

lemma h264_run_bound:
  assumes "rates_ok cfg" and "eff_fps_low cfg \<le> eff_fps_high cfg"
    and "h264_run cfg h264_init ins = (st, kept)"
    and "\<forall>hw\<in>set (map snd ins). 0 \<le> hw" and "sorted (map snd ins)"
  shows "pts_bound (length ins) st"
  using assms(3-5)
proof (induction ins arbitrary: st kept rule: rev_induct)
  case Nil
  then show ?case by (auto simp: pts_bound_def h264_init_def)
next
  case (snoc i ins)
  obtain m hw where i: "i = (m, hw)" by (cases i)
  obtain st1 kept1 where run: "h264_run cfg h264_init ins = (st1, kept1)" by fastforce
  have "pts_bound (length ins) st1"
    by (rule snoc.IH [OF run]) (use snoc.prems(2,3) in \<open>auto simp: sorted_append\<close>)
  moreover have "deadline_ok cfg st1" by (rule h264_reach_deadline [OF assms(1) run])
  moreover have "0 \<le> hw" using snoc.prems(2) i by simp
  moreover have "h_last_kept_hw st1 \<le> hw"
  proof -
    have "hist_ok st1 ins kept1"
      by (rule h264_run_hist [OF run]) (use snoc.prems(2) in auto)
    moreover have "fst (last kept1) \<in> set (map snd ins)" if "kept1 \<noteq> []"
      using h264_run_sources [OF run] that last_in_set [OF that] by auto
    ultimately show ?thesis
      using snoc.prems(2,3) i by (fastforce simp: hist_ok_def sorted_append)
  qed
  moreover have "st = fst (h264_frame cfg m hw st1)"
    using snoc.prems(1) run i by (auto simp: h264_run_append split: prod.splits option.splits)
  ultimately show ?case using h264_frame_bound [OF assms(1,2)] by simp
qed

text \<open>
C29: The capture thread's 64-bit arithmetic does not overflow: with \<open>fps_low \<le> fps_high\<close>, for up to
a trillion frames whose sensor times do not go back and stay below 2^42 microseconds, the timeline,
the deadline, and the product of the next time-lapse step all fit in \<open>int64_t\<close>.\<close>

theorem capture_no_overflow:
  assumes "rates_ok cfg" and "eff_fps_low cfg \<le> eff_fps_high cfg"
    and "h264_run cfg h264_init ins = (st, kept)"
    and "sorted (map snd ins)" and "\<forall>hw\<in>set (map snd ins). 0 \<le> hw \<and> hw < 2 ^ 42"
    and "length ins \<le> 2 ^ 40"
    and "0 \<le> hw" and "hw < 2 ^ 42" and "h_last_kept_hw st \<le> hw"
  shows "in_i64 (h_pts st) \<and> in_i64 (h_next_keep_hw st + keep_interval cfg m) \<and>
    in_i64 ((hw - h_last_kept_hw st) * eff_fps_low cfg)"
proof -
  have bound: "pts_bound (length ins) st"
    by (rule h264_run_bound [OF assms(1,2,3) _ assms(4)]) (use assms(5) in auto)
  have last: "h_last_kept_hw st < 2 ^ 42"
    using assms(8,9) by simp
  have "int (length ins) \<le> 2 ^ 40" using of_nat_mono [OF assms(6), where 'a = int] by simp
  then have "h_pts st < 2 ^ 63" "h_next_keep_hw st + keep_interval cfg m < 2 ^ 63"
      "0 \<le> h_next_keep_hw st + keep_interval cfg m"
    using bound last keep_interval_bounds(1,2) [of cfg m]
    by (auto simp: pts_bound_def)
  moreover have "(hw - h_last_kept_hw st) * eff_fps_low cfg \<le> (2 ^ 42 + 1) * 1000000"
  proof (rule mult_mono)
    show "eff_fps_low cfg \<le> 1000000" using assms(1) by (simp add: rates_ok_def eff_fps_low_def)
  qed (use bound assms(8) in \<open>simp_all add: pts_bound_def less_imp_le\<close>)
  moreover have "0 \<le> (hw - h_last_kept_hw st) * eff_fps_low cfg"
    using assms(9) by (intro mult_nonneg_nonneg) (simp_all add: less_imp_le)
  ultimately show ?thesis using bound by (simp add: in_i64_def pts_bound_def)
qed

lemma capture_no_overflow_witness:
  "in_i64 ((66000 - 33000) * eff_fps_low demo_ivs)"
  using capture_no_overflow [OF demo_rates _ demo_run_short(1), of 66000]
  by (simp add: eff_fps_high_def eff_fps_low_def demo_ivs_def)

section \<open>The loop's calls\<close>

text \<open>
  A sensor frame is released on every path, an encoder packet is released when there is one, and
  nothing is taken twice: the calls of the loop drive this automaton from \<open>Idle\<close> back to \<open>Idle\<close>.
\<close>

datatype mpi_mode = MpiIdle | MpiFrame | MpiSent | MpiPacket | MpiDone

fun mpi_next :: "mpi_mode \<Rightarrow> mpi_call \<Rightarrow> mpi_mode option" where
  "mpi_next MpiIdle ViGetFrame = Some MpiFrame"
| "mpi_next MpiFrame ViReleaseFrame = Some MpiIdle"
| "mpi_next MpiFrame (VencSendFrame p) = Some MpiSent"
| "mpi_next MpiSent ViReleaseFrame = Some MpiIdle"
| "mpi_next MpiSent VencGetStream = Some MpiPacket"
| "mpi_next MpiPacket VencReleaseStream = Some MpiDone"
| "mpi_next MpiDone ViReleaseFrame = Some MpiIdle"
| "mpi_next mode call = None"

fun mpi_run :: "mpi_mode \<Rightarrow> mpi_call list \<Rightarrow> mpi_mode option" where
  "mpi_run mode [] = Some mode"
| "mpi_run mode (c # cs) = (case mpi_next mode c of None \<Rightarrow> None | Some mode' \<Rightarrow> mpi_run mode' cs)"

lemma mpi_run_append:
  "mpi_run mode (xs @ ys) = (case mpi_run mode xs of None \<Rightarrow> None | Some mode' \<Rightarrow> mpi_run mode' ys)"
  by (induction mode xs rule: mpi_run.induct) (auto split: option.splits)

definition sent_pts :: "mpi_call list \<Rightarrow> u64 list" where
  "sent_pts calls = concat (map (\<lambda>c. case c of VencSendFrame p \<Rightarrow> [p] | _ \<Rightarrow> []) calls)"

lemma sent_pts_simps [simp]:
  "sent_pts [] = []" "sent_pts (xs @ ys) = sent_pts xs @ sent_pts ys"
  "sent_pts (ViGetFrame # cs) = sent_pts cs" "sent_pts (VencSendFrame p # cs) = p # sent_pts cs"
  "sent_pts (VencGetStream # cs) = sent_pts cs" "sent_pts (VencReleaseStream # cs) = sent_pts cs"
  "sent_pts (ViReleaseFrame # cs) = sent_pts cs"
  by (simp_all add: sent_pts_def)

text \<open>The frames the sensor delivered, and packets that own as many bytes as they announce.\<close>

definition seen_frames :: "h264_input list \<Rightarrow> (int \<times> int) list" where
  "seen_frames ins = concat (map (\<lambda>i. case hi_frame i of None \<Rightarrow> [] | Some p \<Rightarrow> [(hi_motion i, sint p)]) ins)"

lemma seen_frames_simps [simp]:
  "seen_frames [] = []"
  "hi_frame i = None \<Longrightarrow> seen_frames (i # ins) = seen_frames ins"
  "hi_frame i = Some p \<Longrightarrow> seen_frames (i # ins) = (hi_motion i, sint p) # seen_frames ins"
  by (simp_all add: seen_frames_def)

definition pack_ok :: "h264_input \<Rightarrow> bool" where
  "pack_ok i \<longleftrightarrow> (case hi_pack i of None \<Rightarrow> True
     | Some p \<Rightarrow> (case vp_data p of None \<Rightarrow> True | Some d \<Rightarrow> vp_len p \<le> length d))"

lemma fq_push_inv:
  assumes "fq_inv q" and "case data of None \<Rightarrow> True | Some d \<Rightarrow> len \<le> length d"
    and "fq_push ok (Some q) data len k p = (rc, mq, freed, sig)"
  obtains q' where "mq = Some q'" "fq_inv q'"
proof (cases "data \<noteq> None \<and> len \<noteq> 0 \<and> ok")
  case True
  then obtain d where d: "data = Some d" "len = length (take len d)"
    using assms(2) by (cases data) auto
  then have "take len d \<noteq> []" using True by (metis list.size(3))
  from fq_push_locked_spec [OF assms(1) this, of k p] obtain q' freed' sig' where
    "fq_push_locked q (take len d) len k p = (q', freed', sig')" "fq_inv q'"
    using d(2) by auto
  with True d(1) assms(3) that show thesis by (auto simp: fq_push_def)
next
  case False
  with assms that show thesis by (auto simp: fq_push_def split: option.splits if_splits)
qed

lemma h264_iter_spec:
  assumes "fq_inv vq" and "pack_ok i" and "h264_iter cfg i (st, vq) = ((st', vq'), calls)"
  shows "fq_inv vq' \<and> mpi_run MpiIdle calls = Some MpiIdle \<and>
    (case hi_frame i of None \<Rightarrow> st' = st \<and> sent_pts calls = []
     | Some p \<Rightarrow> (case h264_frame cfg (hi_motion i) (sint p) st of (st1, r) \<Rightarrow>
         st' = st1 \<and> sent_pts calls = (case r of None \<Rightarrow> [] | Some pts \<Rightarrow> [word_of_int pts])))"
proof (cases "hi_frame i")
  case None
  then show ?thesis using assms by (auto simp: h264_iter_def)
next
  case (Some p)
  obtain st1 r where frame: "h264_frame cfg (hi_motion i) (sint p) st = (st1, r)" by fastforce
  show ?thesis
  proof (cases r)
    case None
    then show ?thesis using assms Some frame by (auto simp: h264_iter_def)
  next
    case (Some pts)
    note r = this
    show ?thesis
    proof (cases "hi_pack i")
      case None
      then show ?thesis using assms \<open>hi_frame i = Some p\<close> frame r by (auto simp: h264_iter_def)
    next
      case (Some pk)
      obtain rc mq freed sig where push: "fq_push (hi_malloc i) (Some vq) (vp_data pk) (vp_len pk)
          (is_key_pack pk) (sint (vp_pts pk)) = (rc, mq, freed, sig)" by (metis prod_cases4)
      have "case vp_data pk of None \<Rightarrow> True | Some d \<Rightarrow> vp_len pk \<le> length d"
        using assms(2) Some by (simp add: pack_ok_def)
      from fq_push_inv [OF assms(1) this push] obtain q' where "mq = Some q'" "fq_inv q'" .
      then show ?thesis
        using assms(3) Some \<open>hi_frame i = Some p\<close> frame r push by (auto simp: h264_iter_def)
    qed
  qed
qed

lemma h264_loop_spec:
  assumes "fq_inv vq" and "\<forall>i\<in>set ins. pack_ok i"
    and "h264_loop cfg ins (st, vq) = ((st', vq'), calls)"
  shows "fq_inv vq' \<and> mpi_run MpiIdle calls = Some MpiIdle \<and>
    st' = fst (h264_run cfg st (seen_frames ins)) \<and>
    sent_pts calls = map word_of_int (map snd (snd (h264_run cfg st (seen_frames ins))))"
  using assms
proof (induction ins arbitrary: st vq calls)
  case (Cons i ins)
  obtain st1 vq1 c1 where it: "h264_iter cfg i (st, vq) = ((st1, vq1), c1)" by (metis surj_pair)
  obtain c2 where rest: "h264_loop cfg ins (st1, vq1) = ((st', vq'), c2)" "calls = c1 @ c2"
    using Cons.prems(3) it by (auto split: prod.splits)
  note one = h264_iter_spec [OF Cons.prems(1) _ it]
  have "fq_inv vq1" using one Cons.prems(2) by simp
  from Cons.IH [OF this _ rest(1)] Cons.prems(2) one show ?case
    by (cases "hi_frame i") (auto simp: rest(2) mpi_run_append split: prod.splits option.splits)
qed simp

text \<open>
C14: The capture thread's loop sends the encoder exactly the frames the rate limiter keeps, with the
synthesized time stamps, in order; on every path it releases the sensor frame and the encoder packet
it took, exactly once; and it leaves the frame queue well-formed.\<close>

theorem h264_thread_calls:
  assumes "fq_inv vq" and "\<forall>i\<in>set ins. pack_ok i"
    and "h264_thread cfg True ins vq = (vq', calls)"
  shows "mpi_run MpiIdle calls = Some MpiIdle \<and> fq_inv vq' \<and>
    sent_pts calls = map word_of_int (map snd (snd (h264_run cfg h264_init (seen_frames ins))))"
  using assms h264_loop_spec [OF assms(1,2), of cfg h264_init]
  by (auto simp: h264_thread_def split: prod.splits)

definition demo_inputs :: "h264_input list" where
  "demo_inputs =
     [\<lparr>hi_frame = None, hi_motion = 0, hi_pack = None, hi_malloc = True\<rparr>,
      \<lparr>hi_frame = Some 5, hi_motion = 1,
       hi_pack = Some \<lparr>vp_type = H264E_NALU_IDRSLICE, vp_data = Some [1, 2], vp_len = 2, vp_pts = 100000\<rparr>,
       hi_malloc = True\<rparr>,
      \<lparr>hi_frame = Some 33000, hi_motion = 1, hi_pack = None, hi_malloc = True\<rparr>]"

lemma h264_thread_calls_witness:
  "\<exists>q vq'. fq_create True True 4 = Some q \<and>
     h264_thread demo_ivs True demo_inputs q =
       (vq', [ViGetFrame, VencSendFrame 100000, VencGetStream, VencReleaseStream, ViReleaseFrame,
              ViGetFrame, ViReleaseFrame]) \<and> fq_inv vq'"
proof -
  obtain q where q: "fq_create True True 4 = Some q" by (auto simp: fq_create_def)
  then have inv: "fq_inv q" using fq_create_inv by blast
  have ok: "\<forall>i\<in>set demo_inputs. pack_ok i" by code_simp
  have "snd (h264_thread demo_ivs True demo_inputs (the (fq_create True True 4)))
      = [ViGetFrame, VencSendFrame 100000, VencGetStream, VencReleaseStream, ViReleaseFrame,
         ViGetFrame, ViReleaseFrame]"
    by code_simp
  then have calls: "h264_thread demo_ivs True demo_inputs q =
      (fst (h264_thread demo_ivs True demo_inputs q),
       [ViGetFrame, VencSendFrame 100000, VencGetStream, VencReleaseStream, ViReleaseFrame,
        ViGetFrame, ViReleaseFrame])"
    using q by (simp add: prod_eq_iff)
  from h264_thread_calls [OF inv ok calls] q calls show ?thesis by blast
qed

end
