(* ===== verification/WebSock.thy ===== *)
theory WebSock
  imports Motion
begin

text \<open>
  The live preview: \<open>web_sock_srv_init\<close>, \<open>web_sock_push\<close> and \<open>mjpeg_thread\<close> of
  \<open>src/media.c\<close>, the socket part of \<open>media_stop\<close>, and the reader at the other end of the
  socket, \<open>readFrames\<close> of the Go agent. Return values of the socket calls are inputs; what the
  code does to the kernel is a trace of calls.
\<close>

section \<open>The server\<close>

record web_sock =
  s_web_sock :: int
  s_web_srv_fd :: int

definition web_sock_static :: web_sock where
  "web_sock_static = \<lparr>s_web_sock = -1, s_web_srv_fd = -1\<rparr>"

text \<open>
  The calls that matter to a peer. \<open>WsSend fd frame n\<close> is a \<open>sendmsg\<close> of the length header and
  \<open>frame\<close> of which the kernel took the first \<open>n\<close> bytes.
\<close>

datatype ws_call = WsUnlink | WsAccept int | WsSend int bytes nat | WsClose int

definition web_sock_srv_init :: "int \<Rightarrow> bool \<Rightarrow> bool \<Rightarrow> web_sock \<Rightarrow> web_sock \<times> ws_call list" where
  "web_sock_srv_init srv bind_ok listen_ok ws =
     (if srv < 0 then (ws, [WsUnlink])
      else if \<not> bind_ok then (ws, [WsUnlink, WsClose srv])
      else if \<not> listen_ok then (ws, [WsUnlink, WsClose srv])
      else (ws\<lparr>s_web_srv_fd := srv\<rparr>, [WsUnlink]))"

text \<open>\<open>htonl\<close> and the four bytes it leaves in memory.\<close>

definition be32 :: "u32 \<Rightarrow> bytes" where
  "be32 n = [ucast (drop_bit 24 n), ucast (drop_bit 16 n), ucast (drop_bit 8 n), ucast n]"

definition frame_msg :: "bytes \<Rightarrow> bytes" where
  "frame_msg frame = be32 (of_nat (length frame)) @ frame"

text \<open>\<open>sendmsg\<close> fails, with \<open>EAGAIN\<close> or another error, or takes some of the bytes.\<close>

datatype send_result = SendFail bool | SendCount nat

definition web_sock_push :: "int \<Rightarrow> send_result \<Rightarrow> bytes \<Rightarrow> web_sock \<Rightarrow> web_sock \<times> ws_call list" where
  "web_sock_push cli sent frame ws =
     (if s_web_srv_fd ws < 0 then (ws, [])
      else if s_web_sock ws < 0 \<and> cli < 0 then (ws, [])
      else
        let (ws1, calls) = (if s_web_sock ws < 0 then (ws\<lparr>s_web_sock := cli\<rparr>, [WsAccept cli])
                            else (ws, []))
        in (case sent of
              SendCount n \<Rightarrow> (ws1, calls @ [WsSend (s_web_sock ws1) frame n])
            | SendFail eagain \<Rightarrow>
                if eagain then (ws1, calls)
                else (ws1\<lparr>s_web_sock := -1\<rparr>, calls @ [WsClose (s_web_sock ws1)])))"

text \<open>One pass of \<open>mjpeg_thread\<close>: the encoder's picture if there is one, and the call outcomes.\<close>

record mjpeg_input =
  mi_picture :: "bytes option"
  mi_accept :: int
  mi_send :: send_result

definition mjpeg_iter :: "mjpeg_input \<Rightarrow> web_sock \<Rightarrow> web_sock \<times> ws_call list" where
  "mjpeg_iter inp ws = (case mi_picture inp of
      None \<Rightarrow> (ws, [])
    | Some frame \<Rightarrow> web_sock_push (mi_accept inp) (mi_send inp) frame ws)"

fun mjpeg_loop :: "mjpeg_input list \<Rightarrow> web_sock \<Rightarrow> web_sock \<times> ws_call list" where
  "mjpeg_loop [] ws = (ws, [])"
| "mjpeg_loop (inp # ins) ws =
     (case mjpeg_iter inp ws of (ws', calls) \<Rightarrow>
        (case mjpeg_loop ins ws' of (ws'', calls') \<Rightarrow> (ws'', calls @ calls')))"

definition mjpeg_thread :: "bool \<Rightarrow> mjpeg_input list \<Rightarrow> web_sock \<Rightarrow> web_sock \<times> ws_call list" where
  "mjpeg_thread malloc_ok ins ws = (if malloc_ok then mjpeg_loop ins ws else (ws, []))"

definition web_sock_stop :: "web_sock \<Rightarrow> web_sock \<times> ws_call list" where
  "web_sock_stop ws =
     (let (ws1, c1) = (if 0 \<le> s_web_sock ws then (ws\<lparr>s_web_sock := -1\<rparr>, [WsClose (s_web_sock ws)])
                       else (ws, []));
          (ws2, c2) = (if 0 \<le> s_web_srv_fd ws1
                       then (ws1\<lparr>s_web_srv_fd := -1\<rparr>, [WsClose (s_web_srv_fd ws1), WsUnlink])
                       else (ws1, []))
      in (ws2, c1 @ c2))"

section \<open>The reader\<close>

definition be32_val :: "bytes \<Rightarrow> nat" where
  "be32_val bs = foldl (\<lambda>v b. 256 * v + unat b) 0 bs"

text \<open>\<open>readFrames\<close>: what it publishes of a byte stream before the stream ends or is refused.\<close>

function readFrames :: "bytes \<Rightarrow> bytes list" where
  "readFrames s =
     (if length s < 4 then []
      else
        let size = be32_val (take 4 s); rest = drop 4 s
        in if size = 0 \<or> 8 * 2 ^ 20 < size then []
           else if length rest < size then []
           else take size rest # readFrames (drop size rest))"
  by pat_completeness auto
termination
  by (relation "measure length") auto

declare readFrames.simps [simp del]

text \<open>The connections a trace opens, each with what was sent on it, and the bytes the peer gets.\<close>

fun conns :: "ws_call list \<Rightarrow> (bytes \<times> nat) list \<Rightarrow> (bytes \<times> nat) list list" where
  "conns [] cur = [cur]"
| "conns (WsAccept fd # cs) cur = cur # conns cs []"
| "conns (WsSend fd f n # cs) cur = conns cs (cur @ [(f, n)])"
| "conns (WsClose fd # cs) cur = conns cs cur"
| "conns (WsUnlink # cs) cur = conns cs cur"

definition received :: "(bytes \<times> nat) list \<Rightarrow> bytes" where
  "received conn = concat (map (\<lambda>(f, n). take n (frame_msg f)) conn)"

section \<open>Framing\<close>

named_theorems web_simps \<open>the socket protocol\<close>

lemma length_be32 [simp]: "length (be32 n) = 4"
  by (simp add: be32_def)

lemma length_frame_msg [simp]: "length (frame_msg f) = 4 + length f"
  by (simp add: frame_msg_def)

lemma base256:
  fixes x :: int
  assumes "0 \<le> x" and "x < 2 ^ 32"
  shows "256 * (256 * (256 * (x div 2 ^ 24 mod 256) + x div 2 ^ 16 mod 256) + x div 2 ^ 8 mod 256)
    + x div 2 ^ 0 mod 256 = x"
proof -
  have split: "256 * (y div 256) + y mod 256 = y" for y :: int by simp
  have d: "x div 2 ^ 8 = x div 256" "x div 2 ^ 16 = x div 256 div 256"
      "x div 2 ^ 24 = x div 256 div 256 div 256" "x div 2 ^ 0 = x"
    by (simp_all add: zdiv_zmult2_eq [symmetric])
  have top: "x div 256 div 256 div 256 mod 256 = x div 256 div 256 div 256"
    using assms zdiv_mono1 [of x "2 ^ 32 - 1" 16777216]
    by (intro mod_pos_pos_trivial) (simp_all add: pos_imp_zdiv_nonneg_iff zdiv_zmult2_eq [symmetric])
  show ?thesis unfolding d top split ..
qed

lemma uint_byte: "uint (ucast (drop_bit k n) :: byte) = uint (n :: u32) div 2 ^ k mod 256"
proof -
  have "take_bit 32 (uint n) = uint n" by (simp add: take_bit_int_eq_self uint_bounded [where 'a = 32, simplified])
  then have "uint (drop_bit k n) = uint n div 2 ^ k"
    by (simp add: unsigned_drop_bit_eq drop_bit_int_def)
  then show ?thesis by (simp add: unsigned_ucast_eq take_bit_int_def)
qed

lemma be32_val_be32 [web_simps]: "be32_val (be32 n) = unat n"
proof -
  have "int (be32_val (be32 n)) = 256 * (256 * (256 * uint (ucast (drop_bit 24 n) :: byte)
      + uint (ucast (drop_bit 16 n) :: byte)) + uint (ucast (drop_bit 8 n) :: byte))
      + uint (ucast (drop_bit 0 n) :: byte)"
    by (simp add: be32_def be32_val_def)
  also have "\<dots> = uint n"
    unfolding uint_byte by (rule base256) (use uint_bounded [of n] in simp_all)
  finally show ?thesis by (metis nat_int nat_uint_eq)
qed

text \<open>A frame the reader accepts.\<close>

definition frame_ok :: "bytes \<Rightarrow> bool" where
  "frame_ok f \<longleftrightarrow> f \<noteq> [] \<and> length f \<le> 8 * 2 ^ 20"

lemma frame_size [web_simps]:
  "frame_ok f \<Longrightarrow> unat (of_nat (length f) :: u32) = length f"
  by (simp add: frame_ok_def unat_of_nat take_bit_nat_eq_self)

lemma readFrames_header:
  assumes "frame_ok f" and "length f \<le> length rest"
  shows "readFrames (be32 (of_nat (length f)) @ rest)
    = take (length f) rest # readFrames (drop (length f) rest)"
  using assms by (subst readFrames.simps) (auto simp: web_simps frame_ok_def Let_def)

lemma readFrames_frame: "frame_ok f \<Longrightarrow> readFrames (frame_msg f @ s) = f # readFrames s"
  by (simp add: frame_msg_def readFrames_header)

lemma readFrames_short [web_simps]: "length s < 4 \<Longrightarrow> readFrames s = []"
  by (simp add: readFrames.simps)

lemma readFrames_received:
  assumes "\<forall>(f, n)\<in>set conn. frame_ok f \<and> n = 4 + length f"
  shows "readFrames (received conn) = map fst conn"
  using assms
  by (induction conn) (auto simp: received_def readFrames_frame web_simps)

text \<open>All sends of a trace, wherever the connections begin.\<close>

definition sends :: "ws_call list \<Rightarrow> (bytes \<times> nat) list" where
  "sends calls = concat (map (\<lambda>c. case c of WsSend fd f n \<Rightarrow> [(f, n)] | _ \<Rightarrow> []) calls)"

lemma sends_simps [simp]:
  "sends [] = []" "sends (xs @ ys) = sends xs @ sends ys"
  "sends (WsSend fd f n # cs) = (f, n) # sends cs" "sends (WsAccept fd # cs) = sends cs"
  "sends (WsClose fd # cs) = sends cs" "sends (WsUnlink # cs) = sends cs"
  by (simp_all add: sends_def)

lemma concat_conns: "concat (conns cs cur) = cur @ sends cs"
  by (induction cs cur rule: conns.induct) auto

lemma conns_sends: "conn \<in> set (conns cs cur) \<Longrightarrow> set conn \<subseteq> set cur \<union> set (sends cs)"
proof -
  assume "conn \<in> set (conns cs cur)"
  then have "set conn \<subseteq> set (concat (conns cs cur))" by auto
  then show ?thesis by (simp add: concat_conns)
qed

text \<open>An input whose picture the reader accepts and whose \<open>sendmsg\<close> is all or nothing.\<close>

definition whole_send :: "mjpeg_input \<Rightarrow> bool" where
  "whole_send i \<longleftrightarrow> (case mi_picture i of None \<Rightarrow> True | Some f \<Rightarrow> frame_ok f \<and>
     (case mi_send i of SendFail e \<Rightarrow> True | SendCount n \<Rightarrow> n = 4 + length f))"

lemma mjpeg_iter_sends:
  assumes "mjpeg_iter i ws = (ws', calls)"
  shows "set (sends calls) \<subseteq> {(f, n). mi_picture i = Some f \<and> mi_send i = SendCount n}"
  using assms
  by (auto simp: mjpeg_iter_def web_sock_push_def Let_def
      split: option.splits send_result.splits if_splits)

lemma mjpeg_loop_sends:
  "set (sends (snd (mjpeg_loop ins ws)))
     \<subseteq> {(f, n). \<exists>i\<in>set ins. mi_picture i = Some f \<and> mi_send i = SendCount n}"
proof (induction ins ws rule: mjpeg_loop.induct)
  case (2 i ins ws)
  then show ?case using mjpeg_iter_sends [of i ws]
    by (fastforce split: prod.splits)
qed simp


definition demo_preview :: "mjpeg_input list" where
  "demo_preview =
     [\<lparr>mi_picture = Some [7, 8], mi_accept = -1, mi_send = SendCount 6\<rparr>,
      \<lparr>mi_picture = Some [1, 2, 3], mi_accept = 5, mi_send = SendCount 7\<rparr>,
      \<lparr>mi_picture = Some [4], mi_accept = -1, mi_send = SendFail True\<rparr>,
      \<lparr>mi_picture = Some [9, 9], mi_accept = -1, mi_send = SendCount 6\<rparr>]"

lemma demo_preview_run:
  "mjpeg_thread True demo_preview \<lparr>s_web_sock = -1, s_web_srv_fd = 3\<rparr>
     = (\<lparr>s_web_sock = 5, s_web_srv_fd = 3\<rparr>, [WsAccept 5, WsSend 5 [1, 2, 3] 7, WsSend 5 [9, 9] 6])"
  by code_simp


text \<open>
C39: A \<open>sendmsg\<close> that takes only part of a message is treated as a success, and the stream falls
out of step: the reader's next frame has the announced length but continues with the next message's
header and picture, and so is not the picture that was sent.\<close>

theorem preview_short_send_desync:
  assumes "frame_ok f" and "4 \<le> n" and "n < 4 + length f" and "length f \<le> n + length g"
    and "0 \<le> fd" and "0 \<le> srv"
    and "mjpeg_loop [\<lparr>mi_picture = Some f, mi_accept = -1, mi_send = SendCount n\<rparr>,
                     \<lparr>mi_picture = Some g, mi_accept = -1, mi_send = SendCount (4 + length g)\<rparr>]
           \<lparr>s_web_sock = fd, s_web_srv_fd = srv\<rparr> = (ws', calls)"
  shows "s_web_sock ws' = fd \<and>
    (\<exists>rest. readFrames (received (last (conns calls [])))
       = (take (n - 4) f @ take (4 + length f - n) (frame_msg g)) # rest)"
proof -
  have run: "s_web_sock ws' = fd" "conns calls [] = [[(f, n), (g, 4 + length g)]]"
    using assms(5-7) by (auto simp: mjpeg_iter_def web_sock_push_def)
  have "received [(f, n), (g, 4 + length g)]
      = be32 (of_nat (length f)) @ (take (n - 4) f @ frame_msg g)"
    using assms(2) by (simp add: received_def frame_msg_def)
  then have "readFrames (received [(f, n), (g, 4 + length g)])
      = take (length f) (take (n - 4) f @ frame_msg g)
        # readFrames (drop (length f) (take (n - 4) f @ frame_msg g))"
    using readFrames_header [OF assms(1), of "take (n - 4) f @ frame_msg g"] assms(2-4) by simp
  moreover have "take (length f) (take (n - 4) f @ frame_msg g)
      = take (n - 4) f @ take (4 + length f - n) (frame_msg g)"
  proof -
    have "min (length f) (n - 4) = n - 4" "length f - (n - 4) = 4 + length f - n"
      using assms(2,3) by linarith+
    then show ?thesis by (simp add: take_take min.commute)
  qed
  ultimately show ?thesis using run by simp
qed

lemma preview_short_send_desync_witness:
  "\<exists>rest. readFrames (received [([1, 2, 3], 5), ([9, 9], 6)]) = [1, 0, 0] # rest"
proof -
  have run: "mjpeg_loop [\<lparr>mi_picture = Some [1, 2, 3], mi_accept = -1, mi_send = SendCount 5\<rparr>,
      \<lparr>mi_picture = Some [9, 9], mi_accept = -1, mi_send = SendCount (4 + length [9, 9 :: byte])\<rparr>]
      \<lparr>s_web_sock = 5, s_web_srv_fd = 3\<rparr>
    = (\<lparr>s_web_sock = 5, s_web_srv_fd = 3\<rparr>, [WsSend 5 [1, 2, 3] 5, WsSend 5 [9, 9] 6])"
    by code_simp
  have "frame_ok [1, 2, 3]" by (simp add: frame_ok_def)
  from preview_short_send_desync [OF this _ _ _ _ _ run]
  show ?thesis by (simp add: frame_msg_def be32_def)
qed

section \<open>Descriptors\<close>

text \<open>The client descriptor a trace leaves open; \<open>None\<close> when it uses one that is not open.\<close>

fun fd_run :: "int option \<Rightarrow> ws_call list \<Rightarrow> int option option" where
  "fd_run cur [] = Some cur"
| "fd_run cur (WsAccept fd # cs) = (if cur = None then fd_run (Some fd) cs else None)"
| "fd_run cur (WsSend fd f n # cs) = (if cur = Some fd then fd_run cur cs else None)"
| "fd_run cur (WsClose fd # cs) = (if cur = Some fd then fd_run None cs else None)"
| "fd_run cur (WsUnlink # cs) = fd_run cur cs"

lemma fd_run_append:
  "fd_run cur (xs @ ys) = (case fd_run cur xs of None \<Rightarrow> None | Some cur' \<Rightarrow> fd_run cur' ys)"
  by (induction cur xs rule: fd_run.induct) auto

definition client_fd :: "web_sock \<Rightarrow> int option" where
  "client_fd ws = (if s_web_sock ws < 0 then None else Some (s_web_sock ws))"

lemma mjpeg_iter_fd:
  assumes "mjpeg_iter i ws = (ws', calls)"
  shows "fd_run (client_fd ws) calls = Some (client_fd ws') \<and> s_web_srv_fd ws' = s_web_srv_fd ws"
  using assms
  by (auto simp: mjpeg_iter_def web_sock_push_def Let_def client_fd_def
      split: option.splits send_result.splits if_splits)

lemma mjpeg_loop_fd:
  assumes "mjpeg_loop ins ws = (ws', calls)"
  shows "fd_run (client_fd ws) calls = Some (client_fd ws') \<and> s_web_srv_fd ws' = s_web_srv_fd ws"
  using assms
proof (induction ins arbitrary: ws calls)
  case (Cons i ins)
  obtain ws1 c1 where it: "mjpeg_iter i ws = (ws1, c1)" by fastforce
  obtain c2 where "mjpeg_loop ins ws1 = (ws', c2)" "calls = c1 @ c2"
    using Cons.prems it by (auto split: prod.splits)
  with Cons.IH mjpeg_iter_fd [OF it] show ?case by (auto simp: fd_run_append)
qed simp

lemma mjpeg_iter_neg:
  "mjpeg_iter i ws = (ws', calls) \<Longrightarrow> (s_web_sock ws < 0 \<longrightarrow> s_web_sock ws = -1) \<Longrightarrow>
     (s_web_sock ws' < 0 \<longrightarrow> s_web_sock ws' = -1)"
  by (auto simp: mjpeg_iter_def web_sock_push_def Let_def
      split: option.splits send_result.splits if_splits)

lemma mjpeg_sock_neg:
  "mjpeg_loop ins ws = (ws', calls) \<Longrightarrow> (s_web_sock ws < 0 \<longrightarrow> s_web_sock ws = -1) \<Longrightarrow>
     (s_web_sock ws' < 0 \<longrightarrow> s_web_sock ws' = -1)"
proof (induction ins arbitrary: ws calls)
  case (Cons i ins)
  obtain ws1 c1 where it: "mjpeg_iter i ws = (ws1, c1)" by fastforce
  then show ?case using Cons mjpeg_iter_neg [OF it] by (auto split: prod.splits)
qed simp

lemma init_neg:
  "web_sock_srv_init srv bind_ok listen_ok web_sock_static = (ws1, c1) \<Longrightarrow>
     s_web_sock ws1 < 0 \<longrightarrow> s_web_sock ws1 = -1"
  by (auto simp: web_sock_srv_init_def web_sock_static_def split: if_splits)



end
