(* ===== verification/FileUtils.thy ===== *)
theory FileUtils
  imports Prelude
begin

text \<open>
  \<open>src/utils.c\<close> and the atomic file replacement of \<open>src/storage.c\<close>, over a file system that tells
  what processes see from what is on the card. System calls take their outcome as an argument.
\<close>

section \<open>The file system\<close>

text \<open>
  A name is bound to an inode for processes (\<open>fs_dir\<close>), and on the card to one of the bindings it
  has had since its directory was last synchronised (\<open>fs_disk\<close>). The contents of an inode on the
  card are known once it has been synchronised (\<open>fs_sync\<close>), and may be anything before.
\<close>

type_synonym ino = nat

record fs =
  fs_dir :: "string \<Rightarrow> ino option"
  fs_disk :: "string \<Rightarrow> ino option list"
  fs_data :: "ino \<Rightarrow> bytes"
  fs_sync :: "ino \<Rightarrow> bytes option"
  fs_next :: ino
  fs_dirs :: "string list"

definition fs_bind :: "string \<Rightarrow> ino option \<Rightarrow> fs \<Rightarrow> fs" where
  "fs_bind p b fs = fs\<lparr>fs_dir := (fs_dir fs)(p := b), fs_disk := (fs_disk fs)(p := b # fs_disk fs p)\<rparr>"

definition fs_create :: "string \<Rightarrow> fs \<Rightarrow> fs" where
  "fs_create p fs = (fs_bind p (Some (fs_next fs)) fs)\<lparr>
     fs_data := (fs_data fs)(fs_next fs := []), fs_sync := (fs_sync fs)(fs_next fs := None),
     fs_next := Suc (fs_next fs)\<rparr>"

definition fs_append :: "ino \<Rightarrow> bytes \<Rightarrow> fs \<Rightarrow> fs" where
  "fs_append i bs fs = fs\<lparr>fs_data := (fs_data fs)(i := fs_data fs i @ bs), fs_sync := (fs_sync fs)(i := None)\<rparr>"

definition fs_fsync :: "ino \<Rightarrow> fs \<Rightarrow> fs" where
  "fs_fsync i fs = fs\<lparr>fs_sync := (fs_sync fs)(i := Some (fs_data fs i))\<rparr>"

definition fs_rename :: "string \<Rightarrow> string \<Rightarrow> fs \<Rightarrow> fs" where
  "fs_rename old new fs = fs_bind old None (fs_bind new (fs_dir fs old) fs)"

text \<open>The directory a path is in: what precedes its last slash, or the root.\<close>

definition parent_dir :: "string \<Rightarrow> string option" where
  "parent_dir p = (case dropWhile (\<lambda>c. c \<noteq> CHR ''/'') (rev p) of
      [] \<Rightarrow> None
    | c # cs \<Rightarrow> Some (if cs = [] then ''/'' else rev cs))"

definition fs_dirsync :: "string \<Rightarrow> fs \<Rightarrow> fs" where
  "fs_dirsync d fs = fs\<lparr>fs_disk := (\<lambda>p. if parent_dir p = Some d then [fs_dir fs p] else fs_disk fs p)\<rparr>"

text \<open>What a process reads at a path, and what may be read there after a power failure.\<close>

definition fs_read :: "fs \<Rightarrow> string \<Rightarrow> bytes option" where
  "fs_read fs p = map_option (fs_data fs) (fs_dir fs p)"

definition crash_reads :: "fs \<Rightarrow> string \<Rightarrow> bytes option \<Rightarrow> bool" where
  "crash_reads fs p c \<longleftrightarrow> (\<exists>b\<in>set (fs_disk fs p). case b of
      None \<Rightarrow> c = None
    | Some i \<Rightarrow> (\<exists>d. c = Some d \<and> (fs_sync fs i = None \<or> fs_sync fs i = Some d)))"

section \<open>utils.c\<close>

definition now_ms :: "int \<Rightarrow> int \<Rightarrow> int" where
  "now_ms tv_sec tv_nsec = tv_sec * 1000 + c_quot tv_nsec 1000000"

datatype stat_result = StatMissing | StatDir | StatOther

definition ensure_dir :: "stat_result \<Rightarrow> bool \<Rightarrow> string \<Rightarrow> fs \<Rightarrow> int \<times> fs" where
  "ensure_dir st mkdir_ok path fs = (case st of
      StatDir \<Rightarrow> (0, fs)
    | StatOther \<Rightarrow> (-1, fs)
    | StatMissing \<Rightarrow> if mkdir_ok then (0, fs\<lparr>fs_dirs := path # fs_dirs fs\<rparr>) else (-1, fs))"

definition fsync_parent_dir :: "bool \<Rightarrow> bool \<Rightarrow> string \<Rightarrow> fs \<Rightarrow> int \<times> fs" where
  "fsync_parent_dir open_ok fsync_ok path fs =
     (if length path = 0 \<or> 160 \<le> length path then (-1, fs)
      else case parent_dir path of
        None \<Rightarrow> (-1, fs)
      | Some d \<Rightarrow>
          if \<not> open_ok then (-1, fs)
          else if fsync_ok then (0, fs_dirsync d fs) else (-1, fs))"

text \<open>
  One \<open>write\<close> fails, interrupted by a signal (\<open>True\<close>) or not, or writes some bytes. The list gives
  the outcomes of the first calls; a further call writes everything it is given. The result is the
  return code and the states the file system goes through, the latest first.
\<close>

datatype write_result = WriteFail bool | WriteCount nat

fun write_all :: "ino \<Rightarrow> bytes \<Rightarrow> write_result list \<Rightarrow> fs list \<Rightarrow> int \<times> fs list" where
  "write_all fd bs [] h = (if bs = [] then (0, h) else (0, fs_append fd bs (hd h) # h))"
| "write_all fd bs (out # outs) h =
     (if bs = [] then (0, h)
      else case out of
        WriteFail eintr \<Rightarrow> if eintr then write_all fd bs outs h else (-1, h)
      | WriteCount n \<Rightarrow> write_all fd (drop n bs) outs (fs_append fd (take n bs) (hd h) # h))"

text \<open>
  \<open>remove_recursive\<close> walks the tree with \<open>nftw\<close>, children before their directory; \<open>walk\<close> lists the
  paths in the order of the walk, each with the outcome of its \<open>remove\<close>. The walk stops at the
  first failure.
\<close>

definition fs_remove :: "string \<Rightarrow> fs \<Rightarrow> fs" where
  "fs_remove p fs = (if p \<in> set (fs_dirs fs) then fs\<lparr>fs_dirs := removeAll p (fs_dirs fs)\<rparr>
                     else fs_bind p None fs)"

definition nuke_cb :: "bool \<Rightarrow> string \<Rightarrow> fs \<Rightarrow> int \<times> fs" where
  "nuke_cb remove_ok p fs = (if remove_ok then (0, fs_remove p fs) else (-1, fs))"

fun remove_recursive :: "(string \<times> bool) list \<Rightarrow> fs \<Rightarrow> int \<times> fs" where
  "remove_recursive [] fs = (0, fs)"
| "remove_recursive ((p, ok) # walk) fs =
     (case nuke_cb ok p fs of (rc, fs') \<Rightarrow> if rc \<noteq> 0 then (rc, fs') else remove_recursive walk fs')"

datatype lstat_result = LstatNoEnt | LstatError | LstatDir "(string \<times> bool) list" | LstatFile bool

definition remove_path_tree :: "lstat_result \<Rightarrow> string \<Rightarrow> fs \<Rightarrow> int \<times> fs" where
  "remove_path_tree st path fs = (case st of
      LstatNoEnt \<Rightarrow> (0, fs)
    | LstatError \<Rightarrow> (-1, fs)
    | LstatDir walk \<Rightarrow> remove_recursive walk fs
    | LstatFile ok \<Rightarrow> nuke_cb ok path fs)"

text \<open>\<open>statvfs\<close> fails or gives the number of free blocks and their size.\<close>

definition fs_free_mb :: "(u64 \<times> u64) option \<Rightarrow> u32" where
  "fs_free_mb s = (case s of
      None \<Rightarrow> 4294967295
    | Some (bavail, frsize) \<Rightarrow> ucast (drop_bit 20 (bavail * frsize)))"

section \<open>Atomic replacement of a file\<close>

definition failpoint_hit :: "string option \<Rightarrow> string \<Rightarrow> bool" where
  "failpoint_hit env name = (case env of None \<Rightarrow> False | Some fp \<Rightarrow> fp = name)"

text \<open>
  What \<open>write_file_atomic\<close> meets: the six characters \<open>mkstemp\<close> chooses, if it succeeds, and the
  outcomes of the other calls.
\<close>

record wfa_env =
  we_mkstemp :: "string option"
  we_writes :: "write_result list"
  we_fsync :: bool
  we_close :: bool
  we_failpoint :: "string option"
  we_rename :: bool
  we_opendir :: bool
  we_dirsync :: bool

definition TMP_PATH_SIZE :: nat where "TMP_PATH_SIZE = 192"

definition tmp_name :: "string \<Rightarrow> string \<Rightarrow> string" where
  "tmp_name path suffix = path @ ''.tmp.'' @ suffix"

definition write_file_atomic :: "wfa_env \<Rightarrow> string \<Rightarrow> bytes \<Rightarrow> fs \<Rightarrow> int \<times> fs list" where
  "write_file_atomic e path data fs =
     (if TMP_PATH_SIZE \<le> length path + 11 then (-1, [fs])
      else case we_mkstemp e of
        None \<Rightarrow> (-1, [fs])
      | Some suffix \<Rightarrow>
          let tmp = tmp_name path suffix;
              fd = fs_next fs;
              h0 = [fs_create tmp fs, fs];
              (rc1, h1) = write_all fd data (we_writes e) h0;
              (rc2, h2) = (if rc1 = 0 then (if we_fsync e then (0 :: int, fs_fsync fd (hd h1) # h1) else (-1, h1))
                           else (-1, h1));
              rc3 = (if we_close e then rc2 else -1);
              rc4 = (if rc3 = 0 \<and> failpoint_hit (we_failpoint e) ''write-before-rename'' then -1 else rc3);
              (rc5, h5) = (if rc4 = 0 then (if we_rename e then (0, fs_rename tmp path (hd h2) # h2)
                                            else (-1, h2))
                           else (rc4, h2));
              rc6 = (if rc5 = 0 \<and> failpoint_hit (we_failpoint e) ''write-after-rename'' then -1 else rc5);
              (rc7, h7) = (if rc6 = 0
                           then (case fsync_parent_dir (we_opendir e) (we_dirsync e) path (hd h5) of
                                   (rc, fs') \<Rightarrow> if rc \<noteq> 0 then (-1, h5) else (0, fs' # h5))
                           else (rc6, h5))
          in if rc7 \<noteq> 0 then (-1, fs_bind tmp None (hd h7) # h7) else (0, h7))"

end
