(* ===== verification/FileUtilsProps.thy ===== *)
theory FileUtilsProps
  imports FileUtils
begin

text \<open>
  What the file routines guarantee: a file is written completely or the error is reported, and an
  atomic replacement shows the old or the new contents at every moment, also after a power failure.
\<close>

section \<open>Writing\<close>

text \<open>Two states that differ only in the contents of one inode.\<close>

definition touch_only :: "ino \<Rightarrow> fs \<Rightarrow> fs \<Rightarrow> bool" where
  "touch_only fd s t \<longleftrightarrow> fs_dir t = fs_dir s \<and> fs_disk t = fs_disk s \<and> fs_next t = fs_next s \<and>
     fs_dirs t = fs_dirs s \<and> (\<forall>i. i \<noteq> fd \<longrightarrow> fs_data t i = fs_data s i \<and> fs_sync t i = fs_sync s i)"

lemma touch_only_refl [simp]: "touch_only fd s s"
  by (simp add: touch_only_def)

lemma touch_only_trans: "touch_only fd s t \<Longrightarrow> touch_only fd t u \<Longrightarrow> touch_only fd s u"
  by (simp add: touch_only_def)

lemma touch_only_append [simp]: "touch_only fd s (fs_append fd bs s)"
  by (simp add: touch_only_def fs_append_def)

lemma touch_only_fsync [simp]: "touch_only fd s (fs_fsync fd s)"
  by (simp add: touch_only_def fs_fsync_def)

lemma fs_append_data [simp]: "fs_data (fs_append fd bs s) fd = fs_data s fd @ bs"
  by (simp add: fs_append_def)

lemma take_append_take: "take n xs @ take k (drop n xs) = take (n + k) xs"
  by (metis take_add)

lemma write_all_spec:
  assumes "h \<noteq> []" and "write_all fd bs outs h = (rc, h')"
  shows "h' \<noteq> [] \<and> (\<forall>s\<in>set h'. s \<in> set h \<or> touch_only fd (hd h) s) \<and> touch_only fd (hd h) (hd h') \<and>
    (rc = 0 \<and> fs_data (hd h') fd = fs_data (hd h) fd @ bs \<or>
     rc = -1 \<and> WriteFail False \<in> set outs \<and>
       (\<exists>k. fs_data (hd h') fd = fs_data (hd h) fd @ take k bs))"
  using assms
proof (induction outs arbitrary: bs h)
  case Nil
  then show ?case by (auto split: if_splits)
next
  case (Cons out outs)
  show ?case
  proof (cases "bs = []")
    case True
    with Cons.prems show ?thesis by auto
  next
    case False
    note ne = this
    show ?thesis
    proof (cases out)
      case (WriteFail eintr)
      show ?thesis
      proof (cases eintr)
        case True
        then have "write_all fd bs outs h = (rc, h')" using Cons.prems ne WriteFail by simp
        from Cons.IH [OF Cons.prems(1) this] show ?thesis by auto
      next
        case False
        then show ?thesis using Cons.prems ne WriteFail by (auto intro: exI [of _ 0])
      qed
    next
      case (WriteCount n)
      let ?h = "fs_append fd (take n bs) (hd h) # h"
      have "write_all fd (drop n bs) outs ?h = (rc, h')" using Cons.prems ne WriteCount by simp
      from Cons.IH [OF _ this] show ?thesis
        using touch_only_trans [OF touch_only_append]
        by (auto simp: take_append_take)
    qed
  qed
qed

text \<open>
\<open>write_all\<close> retries interrupted and short writes until every byte is written: it returns 0
exactly with the whole buffer appended to the file, in order, and -1 only after a write failed for
another reason than a signal, with a prefix of the buffer appended; no other file is touched.\<close>

theorem write_all_complete:
  assumes "write_all fd bs outs [s] = (rc, h)"
  shows "touch_only fd s (hd h) \<and>
    (if rc = 0 then fs_data (hd h) fd = fs_data s fd @ bs
     else rc = -1 \<and> WriteFail False \<in> set outs \<and> (\<exists>k. fs_data (hd h) fd = fs_data s fd @ take k bs))"
  using write_all_spec [OF _ assms] by auto

definition fs_empty :: fs where
  "fs_empty = \<lparr>fs_dir = (\<lambda>p. None), fs_disk = (\<lambda>p. [None]), fs_data = (\<lambda>i. []), fs_sync = (\<lambda>i. Some []),
     fs_next = 0, fs_dirs = []\<rparr>"

lemma write_all_complete_witness:
  "fs_data (hd (snd (write_all 0 [1, 2, 3] [WriteFail True, WriteCount 2, WriteFail True]
     [fs_create ''f'' fs_empty]))) 0 = [1, 2, 3]"
proof -
  have rc: "write_all 0 [1, 2, 3] [WriteFail True, WriteCount 2, WriteFail True] [fs_create ''f'' fs_empty]
      = (0, snd (write_all 0 [1, 2, 3] [WriteFail True, WriteCount 2, WriteFail True] [fs_create ''f'' fs_empty]))"
    by simp
  show ?thesis using write_all_complete [OF rc] by (simp add: fs_create_def fs_bind_def fs_empty_def)
qed

section \<open>Atomic replacement\<close>

text \<open>Inode numbers in use are below the next one.\<close>

definition fs_wf :: "fs \<Rightarrow> bool" where
  "fs_wf fs \<longleftrightarrow> (\<forall>p i. fs_dir fs p = Some i \<longrightarrow> i < fs_next fs) \<and>
     (\<forall>p i. Some i \<in> set (fs_disk fs p) \<longrightarrow> i < fs_next fs)"

definition shows_old_or_new :: "fs \<Rightarrow> string \<Rightarrow> bytes \<Rightarrow> fs \<Rightarrow> bool" where
  "shows_old_or_new fs path data s \<longleftrightarrow>
     (fs_read s path = fs_read fs path \<or> fs_read s path = Some data) \<and>
     (\<forall>c. crash_reads s path c \<longrightarrow> crash_reads fs path c \<or> c = Some data)"

text \<open>Before the rename: the path still has its bindings, and old inodes their contents.\<close>

definition before_rename :: "fs \<Rightarrow> string \<Rightarrow> fs \<Rightarrow> bool" where
  "before_rename fs path s \<longleftrightarrow> fs_dir s path = fs_dir fs path \<and> fs_disk s path = fs_disk fs path \<and>
     (\<forall>i < fs_next fs. fs_data s i = fs_data fs i \<and> fs_sync s i = fs_sync fs i)"

definition after_rename :: "fs \<Rightarrow> string \<Rightarrow> bytes \<Rightarrow> fs \<Rightarrow> bool" where
  "after_rename fs path data s \<longleftrightarrow> fs_dir s path = Some (fs_next fs) \<and>
     set (fs_disk s path) \<subseteq> insert (Some (fs_next fs)) (set (fs_disk fs path)) \<and>
     fs_data s (fs_next fs) = data \<and> fs_sync s (fs_next fs) = Some data \<and>
     (\<forall>i < fs_next fs. fs_data s i = fs_data fs i \<and> fs_sync s i = fs_sync fs i)"

lemma before_rename_shows:
  assumes "fs_wf fs" and "before_rename fs path s"
  shows "shows_old_or_new fs path data s"
proof -
  have "fs_read s path = fs_read fs path"
    using assms by (cases "fs_dir fs path") (auto simp: fs_read_def before_rename_def fs_wf_def)
  moreover have "crash_reads fs path c" if crash: "crash_reads s path c" for c
  proof -
    obtain b where b: "b \<in> set (fs_disk s path)"
      "case b of None \<Rightarrow> c = None | Some i \<Rightarrow> \<exists>d. c = Some d \<and> (fs_sync s i = None \<or> fs_sync s i = Some d)"
      using crash unfolding crash_reads_def by blast
    then have old: "b \<in> set (fs_disk fs path)" using assms(2) by (simp add: before_rename_def)
    moreover have "case b of None \<Rightarrow> c = None
        | Some i \<Rightarrow> \<exists>d. c = Some d \<and> (fs_sync fs i = None \<or> fs_sync fs i = Some d)"
      using b(2) old assms by (cases b) (auto simp: before_rename_def fs_wf_def)
    ultimately show ?thesis unfolding crash_reads_def by blast
  qed
  ultimately show ?thesis by (simp add: shows_old_or_new_def)
qed

lemma after_rename_shows:
  assumes "fs_wf fs" and "after_rename fs path data s"
  shows "shows_old_or_new fs path data s"
proof -
  have "crash_reads fs path c \<or> c = Some data" if "crash_reads s path c" for c
  proof -
    from that obtain b where b: "b \<in> set (fs_disk s path)"
      "case b of None \<Rightarrow> c = None | Some i \<Rightarrow> \<exists>d. c = Some d \<and> (fs_sync s i = None \<or> fs_sync s i = Some d)"
      unfolding crash_reads_def by blast
    show ?thesis
    proof (cases "b = Some (fs_next fs)")
      case True
      with b(2) assms(2) show ?thesis by (auto simp: after_rename_def)
    next
      case False
      then have old: "b \<in> set (fs_disk fs path)" using assms(2) b(1) by (auto simp: after_rename_def)
      moreover have "case b of None \<Rightarrow> c = None
          | Some i \<Rightarrow> \<exists>d. c = Some d \<and> (fs_sync fs i = None \<or> fs_sync fs i = Some d)"
        using b(2) old assms by (cases b) (auto simp: after_rename_def fs_wf_def)
      ultimately show ?thesis unfolding crash_reads_def by blast
    qed
  qed
  then show ?thesis using assms(2) by (auto simp: shows_old_or_new_def fs_read_def after_rename_def)
qed

lemma tmp_name_neq [simp]: "tmp_name path suffix \<noteq> path" "path \<noteq> tmp_name path suffix"
  by (simp_all add: tmp_name_def)

lemma before_rename_refl [simp]: "before_rename fs path fs"
  by (simp add: before_rename_def)

lemma before_rename_create [simp]: "before_rename fs path (fs_create (tmp_name path suffix) fs)"
  by (simp add: before_rename_def fs_create_def fs_bind_def)

lemma before_rename_touch:
  "before_rename fs path s \<Longrightarrow> touch_only (fs_next fs) s t \<Longrightarrow> before_rename fs path t"
  by (auto simp: before_rename_def touch_only_def)

lemma before_rename_fsync:
  "before_rename fs path s \<Longrightarrow> before_rename fs path (fs_fsync (fs_next fs) s)"
  by (rule before_rename_touch [OF _ touch_only_fsync])

lemma before_rename_unlink:
  "before_rename fs path s \<Longrightarrow> before_rename fs path (fs_bind (tmp_name path suffix) None s)"
  by (simp add: before_rename_def fs_bind_def)

lemma after_rename_unlink:
  "after_rename fs path data s \<Longrightarrow> after_rename fs path data (fs_bind (tmp_name path suffix) None s)"
  by (simp add: after_rename_def fs_bind_def)

lemma after_rename_rename:
  assumes "before_rename fs path s" and "fs_dir s (tmp_name path suffix) = Some (fs_next fs)"
    and "fs_data s (fs_next fs) = data" and "fs_sync s (fs_next fs) = Some data"
  shows "after_rename fs path data (fs_rename (tmp_name path suffix) path s)"
  using assms by (auto simp: after_rename_def before_rename_def fs_rename_def fs_bind_def)

lemma after_rename_dirsync:
  "after_rename fs path data s \<Longrightarrow> fsync_parent_dir o1 o2 path s = (rc, t) \<Longrightarrow> after_rename fs path data t"
  by (auto simp: after_rename_def fsync_parent_dir_def fs_dirsync_def split: if_splits option.splits)

text \<open>The file just created, after \<open>write_all\<close> and \<open>fsync\<close>.\<close>

lemma written_spec:
  assumes "write_all (fs_next fs) data outs [fs_create tmp fs, fs] = (rc, h)"
    and "tmp = tmp_name path suffix"
  shows "h \<noteq> [] \<and> (\<forall>s\<in>set h. before_rename fs path s) \<and>
    fs_dir (hd h) tmp = Some (fs_next fs) \<and> (rc = 0 \<longrightarrow> fs_data (hd h) (fs_next fs) = data) \<and>
    (rc = 0 \<or> rc = -1)"
proof -
  have created: "fs_dir (fs_create tmp fs) tmp = Some (fs_next fs)" "fs_data (fs_create tmp fs) (fs_next fs) = []"
    by (simp_all add: fs_create_def fs_bind_def)
  note spec = write_all_spec [OF _ assms(1), simplified]
  have "before_rename fs path s" if "s \<in> set h" for s
    using spec that before_rename_touch [OF before_rename_create] assms(2) by auto
  with spec created show ?thesis by (auto simp: touch_only_def)
qed

text \<open>A run of \<open>write_file_atomic\<close> whose temporary file was made, as the last of its states.\<close>

lemma write_file_atomic_run:
  assumes "we_mkstemp e = Some suffix" and "\<not> TMP_PATH_SIZE \<le> length path + 11"
    and w: "write_all (fs_next fs) data (we_writes e) [fs_create (tmp_name path suffix) fs, fs] = (rc1, h1)"
    and "rc1 = 0 \<or> rc1 = -1"
    and h2: "h2 = (if rc1 = 0 \<and> we_fsync e then fs_fsync (fs_next fs) (hd h1) # h1 else h1)"
    and ok3: "ok3 \<longleftrightarrow> rc1 = 0 \<and> we_fsync e \<and> we_close e \<and>
      \<not> failpoint_hit (we_failpoint e) ''write-before-rename'' \<and> we_rename e"
    and h5: "h5 = (if ok3 then fs_rename (tmp_name path suffix) path (hd h2) # h2 else h2)"
    and ok6: "ok6 \<longleftrightarrow> ok3 \<and> \<not> failpoint_hit (we_failpoint e) ''write-after-rename''"
    and sync: "fsync_parent_dir (we_opendir e) (we_dirsync e) path (hd h5) = (rc7, t)"
  shows "write_file_atomic e path data fs
    = (if ok6 \<and> rc7 = 0 then (0, t # h5) else (-1, fs_bind (tmp_name path suffix) None (hd h5) # h5))"
proof (cases ok3)
  case True
  then show ?thesis
    using assms(1,2) sync by (simp add: write_file_atomic_def Let_def w h2 h5 ok6 ok3)
next
  case False
  with assms(4) show ?thesis
    using assms(1,2) by (auto simp: write_file_atomic_def Let_def w h2 h5 ok6 ok3)
qed

text \<open>The shape of every run of \<open>write_file_atomic\<close>.\<close>

lemma write_file_atomic_cases:
  assumes "write_file_atomic e path data fs = (rc, h)"
  shows "h \<noteq> [] \<and> (\<forall>s\<in>set h. before_rename fs path s \<or> after_rename fs path data s) \<and>
    (rc = 0 \<longrightarrow> after_rename fs path data (hd h) \<and> fs_disk (hd h) path = [Some (fs_next fs)]) \<and>
    (rc = 0 \<or> rc = -1)"
proof (cases "TMP_PATH_SIZE \<le> length path + 11 \<or> we_mkstemp e = None")
  case True
  then show ?thesis using assms by (auto simp: write_file_atomic_def split: if_splits)
next
  case False
  then obtain suffix where sfx: "we_mkstemp e = Some suffix" and len: "\<not> TMP_PATH_SIZE \<le> length path + 11"
    by auto
  let ?tmp = "tmp_name path suffix" and ?fd = "fs_next fs"
  obtain rc1 h1 where w: "write_all ?fd data (we_writes e) [fs_create ?tmp fs, fs] = (rc1, h1)" by fastforce
  note W = written_spec [OF w refl]
  define h2 where "h2 = (if rc1 = 0 \<and> we_fsync e then fs_fsync ?fd (hd h1) # h1 else h1)"
  have H2: "h2 \<noteq> []" "\<forall>s\<in>set h2. before_rename fs path s" "fs_dir (hd h2) ?tmp = Some ?fd"
      "rc1 = 0 \<and> we_fsync e \<Longrightarrow> fs_data (hd h2) ?fd = data \<and> fs_sync (hd h2) ?fd = Some data"
    using W before_rename_fsync [of fs path "hd h1"]
    by (auto simp: h2_def) (simp_all add: fs_fsync_def)
  define ok3 where "ok3 \<longleftrightarrow> rc1 = 0 \<and> we_fsync e \<and> we_close e \<and>
    \<not> failpoint_hit (we_failpoint e) ''write-before-rename'' \<and> we_rename e"
  define h5 where "h5 = (if ok3 then fs_rename ?tmp path (hd h2) # h2 else h2)"
  have H5: "h5 \<noteq> []" "\<forall>s\<in>set h5. before_rename fs path s \<or> after_rename fs path data s"
      "ok3 \<Longrightarrow> after_rename fs path data (hd h5)" "\<not> ok3 \<Longrightarrow> before_rename fs path (hd h5)"
    using H2 after_rename_rename [of fs path "hd h2" suffix data] by (auto simp: h5_def ok3_def)
  define ok6 where "ok6 \<longleftrightarrow> ok3 \<and> \<not> failpoint_hit (we_failpoint e) ''write-after-rename''"
  obtain rc7 t where sync: "fsync_parent_dir (we_opendir e) (we_dirsync e) path (hd h5) = (rc7, t)" by fastforce
  have run: "(rc, h) = (if ok6 \<and> rc7 = 0 then (0, t # h5) else (-1, fs_bind ?tmp None (hd h5) # h5))"
    using write_file_atomic_run [OF sfx len w _ h2_def ok3_def h5_def ok6_def sync] W assms by simp
  show ?thesis
  proof (cases "ok6 \<and> rc7 = 0")
    case True
    then have "after_rename fs path data t"
      using after_rename_dirsync [OF H5(3) sync] by (simp add: ok6_def)
    moreover from this have "fs_disk t path = [Some ?fd]"
      using sync True H5(3) by (auto simp: fsync_parent_dir_def fs_dirsync_def after_rename_def ok6_def
          split: if_splits option.splits)
    ultimately show ?thesis using run True H5 by auto
  next
    case False
    have "before_rename fs path (fs_bind ?tmp None (hd h5)) \<or>
        after_rename fs path data (fs_bind ?tmp None (hd h5))"
      using H5(3,4) by (cases ok3) (simp_all add: before_rename_unlink after_rename_unlink)
    moreover have "rc = -1" "h = fs_bind ?tmp None (hd h5) # h5" using run False by auto
    ultimately show ?thesis using H5(2) by simp
  qed
qed

text \<open>
C6: \<open>write_file_atomic\<close> is atomic: after every one of its system calls, whatever their outcomes, a
process reading the path gets its old contents or all of the new ones, and so does whoever reads it
after a power failure at that moment.\<close>

theorem write_file_atomic_safe:
  assumes "fs_wf fs" and "write_file_atomic e path data fs = (rc, h)" and "s \<in> set h"
  shows "shows_old_or_new fs path data s"
  using write_file_atomic_cases [OF assms(2)] assms(1,3) before_rename_shows after_rename_shows by blast

definition wfa_good :: "string \<Rightarrow> wfa_env" where
  "wfa_good sfx = \<lparr>we_mkstemp = Some sfx, we_writes = [WriteCount 1, WriteFail True], we_fsync = True, we_close = True,
     we_failpoint = None, we_rename = True, we_opendir = True, we_dirsync = True\<rparr>"

lemma fs_wf_empty [simp]: "fs_wf fs_empty"
  by (simp add: fs_wf_def fs_empty_def)

lemma wfa_good_run:
  "write_file_atomic (wfa_good ''abcdef'') ''/d/f'' [1, 2] fs_empty
     = (0, snd (write_file_atomic (wfa_good ''abcdef'') ''/d/f'' [1, 2] fs_empty))"
  by (simp add: write_file_atomic_def wfa_good_def TMP_PATH_SIZE_def Let_def failpoint_hit_def
      fsync_parent_dir_def parent_dir_def)

lemma wfa_good_head:
  "hd (snd (write_file_atomic (wfa_good ''abcdef'') ''/d/f'' [1, 2] fs_empty))
     \<in> set (snd (write_file_atomic (wfa_good ''abcdef'') ''/d/f'' [1, 2] fs_empty))"
  using write_file_atomic_cases [OF wfa_good_run] by (intro hd_in_set) simp

lemma write_file_atomic_safe_witness:
  "shows_old_or_new fs_empty ''/d/f'' [1, 2]
     (hd (snd (write_file_atomic (wfa_good ''abcdef'') ''/d/f'' [1, 2] fs_empty)))"
  by (rule write_file_atomic_safe [OF fs_wf_empty wfa_good_run wfa_good_head])

text \<open>
When \<open>write_file_atomic\<close> returns 0, the path reads as exactly the new contents, now and after a
power failure at any later moment without further changes: the data and the name are both on the
card.\<close>

theorem write_file_atomic_durable:
  assumes "write_file_atomic e path data fs = (0, h)"
  shows "fs_read (hd h) path = Some data \<and> (\<forall>c. crash_reads (hd h) path c \<longleftrightarrow> c = Some data)"
  using write_file_atomic_cases [OF assms]
  by (auto simp: fs_read_def crash_reads_def after_rename_def)

lemma write_file_atomic_durable_witness:
  "fs_read (hd (snd (write_file_atomic (wfa_good ''abcdef'') ''/d/f'' [1, 2] fs_empty))) ''/d/f'' = Some [1, 2]"
  using write_file_atomic_durable [OF wfa_good_run] by blast

text \<open>
A failure after the rename (the fail point or the synchronisation of the directory) is reported
as -1 although the file has been replaced: the caller is told that the write failed while every
process already reads the new contents.\<close>

theorem write_file_atomic_late_error:
  assumes "length path + 11 < TMP_PATH_SIZE" and "we_mkstemp e = Some suffix"
    and "WriteFail False \<notin> set (we_writes e)" and "we_fsync e" and "we_close e" and "we_rename e"
    and "we_failpoint e = None" and "\<not> we_dirsync e"
    and "write_file_atomic e path data fs = (rc, h)"
  shows "rc = -1 \<and> fs_read (hd h) path = Some data"
proof -
  let ?tmp = "tmp_name path suffix" and ?fd = "fs_next fs"
  obtain rc1 h1 where w: "write_all ?fd data (we_writes e) [fs_create ?tmp fs, fs] = (rc1, h1)" by fastforce
  have rc1: "rc1 = 0" using write_all_spec [OF _ w] assms(3) by auto
  note W = written_spec [OF w refl]
  have "fs_dir (fs_fsync ?fd (hd h1)) ?tmp = Some ?fd" "fs_data (fs_fsync ?fd (hd h1)) ?fd = data"
    using W rc1 by (simp_all add: fs_fsync_def)
  then have "fs_read (fs_bind ?tmp None (fs_rename ?tmp path (fs_fsync ?fd (hd h1)))) path = Some data"
    by (simp add: fs_read_def fs_rename_def fs_bind_def)
  moreover have "fsync_parent_dir (we_opendir e) (we_dirsync e) path s = (-1, s)" for s
    using assms(8) by (auto simp: fsync_parent_dir_def split: option.splits)
  ultimately show ?thesis
    using assms by (auto simp: write_file_atomic_def Let_def w rc1 failpoint_hit_def)
qed

lemma write_file_atomic_late_error_witness:
  "fst (write_file_atomic ((wfa_good ''abcdef'')\<lparr>we_dirsync := False\<rparr>) ''/d/f'' [1, 2] fs_empty) = -1"
proof -
  let ?e = "(wfa_good ''abcdef'')\<lparr>we_dirsync := False\<rparr>"
  obtain rc h where run: "write_file_atomic ?e ''/d/f'' [1, 2] fs_empty = (rc, h)" by fastforce
  have "rc = -1 \<and> fs_read (hd h) ''/d/f'' = Some [1, 2]"
    by (rule write_file_atomic_late_error [OF _ _ _ _ _ _ _ _ run])
      (simp_all add: wfa_good_def TMP_PATH_SIZE_def)
  with run show ?thesis by simp
qed

section \<open>Paths an atomic write does not touch\<close>

definition other_path :: "fs \<Rightarrow> string \<Rightarrow> fs \<Rightarrow> bool" where
  "other_path fs p s \<longleftrightarrow> fs_dir s p = fs_dir fs p \<and>
     set (fs_disk s p) \<subseteq> insert (fs_dir fs p) (set (fs_disk fs p)) \<and> (fs_disk fs p \<noteq> [] \<longrightarrow> fs_disk s p \<noteq> []) \<and>
     (\<forall>i < fs_next fs. fs_data s i = fs_data fs i \<and> fs_sync s i = fs_sync fs i)"

lemma other_path_refl [simp]: "other_path fs p fs"
  by (auto simp: other_path_def)

lemma other_path_bind: "other_path fs p s \<Longrightarrow> p \<noteq> q \<Longrightarrow> other_path fs p (fs_bind q b s)"
  by (simp add: other_path_def fs_bind_def)

lemma other_path_create: "p \<noteq> q \<Longrightarrow> other_path fs p (fs_create q fs)"
  by (auto simp: other_path_def fs_create_def fs_bind_def)

lemma other_path_touch: "other_path fs p s \<Longrightarrow> touch_only (fs_next fs) s t \<Longrightarrow> other_path fs p t"
  by (auto simp: other_path_def touch_only_def)

lemma other_path_rename: "other_path fs p s \<Longrightarrow> p \<noteq> q \<Longrightarrow> p \<noteq> r \<Longrightarrow> other_path fs p (fs_rename q r s)"
  by (simp add: other_path_bind fs_rename_def)

lemma other_path_dirsync: "other_path fs p s \<Longrightarrow> fsync_parent_dir o1 o2 q s = (rc, t) \<Longrightarrow> other_path fs p t"
  by (auto simp: other_path_def fsync_parent_dir_def fs_dirsync_def split: if_splits option.splits)

lemma fsync_parent_next: "fsync_parent_dir o1 o2 q s = (rc, t) \<Longrightarrow> fs_next t = fs_next s \<and> fs_dirs t = fs_dirs s"
  by (auto simp: fsync_parent_dir_def fs_dirsync_def split: if_splits option.splits)

lemma other_path_reads:
  assumes "other_path fs p s" and "fs_wf fs" and "fs_dir fs p \<in> set (fs_disk fs p)"
  shows "fs_read s p = fs_read fs p" "crash_reads s p c \<Longrightarrow> crash_reads fs p c"
proof -
  show "fs_read s p = fs_read fs p"
    using assms(1,2) by (cases "fs_dir fs p") (auto simp: fs_read_def other_path_def fs_wf_def)
  assume "crash_reads s p c"
  then obtain b where b: "b \<in> set (fs_disk s p)"
    "case b of None \<Rightarrow> c = None | Some i \<Rightarrow> \<exists>d. c = Some d \<and> (fs_sync s i = None \<or> fs_sync s i = Some d)"
    unfolding crash_reads_def by blast
  have old: "b \<in> set (fs_disk fs p)" using b(1) assms(1,3) by (auto simp: other_path_def)
  moreover have "case b of None \<Rightarrow> c = None
      | Some i \<Rightarrow> \<exists>d. c = Some d \<and> (fs_sync fs i = None \<or> fs_sync fs i = Some d)"
    using b(2) old assms(1,2) by (cases b) (auto simp: other_path_def fs_wf_def)
  ultimately show "crash_reads fs p c" unfolding crash_reads_def by blast
qed

lemma write_file_atomic_other:
  assumes "write_file_atomic e path data fs = (rc, h)" and "p \<noteq> path" and "\<forall>sfx. p \<noteq> tmp_name path sfx"
  shows "other_path fs p (hd h)"
proof (cases "TMP_PATH_SIZE \<le> length path + 11 \<or> we_mkstemp e = None")
  case True
  then show ?thesis using assms(1) by (auto simp: write_file_atomic_def split: if_splits)
next
  case False
  then obtain sfx where sfx: "we_mkstemp e = Some sfx" and len: "\<not> TMP_PATH_SIZE \<le> length path + 11" by auto
  let ?tmp = "tmp_name path sfx" and ?fd = "fs_next fs"
  obtain rc1 h1 where w: "write_all ?fd data (we_writes e) [fs_create ?tmp fs, fs] = (rc1, h1)" by fastforce
  have neq: "p \<noteq> ?tmp" using assms(3) by blast
  have h1: "touch_only ?fd (fs_create ?tmp fs) (hd h1)"
    using write_all_spec [OF _ w] by simp
  have o1: "other_path fs p (hd h1)" by (rule other_path_touch [OF other_path_create [OF neq] h1])
  have o2: "other_path fs p (fs_fsync ?fd (hd h1))" by (rule other_path_touch [OF o1 touch_only_fsync])
  let ?r = "fs_rename ?tmp path (fs_fsync ?fd (hd h1))"
  have o3: "other_path fs p ?r" by (rule other_path_rename [OF o2 neq assms(2)])
  obtain rc7 t where sync: "fsync_parent_dir (we_opendir e) (we_dirsync e) path ?r = (rc7, t)" by fastforce
  have o4: "other_path fs p t" by (rule other_path_dirsync [OF o3 sync])
  show ?thesis
    using assms(1) sfx len sync o1 o2 o3 o4 neq
    by (auto simp: write_file_atomic_def Let_def w intro!: other_path_bind split: if_splits prod.splits)
qed

text \<open>The contents at a path, now and after a power failure.\<close>

definition durable :: "fs \<Rightarrow> string \<Rightarrow> bytes \<Rightarrow> bool" where
  "durable fs p data \<longleftrightarrow> fs_read fs p = Some data \<and> (\<forall>c. crash_reads fs p c \<longleftrightarrow> c = Some data)"

text \<open>A working card: calls may be interrupted and writes short, but nothing fails.\<close>

definition wfa_works :: "wfa_env \<Rightarrow> bool" where
  "wfa_works e \<longleftrightarrow> we_mkstemp e \<noteq> None \<and> WriteFail False \<notin> set (we_writes e) \<and> we_fsync e \<and> we_close e \<and>
     we_failpoint e = None \<and> we_rename e \<and> we_opendir e \<and> we_dirsync e"

lemma wfa_works_zero:
  assumes "wfa_works e" and "length path < 160" and "parent_dir path \<noteq> None"
  shows "fst (write_file_atomic e path data fs) = 0"
proof -
  obtain sfx where sfx: "we_mkstemp e = Some sfx" using assms(1) by (auto simp: wfa_works_def)
  let ?tmp = "tmp_name path sfx" and ?fd = "fs_next fs"
  obtain rc1 h1 where w: "write_all ?fd data (we_writes e) [fs_create ?tmp fs, fs] = (rc1, h1)"
    by fastforce
  have "rc1 = 0" using write_all_spec [OF _ w] assms(1) by (auto simp: wfa_works_def)
  moreover have "path \<noteq> []" using assms(3) by (auto simp: parent_dir_def)
  ultimately show ?thesis
    using assms w sfx
    by (auto simp: write_file_atomic_def wfa_works_def TMP_PATH_SIZE_def Let_def failpoint_hit_def fsync_parent_dir_def
        split: option.splits)
qed

lemma wfa_good_works: "wfa_works (wfa_good sfx)"
  by (simp add: wfa_works_def wfa_good_def)

lemma wfa_good_zero:
  assumes "length path < 160" and "parent_dir path \<noteq> None"
  shows "fst (write_file_atomic (wfa_good sfx) path data fs) = 0"
  by (rule wfa_works_zero [OF wfa_good_works assms])

lemma parent_dir_some: "parent_dir (a @ CHR ''/'' # b) \<noteq> None"
proof -
  have "dropWhile (\<lambda>c. c \<noteq> CHR ''/'') (rev b @ CHR ''/'' # rev a) \<noteq> []"
    by (simp add: dropWhile_eq_Nil_conv)
  then show ?thesis by (simp add: parent_dir_def split: list.splits)
qed

lemma parent_dir_file:
  assumes "CHR ''/'' \<notin> set b" and "a \<noteq> []"
  shows "parent_dir (a @ CHR ''/'' # b) = Some a"
proof -
  have "dropWhile (\<lambda>c. c \<noteq> CHR ''/'') (rev b @ CHR ''/'' # rev a) = CHR ''/'' # rev a"
    using assms(1) by (subst dropWhile_append2) auto
  then show ?thesis using assms(2) by (simp add: parent_dir_def)
qed

section \<open>Replacement as an interface\<close>

lemma fs_next_simps [simp]:
  "fs_next (fs_bind q b s) = fs_next s" "fs_next (fs_rename q r s) = fs_next s" "fs_next (fs_fsync i s) = fs_next s"
  "fs_next (fs_create q s) = Suc (fs_next s)"
  "fs_dirs (fs_bind q b s) = fs_dirs s" "fs_dirs (fs_rename q r s) = fs_dirs s" "fs_dirs (fs_fsync i s) = fs_dirs s"
  "fs_dirs (fs_create q s) = fs_dirs s"
  by (simp_all add: fs_bind_def fs_rename_def fs_fsync_def fs_create_def)

lemma write_file_atomic_next:
  assumes "write_file_atomic e path data fs = (rc, h)"
  shows "fs_next fs \<le> fs_next (hd h) \<and> fs_dirs (hd h) = fs_dirs fs \<and> (rc = 0 \<longrightarrow> fs_next (hd h) = Suc (fs_next fs))"
proof (cases "TMP_PATH_SIZE \<le> length path + 11 \<or> we_mkstemp e = None")
  case True
  then show ?thesis using assms(1) by (auto simp: write_file_atomic_def split: if_splits)
next
  case False
  then obtain sfx where sfx: "we_mkstemp e = Some sfx" and len: "\<not> TMP_PATH_SIZE \<le> length path + 11" by auto
  let ?tmp = "tmp_name path sfx" and ?fd = "fs_next fs"
  obtain rc1 h1 where w: "write_all ?fd data (we_writes e) [fs_create ?tmp fs, fs] = (rc1, h1)" by fastforce
  have n1: "fs_next (hd h1) = Suc ?fd" "fs_dirs (hd h1) = fs_dirs fs" using write_all_spec [OF _ w] by (simp_all add: touch_only_def)
  let ?r = "fs_rename ?tmp path (fs_fsync ?fd (hd h1))"
  obtain rc7 t where sync: "fsync_parent_dir (we_opendir e) (we_dirsync e) path ?r = (rc7, t)" by fastforce
  have n4: "fs_next t = Suc ?fd" "fs_dirs t = fs_dirs fs" using fsync_parent_next [OF sync] n1 by simp_all
  show ?thesis
    using assms(1) sfx len sync n1 n4
    by (auto simp: write_file_atomic_def Let_def w split: if_splits prod.splits)
qed

text \<open>
  What a client of the atomic replacement relies on: a successful one commits the contents, one of
  another file leaves a path as it was, and what is committed stays so while nothing touches it.
\<close>

locale atomic_replacement =
  fixes put :: "'e \<Rightarrow> 'p \<Rightarrow> 'c \<Rightarrow> 's \<Rightarrow> int \<times> 's"
    and committed :: "'s \<Rightarrow> 'p \<Rightarrow> 'c \<Rightarrow> bool"
    and same :: "'s \<Rightarrow> 'p \<Rightarrow> 's \<Rightarrow> bool"
    and apart :: "'p \<Rightarrow> 'p \<Rightarrow> bool"
  assumes put_commits: "put e p c s = (0, s') \<Longrightarrow> committed s' p c"
    and put_same: "put e q c s = (rc, s') \<Longrightarrow> apart p q \<Longrightarrow> same s p s'"
    and committed_same: "committed s p c \<Longrightarrow> same s p s' \<Longrightarrow> committed s' p c"
begin

text \<open>Two files replaced in turn, as a segment and its playlist are.\<close>

lemma put_in_turn:
  assumes "put e1 p c s = (0, s1)" and "put e2 q d s1 = (rc, s2)" and "apart p q"
  shows "committed s2 p c \<and> (rc = 0 \<longrightarrow> committed s2 q d)"
  using committed_same [OF put_commits [OF assms(1)] put_same [OF assms(2,3)]] put_commits assms(2) by blast

end

text \<open>The contents a path has on the card and in memory, on a synced node of its own.\<close>

definition committed :: "fs \<Rightarrow> string \<Rightarrow> bytes \<Rightarrow> bool" where
  "committed fs p data \<longleftrightarrow> (\<exists>i < fs_next fs. fs_dir fs p = Some i \<and> set (fs_disk fs p) = {Some i} \<and>
     fs_data fs i = data \<and> fs_sync fs i = Some data)"

definition paths_apart :: "string \<Rightarrow> string \<Rightarrow> bool" where
  "paths_apart p q \<longleftrightarrow> p \<noteq> q \<and> (\<forall>sfx. p \<noteq> tmp_name q sfx)"

definition same_path :: "fs \<Rightarrow> string \<Rightarrow> fs \<Rightarrow> bool" where
  "same_path fs p s \<longleftrightarrow> other_path fs p s \<and> fs_next fs \<le> fs_next s"

lemma committed_durable:
  assumes "committed fs p data"
  shows "durable fs p data"
proof -
  obtain i where "fs_dir fs p = Some i" "set (fs_disk fs p) = {Some i}" "fs_data fs i = data" "fs_sync fs i = Some data"
    using assms unfolding committed_def by blast
  then show ?thesis by (simp add: durable_def fs_read_def crash_reads_def)
qed

definition replace_file :: "wfa_env \<Rightarrow> string \<Rightarrow> bytes \<Rightarrow> fs \<Rightarrow> int \<times> fs" where
  "replace_file e p data fs = (case write_file_atomic e p data fs of (rc, h) \<Rightarrow> (rc, hd h))"

lemma replace_commits:
  assumes "replace_file e p data fs = (0, s)"
  shows "committed s p data"
proof -
  obtain h where h: "write_file_atomic e p data fs = (0, h)" "s = hd h"
    using assms by (auto simp: replace_file_def split: prod.splits)
  then have "after_rename fs p data s" "fs_disk s p = [Some (fs_next fs)]" "fs_next s = Suc (fs_next fs)"
    using write_file_atomic_cases [OF h(1)] write_file_atomic_next [OF h(1)] by simp_all
  then show ?thesis by (auto simp: committed_def after_rename_def)
qed

interpretation card: atomic_replacement replace_file committed same_path paths_apart
proof
  fix e p data fs s
  assume "replace_file e p data fs = (0, s)"
  then show "committed s p data" by (rule replace_commits)
next
  fix e q data fs rc s p
  assume "replace_file e q data fs = (rc, s)" and "paths_apart p q"
  then show "same_path fs p s"
    using write_file_atomic_other [of e q data fs] write_file_atomic_next [of e q data fs]
    by (auto simp: replace_file_def paths_apart_def same_path_def split: prod.splits)
next
  fix fs p data s
  assume c: "committed fs p data" and "same_path fs p s"
  then obtain i where i: "i < fs_next fs" "fs_dir fs p = Some i" "set (fs_disk fs p) = {Some i}" "fs_data fs i = data"
      "fs_sync fs i = Some data" "other_path fs p s" "fs_next fs \<le> fs_next s"
    by (auto simp: committed_def same_path_def)
  have "fs_disk s p \<noteq> []" "set (fs_disk s p) \<subseteq> {Some i}" using i by (auto simp: other_path_def)
  then have "set (fs_disk s p) = {Some i}" by (cases "fs_disk s p") auto
  then show "committed s p data" using i by (auto simp: committed_def other_path_def)
qed

end
