(* ===== verification/HlsMedia.thy ===== *)
theory HlsMedia
  imports Prelude
begin

text \<open>
  The HLS segmenter, \<open>3rdparty/media-server-local/hls-media.c\<close>. The MPEG-TS generator, the stream
  types and the constant \<open>PTS_NO_VALUE\<close> belong to the media-server submodule and are parameters: a
  generator state, its operations, and the packets a write produces.
\<close>

section \<open>The generator\<close>

record 'ts mpeg_ts =
  ts_create :: "'ts option"
  ts_reset :: "'ts \<Rightarrow> 'ts"
  ts_add_stream :: "'ts \<Rightarrow> int \<Rightarrow> 'ts \<times> int"
  ts_write :: "'ts \<Rightarrow> int \<Rightarrow> bool \<Rightarrow> int \<Rightarrow> int \<Rightarrow> bytes option \<Rightarrow> 'ts \<times> bytes list \<times> int"
  ts_nomem :: "'ts \<Rightarrow> 'ts \<times> int"
  ts_is_audio :: "int \<Rightarrow> bool"
  ts_is_video :: "int \<Rightarrow> bool"
  ts_no_value :: int

text \<open>
  \<open>ts_write\<close> gives the packets the generator passes to its callbacks, one \<open>alloc\<close>, \<open>write\<close>,
  \<open>free\<close> for each; \<open>ts_nomem\<close> is how it ends when an \<open>alloc\<close> fails.
\<close>

section \<open>The segmenter's state\<close>

definition N_TS_PACKET :: nat where "N_TS_PACKET = 188"
definition N_TS_FILESIZE :: nat where "N_TS_FILESIZE = 100 * 1024 * 1024"

text \<open>
  \<open>hm_ptr\<close> holds the first \<open>bytes\<close> bytes of the buffer, whose size is \<open>hm_capacity\<close>.
\<close>

record 'ts hls_media_t =
  hm_ts :: 'ts
  hm_ptr :: bytes
  hm_capacity :: nat
  hm_maxsize :: nat
  hm_duration :: int
  hm_dts_last :: int
  hm_dts :: int
  hm_pts :: int
  hm_audio :: int
  hm_video :: int
  hm_audio_only_flag :: bool

text \<open>
  The three callbacks. An assertion that fails is \<open>None\<close>; \<open>hls_ts_alloc\<close> answers whether the
  packet has room, growing the buffer if \<open>realloc\<close> succeeds.
\<close>

definition hls_ts_alloc :: "bool \<Rightarrow> nat \<Rightarrow> 'ts hls_media_t \<Rightarrow> ('ts hls_media_t \<times> bool) option" where
  "hls_ts_alloc realloc_ok n hls =
     (if n \<noteq> N_TS_PACKET \<or> hm_capacity hls < length (hm_ptr hls) then None
      else if hm_capacity hls - length (hm_ptr hls) < n
      then (if realloc_ok then Some (hls\<lparr>hm_capacity := hm_capacity hls + (n + N_TS_PACKET * 10 * 1024)\<rparr>, True)
            else Some (hls, False))
      else Some (hls, True))"

definition hls_ts_write :: "bytes \<Rightarrow> 'ts hls_media_t \<Rightarrow> 'ts hls_media_t option" where
  "hls_ts_write packet hls =
     (if length packet \<noteq> N_TS_PACKET \<or> hm_capacity hls \<le> length (hm_ptr hls) then None
      else Some (hls\<lparr>hm_ptr := hm_ptr hls @ packet\<rparr>))"

text \<open>The packet just written ends the contents and lies inside the buffer.\<close>

definition hls_ts_free :: "bytes \<Rightarrow> 'ts hls_media_t \<Rightarrow> 'ts hls_media_t option" where
  "hls_ts_free packet hls =
     (if drop (length (hm_ptr hls) - N_TS_PACKET) (hm_ptr hls) \<noteq> packet
         \<or> hm_capacity hls \<le> length (hm_ptr hls) - N_TS_PACKET then None
      else Some hls)"

fun ts_emit :: "bool \<Rightarrow> bytes list \<Rightarrow> 'ts hls_media_t \<Rightarrow> ('ts hls_media_t \<times> bool) option" where
  "ts_emit realloc_ok [] hls = Some (hls, True)"
| "ts_emit realloc_ok (p # ps) hls =
     (case hls_ts_alloc realloc_ok (length p) hls of
        None \<Rightarrow> None
      | Some (hls1, room) \<Rightarrow>
          if \<not> room then Some (hls1, False)
          else (case hls_ts_write p hls1 of
                  None \<Rightarrow> None
                | Some hls2 \<Rightarrow>
                    (case hls_ts_free p hls2 of
                       None \<Rightarrow> None
                     | Some hls3 \<Rightarrow> ts_emit realloc_ok ps hls3)))"

section \<open>Operations\<close>

definition hls_media_create :: "'ts mpeg_ts \<Rightarrow> bool \<Rightarrow> int \<Rightarrow> 'ts hls_media_t option" where
  "hls_media_create mts malloc_ok duration =
     (if \<not> malloc_ok then None
      else case ts_create mts of
        None \<Rightarrow> None
      | Some ts \<Rightarrow> Some \<lparr>hm_ts = ts, hm_ptr = [], hm_capacity = 0, hm_maxsize = N_TS_FILESIZE,
          hm_duration = duration, hm_dts_last = ts_no_value mts, hm_dts = ts_no_value mts,
          hm_pts = ts_no_value mts, hm_audio = -1, hm_video = -1, hm_audio_only_flag = False\<rparr>)"

definition hls_media_add_stream :: "'ts mpeg_ts \<Rightarrow> int \<Rightarrow> 'ts hls_media_t \<Rightarrow> 'ts hls_media_t \<times> int" where
  "hls_media_add_stream mts avtype hls =
     (if ts_is_audio mts avtype
      then (if hm_audio hls = -1
            then (case ts_add_stream mts (hm_ts hls) avtype of (ts, s) \<Rightarrow> (hls\<lparr>hm_ts := ts, hm_audio := s\<rparr>, s))
            else (hls, hm_audio hls))
      else (if hm_video hls = -1
            then (case ts_add_stream mts (hm_ts hls) avtype of (ts, s) \<Rightarrow> (hls\<lparr>hm_ts := ts, hm_video := s\<rparr>, s))
            else (hls, hm_video hls)))"

text \<open>
  \<open>hls_media_input\<close> with the handler as an argument: it takes the segment's bytes, \<open>pts\<close>, \<open>dts\<close>
  and duration, and a state of its own. \<open>key\<close> is \<open>HLS_FLAGS_KEYFRAME & flags\<close>. A failed
  assertion is \<open>None\<close>.
\<close>

type_synonym 's hls_handler = "bytes \<Rightarrow> int \<Rightarrow> int \<Rightarrow> int \<Rightarrow> 's \<Rightarrow> int \<times> 's"

definition hls_cut :: "bool \<Rightarrow> int \<Rightarrow> 'ts hls_media_t \<Rightarrow> bool" where
  "hls_cut key dts hls =
     (if (hm_duration hls \<le> dts - hm_dts hls \<or> hm_duration hls = 0)
         \<and> (key \<or> hm_maxsize hls \<le> length (hm_ptr hls)) then True
      else hm_audio_only_flag hls \<and> hm_duration hls \<le> dts - hm_dts hls)"

definition hls_force :: "bytes option \<Rightarrow> nat \<Rightarrow> int \<Rightarrow> 'ts hls_media_t \<Rightarrow> bool" where
  "hls_force data bytes dts hls \<longleftrightarrow> dts + hm_duration hls < hm_dts_last hls \<or> data = None \<or> bytes = 0"

text \<open>Closing the open segment, if the frame starts a new one, and starting it.\<close>

definition hls_roll ::
  "'ts mpeg_ts \<Rightarrow> 's hls_handler \<Rightarrow> bool \<Rightarrow> bool \<Rightarrow> int \<Rightarrow> int \<Rightarrow> 'ts hls_media_t \<Rightarrow> 's
     \<Rightarrow> int \<times> 'ts hls_media_t \<times> 's" where
  "hls_roll mts handler force segment pts dts hls s =
     (if hm_ptr hls = [] \<or> segment \<or> force then
        let duration = (if force \<or> hm_dts_last hls + 100 < dts then hm_dts_last hls else dts) - hm_dts hls;
            (r, s1) = (if hm_ptr hls \<noteq> [] then handler (hm_ptr hls) (hm_pts hls) (hm_dts hls) duration s
                       else (0, s))
        in if r \<noteq> 0 then (r, hls, s1)
           else (0, hls\<lparr>hm_ts := (if hm_ptr hls \<noteq> [] then ts_reset mts (hm_ts hls) else hm_ts hls),
                        hm_ptr := [], hm_dts := dts, hm_pts := pts, hm_audio_only_flag := True\<rparr>, s1)
      else (0, hls, s))"

text \<open>Writing the frame into the open segment.\<close>

definition hls_put ::
  "'ts mpeg_ts \<Rightarrow> bool \<Rightarrow> int \<Rightarrow> int \<Rightarrow> bytes option \<Rightarrow> nat \<Rightarrow> int \<Rightarrow> int \<Rightarrow> bool \<Rightarrow> 'ts hls_media_t
     \<Rightarrow> (int \<times> 'ts hls_media_t) option" where
  "hls_put mts realloc_ok avtype stream data bytes pts dts key hls =
     (let hls1 = (if hm_audio_only_flag hls \<and> ts_is_video mts avtype
                  then hls\<lparr>hm_audio_only_flag := False\<rparr> else hls);
          hls2 = hls1\<lparr>hm_dts_last := dts\<rparr>
      in case ts_write mts (hm_ts hls2) stream key (pts * 90) (dts * 90) (map_option (take bytes) data) of
           (ts', packets, rc) \<Rightarrow>
             (case ts_emit realloc_ok packets hls2 of
                None \<Rightarrow> None
              | Some (hls3, room) \<Rightarrow>
                  if room then Some (rc, hls3\<lparr>hm_ts := ts'\<rparr>)
                  else (case ts_nomem mts (hm_ts hls3) of
                          (ts'', rc') \<Rightarrow> Some (rc', hls3\<lparr>hm_ts := ts''\<rparr>))))"

definition hls_continuous :: "'ts mpeg_ts \<Rightarrow> int \<Rightarrow> 'ts hls_media_t \<Rightarrow> bool" where
  "hls_continuous mts dts hls \<longleftrightarrow> hm_duration hls = 0 \<or> dts < hm_dts_last hls + hm_duration hls
     \<or> ts_no_value mts = hm_dts_last hls"

definition hls_media_input ::
  "'ts mpeg_ts \<Rightarrow> 's hls_handler \<Rightarrow> bool \<Rightarrow> int \<Rightarrow> bytes option \<Rightarrow> nat \<Rightarrow> int \<Rightarrow> int \<Rightarrow> bool
     \<Rightarrow> 'ts hls_media_t \<Rightarrow> 's \<Rightarrow> (int \<times> 'ts hls_media_t \<times> 's) option" where
  "hls_media_input mts handler realloc_ok avtype data bytes pts dts key hls0 s =
     (if \<not> hls_continuous mts dts hls0 then None
      else
        case hls_media_add_stream mts avtype hls0 of (hls1, stream) \<Rightarrow>
          (case hls_roll mts handler (hls_force data bytes dts hls1) (hls_cut key dts hls1) pts dts hls1 s of
             (r, hls2, s2) \<Rightarrow>
               if r \<noteq> 0 then Some (r, hls2, s2)
               else (case hls_put mts realloc_ok avtype stream data bytes pts dts key hls2 of
                       None \<Rightarrow> None
                     | Some (rc, hls3) \<Rightarrow> Some (rc, hls3, s2))))"

text \<open>What it frees besides the structure itself: the buffer, whose capacity must not be zero.\<close>

definition hls_media_destroy :: "'ts hls_media_t \<Rightarrow> bool \<Rightarrow> bytes list option" where
  "hls_media_destroy hls has_ptr =
     (if has_ptr then (if hm_capacity hls = 0 then None else Some [hm_ptr hls]) else Some [])"

section \<open>The buffer\<close>

text \<open>The assertions of the callbacks hold for packets of the right size.\<close>

definition hls_inv :: "'ts hls_media_t \<Rightarrow> bool" where
  "hls_inv hls \<longleftrightarrow> length (hm_ptr hls) \<le> hm_capacity hls"

definition packets_ok :: "bytes list \<Rightarrow> bool" where
  "packets_ok ps \<longleftrightarrow> (\<forall>p\<in>set ps. length p = N_TS_PACKET)"

definition mts_ok :: "'ts mpeg_ts \<Rightarrow> bool" where
  "mts_ok mts \<longleftrightarrow> (\<forall>ts st k p d data. packets_ok (fst (snd (ts_write mts ts st k p d data))))"

lemma packets_ok_Cons [simp]: "packets_ok (p # ps) \<longleftrightarrow> length p = N_TS_PACKET \<and> packets_ok ps"
  by (auto simp: packets_ok_def)

definition same_segment :: "'ts hls_media_t \<Rightarrow> 'ts hls_media_t \<Rightarrow> bool" where
  "same_segment a b \<longleftrightarrow> hm_ts b = hm_ts a \<and> hm_maxsize b = hm_maxsize a \<and> hm_duration b = hm_duration a \<and>
     hm_dts_last b = hm_dts_last a \<and> hm_dts b = hm_dts a \<and> hm_pts b = hm_pts a \<and> hm_audio b = hm_audio a \<and>
     hm_video b = hm_video a \<and> hm_audio_only_flag b = hm_audio_only_flag a"

lemma same_segment_refl [simp]: "same_segment a a"
  by (simp add: same_segment_def)

lemma ts_emit_spec:
  assumes "hls_inv hls" and "packets_ok ps"
  shows "\<exists>hls' room. ts_emit ok ps hls = Some (hls', room) \<and> hls_inv hls' \<and> same_segment hls hls' \<and>
    (\<exists>k \<le> length ps. hm_ptr hls' = hm_ptr hls @ concat (take k ps) \<and> (room \<longrightarrow> k = length ps)) \<and>
    (ok \<longrightarrow> room)"
  using assms
proof (induction ps arbitrary: hls)
  case Nil
  then show ?case by (auto simp: same_segment_def)
next
  case (Cons p ps)
  have p: "length p = N_TS_PACKET" "0 < N_TS_PACKET" and ps: "packets_ok ps"
    using Cons.prems by (simp_all add: N_TS_PACKET_def)
  define room1 where "room1 \<longleftrightarrow> ok \<or> length p \<le> hm_capacity hls - length (hm_ptr hls)"
  define hls1 where "hls1 = (if hm_capacity hls - length (hm_ptr hls) < length p \<and> ok
    then hls\<lparr>hm_capacity := hm_capacity hls + (length p + N_TS_PACKET * 10 * 1024)\<rparr> else hls)"
  have alloc: "hls_ts_alloc ok (length p) hls = Some (hls1, room1)"
    using Cons.prems p by (auto simp: hls_ts_alloc_def hls1_def room1_def hls_inv_def)
  show ?case
  proof (cases room1)
    case False
    then have "hls1 = hls" by (simp add: hls1_def room1_def)
    with alloc False have "ts_emit ok (p # ps) hls = Some (hls, False)" by simp
    moreover have "\<not> ok" using False by (simp add: room1_def)
    moreover have "hm_ptr hls = hm_ptr hls @ concat (take 0 (p # ps))" by simp
    ultimately show ?thesis using Cons.prems(1) by (metis le0 same_segment_refl)
  next
    case True
    let ?hls2 = "hls1\<lparr>hm_ptr := hm_ptr hls1 @ p\<rparr>"
    have cap: "length (hm_ptr hls1) + length p \<le> hm_capacity hls1" "hm_ptr hls1 = hm_ptr hls"
      using True Cons.prems p by (auto simp: hls1_def room1_def hls_inv_def)
    have "hls_ts_write p hls1 = Some ?hls2" using cap p by (simp add: hls_ts_write_def)
    moreover have "hls_ts_free p ?hls2 = Some ?hls2" using cap p by (simp add: hls_ts_free_def)
    ultimately have emit: "ts_emit ok (p # ps) hls = ts_emit ok ps ?hls2"
      using alloc True by simp
    have seg: "same_segment hls ?hls2" by (simp add: same_segment_def hls1_def)
    have "hls_inv ?hls2" using cap by (simp add: hls_inv_def)
    from Cons.IH [OF this ps] obtain hls' room k where
      rest: "ts_emit ok ps ?hls2 = Some (hls', room)" "hls_inv hls'" "same_segment ?hls2 hls'"
        "k \<le> length ps" "hm_ptr hls' = hm_ptr ?hls2 @ concat (take k ps)" "room \<longrightarrow> k = length ps"
        "ok \<longrightarrow> room"
      by blast
    have "same_segment hls hls'"
      using seg rest(3) by (simp add: same_segment_def)
    moreover have "hm_ptr hls' = hm_ptr hls @ concat (take (Suc k) (p # ps))"
      using rest(5) cap(2) by simp
    moreover have "Suc k \<le> length (p # ps)" "room \<longrightarrow> Suc k = length (p # ps)"
      using rest(4,6) by simp_all
    ultimately show ?thesis using emit rest(1,2,7) by metis
  qed
qed

end
