(* ===== verification/HlsProps.thy ===== *)
theory HlsProps
  imports HlsMedia
begin

text \<open>
  What the segmenter guarantees: its assertions, one segment per group of pictures in the daemon's
  configuration, and what a failing handler leaves behind.
\<close>

section \<open>Assertions\<close>

lemma hls_inv_fields [simp]:
  "hls_inv (h\<lparr>hm_ts := a\<rparr>) = hls_inv h" "hls_inv (h\<lparr>hm_pts := p\<rparr>) = hls_inv h"
  "hls_inv (h\<lparr>hm_dts := p\<rparr>) = hls_inv h" "hls_inv (h\<lparr>hm_dts_last := p\<rparr>) = hls_inv h"
  "hls_inv (h\<lparr>hm_audio_only_flag := b\<rparr>) = hls_inv h" "hls_inv (h\<lparr>hm_audio := p\<rparr>) = hls_inv h"
  "hls_inv (h\<lparr>hm_video := p\<rparr>) = hls_inv h"
  by (simp_all add: hls_inv_def)

lemma hls_inv_empty [simp]: "hls_inv (h\<lparr>hm_ptr := []\<rparr>)"
  by (simp add: hls_inv_def)

lemma add_stream_fields:
  assumes "hls_media_add_stream mts avtype hls = (hls', v)"
  shows "hm_ptr hls' = hm_ptr hls" "hm_capacity hls' = hm_capacity hls" "hm_maxsize hls' = hm_maxsize hls"
    "hm_duration hls' = hm_duration hls" "hm_dts_last hls' = hm_dts_last hls" "hm_dts hls' = hm_dts hls"
    "hm_pts hls' = hm_pts hls" "hm_audio_only_flag hls' = hm_audio_only_flag hls"
  using assms by (auto simp: hls_media_add_stream_def split: if_splits prod.splits)

lemma add_stream_inv: "hls_media_add_stream mts avtype hls = (hls', v) \<Longrightarrow> hls_inv hls' = hls_inv hls"
  by (simp add: hls_inv_def add_stream_fields)

lemma hls_roll_inv:
  "hls_roll mts handler f g pts dts hls s = (r, hls', s') \<Longrightarrow> hls_inv hls \<Longrightarrow> hls_inv hls'"
  by (auto simp: hls_roll_def Let_def hls_inv_def split: if_splits prod.splits)

lemma hls_put_inv:
  assumes "mts_ok mts" and "hls_inv hls"
  shows "\<exists>rc hls'. hls_put mts ok avtype v data bytes pts dts key hls = Some (rc, hls') \<and> hls_inv hls'"
proof -
  define h where "h = (if hm_audio_only_flag hls \<and> ts_is_video mts avtype
    then hls\<lparr>hm_audio_only_flag := False\<rparr> else hls)\<lparr>hm_dts_last := dts\<rparr>"
  obtain ts' ps rc where w: "ts_write mts (hm_ts h) v key (pts * 90) (dts * 90) (map_option (take bytes) data)
      = (ts', ps, rc)" by (metis surj_pair)
  have "packets_ok ps" using assms(1) w unfolding mts_ok_def by (metis fst_conv snd_conv)
  moreover have "hls_inv h" using assms(2) by (simp add: h_def)
  ultimately obtain h' room where "ts_emit ok ps h = Some (h', room)" "hls_inv h'"
    using ts_emit_spec by blast
  then show ?thesis
    using w by (auto simp: hls_put_def Let_def h_def split: prod.splits)
qed

lemma hls_media_input_inv:
  assumes "mts_ok mts" and "hls_inv hls" and "hls_continuous mts dts hls"
  shows "\<exists>rc hls' s'. hls_media_input mts handler ok avtype data bytes pts dts key hls s = Some (rc, hls', s') \<and>
    hls_inv hls'"
proof -
  obtain h v where add: "hls_media_add_stream mts avtype hls = (h, v)" by fastforce
  obtain r h2 s2 where roll: "hls_roll mts handler (hls_force data bytes dts h) (hls_cut key dts h) pts dts h s
      = (r, h2, s2)" by (metis surj_pair)
  have inv: "hls_inv h2" using hls_roll_inv [OF roll] add_stream_inv [OF add] assms(2) by simp
  show ?thesis
    using assms(3) inv hls_put_inv [OF assms(1) inv, of ok avtype v data bytes pts dts key]
    by (auto simp: hls_media_input_def add roll)
qed

lemma hls_put_duration: "hls_put mts ok avtype v data bytes pts dts key hls = Some (rc, hls') \<Longrightarrow>
   mts_ok mts \<Longrightarrow> hls_inv hls \<Longrightarrow> hm_duration hls' = hm_duration hls"
proof -
  assume put: "hls_put mts ok avtype v data bytes pts dts key hls = Some (rc, hls')" and ok: "mts_ok mts" "hls_inv hls"
  define h where "h = (if hm_audio_only_flag hls \<and> ts_is_video mts avtype
    then hls\<lparr>hm_audio_only_flag := False\<rparr> else hls)\<lparr>hm_dts_last := dts\<rparr>"
  obtain ts' ps rc0 where w: "ts_write mts (hm_ts h) v key (pts * 90) (dts * 90) (map_option (take bytes) data)
      = (ts', ps, rc0)" by (metis surj_pair)
  have "packets_ok ps" using ok(1) w unfolding mts_ok_def by (metis fst_conv snd_conv)
  moreover have "hls_inv h" using ok(2) by (simp add: h_def)
  ultimately obtain h' room where e: "ts_emit ok ps h = Some (h', room)" "same_segment h h'"
    using ts_emit_spec by blast
  have ts: "hm_ts h = hm_ts hls" and d: "hm_duration h' = hm_duration hls"
    using e(2) by (simp_all add: h_def same_segment_def)
  have "hls_put mts ok avtype v data bytes pts dts key hls =
      (if room then Some (rc0, h'\<lparr>hm_ts := ts'\<rparr>)
       else case ts_nomem mts (hm_ts h') of (ts'', rc') \<Rightarrow> Some (rc', h'\<lparr>hm_ts := ts''\<rparr>))"
    unfolding hls_put_def Let_def h_def [symmetric] using w e(1) by simp
  then show ?thesis using put d by (auto split: if_splits prod.splits)
qed

text \<open>An input reaches the caller's state only through one call of the handler.\<close>

lemma hls_roll_state:
  assumes "hls_roll mts handler force seg pts dts hls s = (r, hls', s')"
  shows "hm_duration hls' = hm_duration hls \<and>
    (s' = s \<or> (\<exists>duration. s' = snd (handler (hm_ptr hls) (hm_pts hls) (hm_dts hls) duration s)))"
  using assms by (auto simp: hls_roll_def Let_def split: if_splits prod.splits) (metis snd_conv)+

lemma hls_media_input_state:
  assumes "hls_media_input mts handler ok avtype data bytes pts dts key hls s = Some (rc, hls', s')"
  shows "s' = s \<or> (\<exists>duration. s' = snd (handler (hm_ptr hls) (hm_pts hls) (hm_dts hls) duration s))"
proof -
  obtain h v where add: "hls_media_add_stream mts avtype hls = (h, v)" by fastforce
  obtain r h2 s2 where roll: "hls_roll mts handler (hls_force data bytes dts h) (hls_cut key dts h) pts dts h s
      = (r, h2, s2)" by (metis surj_pair)
  have "s' = s2" using assms by (auto simp: hls_media_input_def add roll split: if_splits option.splits prod.splits)
  then show ?thesis using hls_roll_state [OF roll] add_stream_fields [OF add] by simp
qed

text \<open>
  The contract of a handler as the segmenter's caller uses it: what one call of the handler keeps of the
  caller's state, an input keeps.
\<close>

locale segment_handler =
  fixes handler :: "'s hls_handler"
    and keeps :: "'s \<Rightarrow> 's \<Rightarrow> bool"
  assumes keeps_refl: "keeps s s"
    and handler_keeps: "keeps s (snd (handler data pts dts duration s))"
begin

lemma input_keeps:
  assumes "hls_media_input mts handler ok avtype data bytes pts dts key hls s = Some (rc, hls', s')"
  shows "keeps s s'"
  using hls_media_input_state [OF assms] keeps_refl handler_keeps by blast

end

lemma hls_media_input_duration:
  assumes "hls_media_input mts handler ok avtype data bytes pts dts key hls s = Some (rc, hls', s')"
    and "mts_ok mts" and "hls_inv hls"
  shows "hm_duration hls' = hm_duration hls \<and> hls_inv hls'"
proof -
  obtain h v where add: "hls_media_add_stream mts avtype hls = (h, v)" by fastforce
  obtain r h2 s2 where roll: "hls_roll mts handler (hls_force data bytes dts h) (hls_cut key dts h) pts dts h s
      = (r, h2, s2)" by (metis surj_pair)
  have inv: "hls_inv h2" using hls_roll_inv [OF roll] add_stream_inv [OF add] assms(3) by simp
  have two: "hm_duration h2 = hm_duration hls"
    using hls_roll_state [OF roll] add_stream_fields [OF add] by simp
  show ?thesis
  proof (cases "r = 0")
    case True
    then obtain rc' where "hls_put mts ok avtype v data bytes pts dts key h2 = Some (rc', hls')"
      using assms(1) by (auto simp: hls_media_input_def add roll split: if_splits option.splits prod.splits)
    moreover from this have "hls_inv hls'"
      using hls_put_inv [OF assms(2) inv, of ok avtype v data bytes pts dts key] by auto
    ultimately show ?thesis using two hls_put_duration [OF _ assms(2) inv] by simp
  next
    case False
    then show ?thesis
      using assms(1) inv two by (auto simp: hls_media_input_def add roll split: if_splits)
  qed
qed

text \<open>
C27: In a state the segmenter itself has built, with a generator that emits packets of 188 bytes, the
buffer never overflows and its four callback assertions hold on every path, failed allocations
included; the only assertion that can abort the daemon is the continuity check, exactly when a
segment duration is configured and a frame comes that long or longer after the previous one.\<close>

theorem hls_input_aborts_iff_gap:
  assumes "mts_ok mts" and "hls_inv hls"
  shows "(hls_media_input mts handler ok avtype data bytes pts dts key hls s = None \<longleftrightarrow>
      hm_duration hls \<noteq> 0 \<and> hm_dts_last hls \<noteq> ts_no_value mts \<and>
      hm_dts_last hls + hm_duration hls \<le> dts) \<and>
    (\<forall>rc hls' s'. hls_media_input mts handler ok avtype data bytes pts dts key hls s = Some (rc, hls', s')
       \<longrightarrow> hls_inv hls')"
proof (cases "hls_continuous mts dts hls")
  case True
  with hls_media_input_inv [OF assms True, of handler ok avtype data bytes pts key s] show ?thesis
    by (auto simp: hls_continuous_def)
next
  case False
  then show ?thesis by (auto simp: hls_media_input_def hls_continuous_def)
qed

text \<open>A generator for the witnesses: a packet of each frame's first byte, and the stream number 256.\<close>

definition toy_ts :: "nat mpeg_ts" where
  "toy_ts = \<lparr>ts_create = Some 0, ts_reset = (\<lambda>ts. 0), ts_add_stream = (\<lambda>ts av. (ts, 256)),
     ts_write = (\<lambda>ts v k p d data. (Suc ts, (case data of Some (b # bs) \<Rightarrow> [replicate 188 b] | _ \<Rightarrow> []), 0)),
     ts_nomem = (\<lambda>ts. (ts, -1)), ts_is_audio = (\<lambda>av. av = 15), ts_is_video = (\<lambda>av. av = 27),
     ts_no_value = -9223372036854775808\<rparr>"

lemma toy_ok: "mts_ok toy_ts"
  by (auto simp: mts_ok_def toy_ts_def packets_ok_def N_TS_PACKET_def split: option.splits list.splits)

definition toy_hls :: "int \<Rightarrow> int \<Rightarrow> nat hls_media_t" where
  "toy_hls duration prev = (the (hls_media_create toy_ts True duration))\<lparr>hm_dts_last := prev\<rparr>"

lemma toy_hls_inv: "hls_inv (toy_hls d l)"
  by (simp add: toy_hls_def hls_media_create_def toy_ts_def hls_inv_def)

lemma hls_input_aborts_iff_gap_witness:
  "hls_media_input toy_ts (\<lambda>buf pts dts dur s. (0, s)) True 27 (Some [1]) 1 5000 5000 True (toy_hls 2000 1000) ()
     = None"
  using hls_input_aborts_iff_gap [OF toy_ok toy_hls_inv [of 2000 1000],
      of "\<lambda>buf pts dts dur s. (0, s)" True 27 "Some [1]" 1 5000 5000 True "()"]
  by (simp add: toy_hls_def hls_media_create_def toy_ts_def)

section \<open>One segment per group of pictures\<close>

text \<open>The frames as \<open>ingest_frame\<close> passes them on: \<open>pts\<close> and \<open>dts\<close> are the same.\<close>

record seg_frame =
  sf_data :: bytes
  sf_key :: bool
  sf_ms :: int

fun hls_feed ::
  "'ts mpeg_ts \<Rightarrow> 's hls_handler \<Rightarrow> int \<Rightarrow> seg_frame list \<Rightarrow> 'ts hls_media_t \<Rightarrow> 's
     \<Rightarrow> ('ts hls_media_t \<times> 's) option" where
  "hls_feed mts handler avtype [] hls s = Some (hls, s)"
| "hls_feed mts handler avtype (f # fs) hls s =
     (case hls_media_input mts handler True avtype (Some (sf_data f)) (length (sf_data f))
             (sf_ms f) (sf_ms f) (sf_key f) hls s of
        None \<Rightarrow> None
      | Some (rc, hls', s') \<Rightarrow> hls_feed mts handler avtype fs hls' s')"

type_synonym segment = "bytes \<times> int \<times> int \<times> int"

definition seg_collect :: "segment list hls_handler" where
  "seg_collect buf pts dts dur segs = (0, segs @ [(buf, pts, dts, dur)])"

text \<open>The reference: cut the frames before every keyframe, and generate each group afresh.\<close>

definition frame_write :: "'ts mpeg_ts \<Rightarrow> int \<Rightarrow> 'ts \<Rightarrow> seg_frame \<Rightarrow> 'ts \<times> bytes list \<times> int" where
  "frame_write mts v ts f = ts_write mts ts v (sf_key f) (sf_ms f * 90) (sf_ms f * 90) (Some (sf_data f))"

fun gop_packets :: "'ts mpeg_ts \<Rightarrow> int \<Rightarrow> 'ts \<Rightarrow> seg_frame list \<Rightarrow> 'ts \<times> bytes" where
  "gop_packets mts v ts [] = (ts, [])"
| "gop_packets mts v ts (f # fs) =
     (case frame_write mts v ts f of (ts', ps, rc) \<Rightarrow>
        (case gop_packets mts v ts' fs of (ts'', b) \<Rightarrow> (ts'', concat ps @ b)))"

fun gop_split :: "seg_frame list \<Rightarrow> seg_frame list \<Rightarrow> seg_frame list list" where
  "gop_split cur [] = [cur]"
| "gop_split cur (f # fs) = (if sf_key f then cur # gop_split [f] fs else gop_split (cur @ [f]) fs)"

definition seg_duration :: "seg_frame list \<Rightarrow> int \<Rightarrow> int" where
  "seg_duration g next_ms = (if sf_ms (last g) + 100 < next_ms then sf_ms (last g) else next_ms) - sf_ms (hd g)"

fun ref_segments :: "'ts mpeg_ts \<Rightarrow> int \<Rightarrow> 'ts \<Rightarrow> seg_frame list list \<Rightarrow> segment list \<times> bytes" where
  "ref_segments mts v ts [] = ([], [])"
| "ref_segments mts v ts [g] = ([], snd (gop_packets mts v ts g))"
| "ref_segments mts v ts (g # h # gs) =
     (case gop_packets mts v ts g of (ts', b) \<Rightarrow>
        (case ref_segments mts v (ts_reset mts ts') (h # gs) of (segs, rest) \<Rightarrow>
           ((b, sf_ms (hd g), sf_ms (hd g), seg_duration g (sf_ms (hd h))) # segs, rest)))"

text \<open>What the reference needs of the generator and the frames.\<close>

definition gen_ok :: "'ts mpeg_ts \<Rightarrow> int \<Rightarrow> int \<Rightarrow> seg_frame list \<Rightarrow> bool" where
  "gen_ok mts avtype v frames \<longleftrightarrow>
     mts_ok mts \<and> \<not> ts_is_audio mts avtype \<and> ts_is_video mts avtype \<and> v \<noteq> -1 \<and>
     (\<forall>f\<in>set frames. sf_data f \<noteq> [] \<and> (\<forall>ts. concat (fst (snd (frame_write mts v ts f))) \<noteq> [])) \<and>
     (\<forall>ts fs. set fs \<subseteq> set frames \<longrightarrow> length fs \<le> length frames \<longrightarrow>
        length (snd (gop_packets mts v ts fs)) < N_TS_FILESIZE)"

lemma gop_packets_snoc:
  "gop_packets mts v ts (fs @ [f]) =
     (case gop_packets mts v ts fs of (ts', b) \<Rightarrow>
        (case frame_write mts v ts' f of (ts'', ps, rc) \<Rightarrow> (ts'', b @ concat ps)))"
  by (induction mts v ts fs rule: gop_packets.induct) (auto split: prod.splits)

definition open_segment :: "'ts mpeg_ts \<Rightarrow> int \<Rightarrow> 'ts \<Rightarrow> seg_frame list \<Rightarrow> 'ts hls_media_t \<Rightarrow> bool" where
  "open_segment mts v ts cur hls \<longleftrightarrow> cur \<noteq> [] \<and> gop_packets mts v ts cur = (hm_ts hls, hm_ptr hls) \<and>
     hm_ptr hls \<noteq> [] \<and> hm_dts hls = sf_ms (hd cur) \<and> hm_pts hls = sf_ms (hd cur) \<and>
     hm_dts_last hls = sf_ms (last cur) \<and> hm_duration hls = 0 \<and> hm_video hls = v \<and>
     \<not> hm_audio_only_flag hls \<and> hm_maxsize hls = N_TS_FILESIZE \<and> hls_inv hls"

text \<open>Writing one frame into a segment that holds \<open>cur\<close>.\<close>

lemma hls_put_frame:
  assumes "mts_ok mts" and "ts_is_video mts avtype" and "hls_inv hls"
    and "frame_write mts v (hm_ts hls) f = (ts', ps, rc)"
  shows "\<exists>hls'. hls_put mts True avtype v (Some (sf_data f)) (length (sf_data f)) (sf_ms f) (sf_ms f) (sf_key f) hls
      = Some (rc, hls') \<and> hls_inv hls' \<and> hm_ts hls' = ts' \<and> hm_ptr hls' = hm_ptr hls @ concat ps \<and>
    hm_dts hls' = hm_dts hls \<and> hm_pts hls' = hm_pts hls \<and> hm_dts_last hls' = sf_ms f \<and>
    hm_duration hls' = hm_duration hls \<and> hm_video hls' = hm_video hls \<and> \<not> hm_audio_only_flag hls' \<and>
    hm_maxsize hls' = hm_maxsize hls"
proof -
  define h where "h = (if hm_audio_only_flag hls \<and> ts_is_video mts avtype
    then hls\<lparr>hm_audio_only_flag := False\<rparr> else hls)\<lparr>hm_dts_last := sf_ms f\<rparr>"
  have h: "hls_inv h" "hm_ts h = hm_ts hls" "hm_ptr h = hm_ptr hls" "hm_dts h = hm_dts hls"
      "hm_pts h = hm_pts hls" "hm_dts_last h = sf_ms f" "hm_duration h = hm_duration hls"
      "hm_video h = hm_video hls" "\<not> hm_audio_only_flag h" "hm_maxsize h = hm_maxsize hls"
    using assms(2,3) by (auto simp: h_def)
  have "packets_ok ps" using assms(1,4) unfolding mts_ok_def frame_write_def by (metis fst_conv snd_conv)
  from ts_emit_spec [OF h(1) this, of True] obtain h' where
    h': "ts_emit True ps h = Some (h', True)" "hls_inv h'" "same_segment h h'" "hm_ptr h' = hm_ptr h @ concat ps"
    by auto
  then have "hls_put mts True avtype v (Some (sf_data f)) (length (sf_data f)) (sf_ms f) (sf_ms f) (sf_key f) hls
      = Some (rc, h'\<lparr>hm_ts := ts'\<rparr>)"
    using assms(4) h(2) by (simp add: hls_put_def Let_def frame_write_def h_def [symmetric])
  with h h' show ?thesis by (auto simp: same_segment_def)
qed

lemma hls_feed_same_gop:
  assumes "gen_ok mts avtype v frames" and "open_segment mts v ts cur hls" and "set (cur @ [f]) \<subseteq> set frames"
    and "length cur < length frames" and "\<not> sf_key f" and "sf_ms (last cur) \<le> sf_ms f"
  shows "\<exists>rc hls'. hls_media_input mts handler True avtype (Some (sf_data f)) (length (sf_data f))
      (sf_ms f) (sf_ms f) (sf_key f) hls s = Some (rc, hls', s) \<and> open_segment mts v ts (cur @ [f]) hls'"
proof -
  obtain ts' ps rc where w: "frame_write mts v (hm_ts hls) f = (ts', ps, rc)" by (metis surj_pair)
  have small: "length (hm_ptr hls) < N_TS_FILESIZE"
    using assms(1-4) unfolding gen_ok_def open_segment_def by (metis le_eq_less_or_eq le_supE set_append snd_conv)
  note G = assms(1)[unfolded gen_ok_def] and S = assms(2)[unfolded open_segment_def]
  have roll: "hls_roll mts handler (hls_force (Some (sf_data f)) (length (sf_data f)) (sf_ms f) hls)
      (hls_cut (sf_key f) (sf_ms f) hls) (sf_ms f) (sf_ms f) hls s = (0, hls, s)"
    using S G assms(3,5,6) small by (auto simp: hls_roll_def hls_force_def hls_cut_def)
  have add: "hls_media_add_stream mts avtype hls = (hls, v)"
    using S G by (simp add: hls_media_add_stream_def)
  obtain hls' where put: "hls_put mts True avtype v (Some (sf_data f)) (length (sf_data f)) (sf_ms f) (sf_ms f)
      (sf_key f) hls = Some (rc, hls')" "hls_inv hls'" "hm_ts hls' = ts'" "hm_ptr hls' = hm_ptr hls @ concat ps"
      "hm_dts hls' = hm_dts hls" "hm_pts hls' = hm_pts hls" "hm_dts_last hls' = sf_ms f"
      "hm_duration hls' = hm_duration hls" "hm_video hls' = hm_video hls" "\<not> hm_audio_only_flag hls'"
      "hm_maxsize hls' = hm_maxsize hls"
    using hls_put_frame [OF _ _ _ w] S G by blast
  have "open_segment mts v ts (cur @ [f]) hls'"
    using S put(2-) by (auto simp: open_segment_def gop_packets_snoc w)
  then show ?thesis using S add roll put(1) by (auto simp: hls_media_input_def hls_continuous_def)
qed

text \<open>A keyframe closes the segment: the handler gets what it holds.\<close>

lemma hls_roll_segment:
  assumes "gen_ok mts avtype v frames" and "open_segment mts v ts cur hls" and "f \<in> set frames"
    and "sf_key f" and "sf_ms (last cur) \<le> sf_ms f" and "gop_packets mts v ts cur = (ts1, b)"
    and "handler b (sf_ms (hd cur)) (sf_ms (hd cur)) (seg_duration cur (sf_ms f)) s = (0, s')"
  shows "\<exists>rc hls'. hls_media_input mts handler True avtype (Some (sf_data f)) (length (sf_data f))
      (sf_ms f) (sf_ms f) (sf_key f) hls s = Some (rc, hls', s') \<and>
    open_segment mts v (ts_reset mts ts1) [f] hls'"
proof -
  obtain ts' ps rc where w: "frame_write mts v (ts_reset mts (hm_ts hls)) f = (ts', ps, rc)" by (metis surj_pair)
  note G = assms(1)[unfolded gen_ok_def] and S = assms(2)[unfolded open_segment_def]
  let ?h = "hls\<lparr>hm_ts := ts_reset mts (hm_ts hls), hm_ptr := [], hm_dts := sf_ms f, hm_pts := sf_ms f,
    hm_audio_only_flag := True\<rparr>"
  have b: "b = hm_ptr hls" "ts1 = hm_ts hls" using S assms(6) by simp_all
  have roll: "hls_roll mts handler (hls_force (Some (sf_data f)) (length (sf_data f)) (sf_ms f) hls)
      (hls_cut (sf_key f) (sf_ms f) hls) (sf_ms f) (sf_ms f) hls s = (0, ?h, s')"
    using S G assms(3-5,7) by (auto simp: hls_roll_def hls_force_def hls_cut_def b seg_duration_def Let_def)
  have add: "hls_media_add_stream mts avtype hls = (hls, v)"
    using S G by (simp add: hls_media_add_stream_def)
  have "mts_ok mts" "ts_is_video mts avtype" "hls_inv ?h" using G by (auto simp: hls_inv_def)
  from hls_put_frame [OF this, of v f ts' ps rc] w obtain hls' where
    put: "hls_put mts True avtype v (Some (sf_data f)) (length (sf_data f)) (sf_ms f) (sf_ms f)
      (sf_key f) ?h = Some (rc, hls')" "hls_inv hls'" "hm_ts hls' = ts'" "hm_ptr hls' = concat ps"
      "hm_dts hls' = sf_ms f" "hm_pts hls' = sf_ms f" "hm_dts_last hls' = sf_ms f"
      "hm_duration hls' = hm_duration hls" "hm_video hls' = hm_video hls" "\<not> hm_audio_only_flag hls'"
      "hm_maxsize hls' = hm_maxsize hls"
    by auto
  have "concat ps \<noteq> []" using G assms(3) w by (metis fst_conv snd_conv)
  then have "open_segment mts v (ts_reset mts ts1) [f] hls'"
    using S put(2-) w by (auto simp: open_segment_def b)
  then show ?thesis using S add roll put(1) by (auto simp: hls_media_input_def hls_continuous_def)
qed

text \<open>The first frame opens a segment.\<close>

lemma hls_first_frame:
  assumes "gen_ok mts avtype v frames" and "f \<in> set frames" and "hls_media_create mts True 0 = Some hls"
    and "ts_create mts = Some ts0" and "ts_add_stream mts ts0 avtype = (ts, v)"
  shows "\<exists>rc hls'. hls_media_input mts handler True avtype (Some (sf_data f)) (length (sf_data f))
      (sf_ms f) (sf_ms f) (sf_key f) hls s = Some (rc, hls', s) \<and> open_segment mts v ts [f] hls'"
proof -
  note G = assms(1)[unfolded gen_ok_def]
  let ?h = "hls\<lparr>hm_video := v, hm_ts := ts, hm_ptr := [], hm_dts := sf_ms f, hm_pts := sf_ms f,
    hm_audio_only_flag := True\<rparr>"
  obtain ts' ps rc where w: "frame_write mts v ts f = (ts', ps, rc)" by (metis surj_pair)
  have "mts_ok mts" "ts_is_video mts avtype" "hls_inv ?h" using G by (auto simp: hls_inv_def)
  from hls_put_frame [OF this, of v f ts' ps rc] w obtain hls1 where
    put: "hls_put mts True avtype v (Some (sf_data f)) (length (sf_data f)) (sf_ms f) (sf_ms f)
      (sf_key f) ?h = Some (rc, hls1)" "hls_inv hls1" "hm_ts hls1 = ts'" "hm_ptr hls1 = concat ps"
      "hm_dts hls1 = sf_ms f" "hm_pts hls1 = sf_ms f" "hm_dts_last hls1 = sf_ms f"
      "hm_duration hls1 = hm_duration hls" "hm_video hls1 = v" "\<not> hm_audio_only_flag hls1"
      "hm_maxsize hls1 = hm_maxsize hls"
    by auto
  have hls: "hm_video hls = -1" "hm_ts hls = ts0" "hm_ptr hls = []" "hm_duration hls = 0"
      "hm_maxsize hls = N_TS_FILESIZE"
    using assms(3,4) by (auto simp: hls_media_create_def)
  have "hls_media_input mts handler True avtype (Some (sf_data f)) (length (sf_data f)) (sf_ms f) (sf_ms f)
      (sf_key f) hls s = Some (rc, hls1, s)"
    using hls G assms(5) put(1)
    by (simp add: hls_media_input_def hls_continuous_def hls_media_add_stream_def hls_roll_def Let_def)
  moreover have "concat ps \<noteq> []" using G assms(2) w by (metis fst_conv snd_conv)
  then have "open_segment mts v ts [f] hls1" using put w hls by (auto simp: open_segment_def)
  ultimately show ?thesis by blast
qed

text \<open>The flush: the open segment goes to the handler with its length up to its last frame.\<close>

lemma hls_flush_segment:
  assumes "gen_ok mts avtype v frames" and "open_segment mts v ts cur hls" and "gop_packets mts v ts cur = (ts1, b)"
    and "handler b (sf_ms (hd cur)) (sf_ms (hd cur)) (sf_ms (last cur) - sf_ms (hd cur)) s = (0, s')"
  shows "\<exists>rc hls'. hls_media_input mts handler ok avtype None 0 0 0 False hls s = Some (rc, hls', s')"
proof -
  note G = assms(1)[unfolded gen_ok_def] and S = assms(2)[unfolded open_segment_def]
  let ?h = "hls\<lparr>hm_ts := ts_reset mts (hm_ts hls), hm_ptr := [], hm_dts := 0, hm_pts := 0, hm_audio_only_flag := True\<rparr>"
  have b: "b = hm_ptr hls" using S assms(3) by simp
  have roll: "hls_roll mts handler (hls_force None 0 0 hls) (hls_cut False 0 hls) 0 0 hls s = (0, ?h, s')"
    using S assms(4) by (auto simp: hls_roll_def hls_force_def b Let_def)
  have add: "hls_media_add_stream mts avtype hls = (hls, v)"
    using S G by (simp add: hls_media_add_stream_def)
  have "mts_ok mts" "hls_inv ?h" using G by (auto simp: hls_inv_def)
  from hls_put_inv [OF this, of ok avtype v None 0 0 0 False] obtain rc hls' where
    "hls_put mts ok avtype v None 0 0 0 False ?h = Some (rc, hls')" by blast
  then show ?thesis using S add roll by (auto simp: hls_media_input_def hls_continuous_def)
qed

lemma hls_feed_new_gop:
  assumes "gen_ok mts avtype v frames" and "open_segment mts v ts cur hls" and "f \<in> set frames"
    and "sf_key f" and "sf_ms (last cur) \<le> sf_ms f" and "gop_packets mts v ts cur = (ts1, b)"
  shows "\<exists>rc hls'. hls_media_input mts seg_collect True avtype (Some (sf_data f)) (length (sf_data f))
      (sf_ms f) (sf_ms f) (sf_key f) hls segs
        = Some (rc, hls', segs @ [(b, sf_ms (hd cur), sf_ms (hd cur), seg_duration cur (sf_ms f))]) \<and>
    open_segment mts v (ts_reset mts ts1) [f] hls'"
  by (rule hls_roll_segment [OF assms]) (simp add: seg_collect_def)

text \<open>All segments of a recording that ends after the last group.\<close>

fun stored_segments :: "'ts mpeg_ts \<Rightarrow> int \<Rightarrow> 'ts \<Rightarrow> seg_frame list list \<Rightarrow> segment list" where
  "stored_segments mts v ts [] = []"
| "stored_segments mts v ts [g] =
     [(snd (gop_packets mts v ts g), sf_ms (hd g), sf_ms (hd g), sf_ms (last g) - sf_ms (hd g))]"
| "stored_segments mts v ts (g # h # gs) =
     (case gop_packets mts v ts g of (ts', b) \<Rightarrow>
        (b, sf_ms (hd g), sf_ms (hd g), seg_duration g (sf_ms (hd h)))
          # stored_segments mts v (ts_reset mts ts') (h # gs))"

lemma stored_segments_ref:
  "gs \<noteq> [] \<Longrightarrow> map fst (stored_segments mts v ts gs)
     = map fst (fst (ref_segments mts v ts gs)) @ [snd (ref_segments mts v ts gs)]"
  by (induction mts v ts gs rule: ref_segments.induct) (auto split: prod.splits)

lemma gop_split_hd: "cur \<noteq> [] \<Longrightarrow> \<exists>h gs. gop_split cur fs = h # gs \<and> hd h = hd cur"
  by (induction cur fs rule: gop_split.induct) auto

lemma hls_feed_segments:
  assumes "gen_ok mts avtype v frames" and "open_segment mts v ts cur hls"
    and "set (cur @ fs) \<subseteq> set frames" and "length (cur @ fs) \<le> length frames"
    and "sorted (map sf_ms (last cur # fs))"
  shows "\<exists>hls'. hls_feed mts seg_collect avtype fs hls segs
      = Some (hls', segs @ fst (ref_segments mts v ts (gop_split cur fs))) \<and>
    hm_ptr hls' = snd (ref_segments mts v ts (gop_split cur fs)) \<and>
    hls_inv hls' \<and> hm_dts_last hls' = sf_ms (last (cur @ fs))"
  using assms(2-5)
proof (induction fs arbitrary: ts cur hls segs)
  case Nil
  then show ?case by (auto simp: open_segment_def)
next
  case (Cons f fs)
  have ms: "sf_ms (last cur) \<le> sf_ms f" using Cons.prems(4) by simp
  show ?case
  proof (cases "sf_key f")
    case False
    have "set (cur @ [f]) \<subseteq> set frames" "length cur < length frames" using Cons.prems(2,3) by auto
    from hls_feed_same_gop [OF assms(1) Cons.prems(1) this False ms, of seg_collect segs] obtain rc hls1 where
      step: "hls_media_input mts seg_collect True avtype (Some (sf_data f)) (length (sf_data f))
        (sf_ms f) (sf_ms f) (sf_key f) hls segs = Some (rc, hls1, segs)" "open_segment mts v ts (cur @ [f]) hls1"
      by blast
    have "set ((cur @ [f]) @ fs) \<subseteq> set frames" "length ((cur @ [f]) @ fs) \<le> length frames"
        "sorted (map sf_ms (last (cur @ [f]) # fs))"
      using Cons.prems(2-4) by auto
    from Cons.IH [OF step(2) this, of segs] show ?thesis using step(1) False by simp
  next
    case True
    obtain ts1 b where g: "gop_packets mts v ts cur = (ts1, b)" by fastforce
    have "f \<in> set frames" using Cons.prems(2) by simp
    from hls_feed_new_gop [OF assms(1) Cons.prems(1) this True ms g, of segs] obtain rc hls1 where
      step: "hls_media_input mts seg_collect True avtype (Some (sf_data f)) (length (sf_data f))
        (sf_ms f) (sf_ms f) (sf_key f) hls segs
        = Some (rc, hls1, segs @ [(b, sf_ms (hd cur), sf_ms (hd cur), seg_duration cur (sf_ms f))])"
        "open_segment mts v (ts_reset mts ts1) [f] hls1"
      by blast
    have "set ([f] @ fs) \<subseteq> set frames" "length ([f] @ fs) \<le> length frames" "sorted (map sf_ms (last [f] # fs))"
      using Cons.prems by (auto simp: open_segment_def Suc_le_eq)
    note rest = Cons.IH [OF step(2) this, of "segs @ [(b, sf_ms (hd cur), sf_ms (hd cur), seg_duration cur (sf_ms f))]"]
    obtain h gs where split: "gop_split [f] fs = h # gs" "hd h = f"
      using gop_split_hd [of "[f]" fs] by auto
    show ?thesis using rest step(1) True split g by (auto split: prod.splits)
  qed
qed

text \<open>
C13: In the daemon's configuration (segment duration 0), fed with frames in time order from a keyframe
on, the segmenter hands its handler exactly one segment per group of pictures: the packets of all
frames from a keyframe to the next, and of no other, generated afresh; with the time of its keyframe,
and its length up to the next keyframe or, after a gap of more than 100 ms, up to its last frame. The
last group stays in the buffer.\<close>

theorem hls_segments_are_gops:
  assumes "gen_ok mts avtype v (f # fs)" and "hls_media_create mts True 0 = Some hls"
    and "ts_create mts = Some ts0" and "ts_add_stream mts ts0 avtype = (ts, v)"
    and "sorted (map sf_ms (f # fs))"
  shows "\<exists>hls'. hls_feed mts seg_collect avtype (f # fs) hls []
      = Some (hls', fst (ref_segments mts v ts (gop_split [f] fs))) \<and>
    hm_ptr hls' = snd (ref_segments mts v ts (gop_split [f] fs))"
proof -
  have "f \<in> set (f # fs)" by simp
  from hls_first_frame [OF assms(1) this assms(2-4), of seg_collect "[]"] obtain rc hls1 where
    first: "hls_media_input mts seg_collect True avtype (Some (sf_data f)) (length (sf_data f)) (sf_ms f) (sf_ms f)
      (sf_key f) hls [] = Some (rc, hls1, [])" "open_segment mts v ts [f] hls1"
    by blast
  then show ?thesis using hls_feed_segments [OF assms(1) first(2), of fs "[]"] assms(5) by auto
qed

lemma toy_gop_length: "length (snd (gop_packets toy_ts v ts fs)) \<le> 188 * length fs"
proof (induction fs arbitrary: ts)
  case (Cons f fs)
  have "length (snd (gop_packets toy_ts v ts (f # fs)))
      = length (concat (fst (snd (frame_write toy_ts v ts f)))) + length (snd (gop_packets toy_ts v (Suc ts) fs))"
    by (simp add: frame_write_def toy_ts_def split: prod.splits)
  moreover have "length (concat (fst (snd (frame_write toy_ts v ts f)))) \<le> 188"
    by (simp add: frame_write_def toy_ts_def split: list.splits)
  ultimately show ?case using Cons [of "Suc ts"] by simp
qed simp

lemma toy_gen_ok:
  assumes "\<forall>f\<in>set frames. sf_data f \<noteq> []" and "length frames \<le> 1000"
  shows "gen_ok toy_ts 27 256 frames"
proof -
  have "length (snd (gop_packets toy_ts 256 ts fs)) < N_TS_FILESIZE" if "length fs \<le> length frames" for ts fs
    using toy_gop_length [of 256 ts fs] that assms(2) by (simp add: N_TS_FILESIZE_def)
  moreover have "concat (fst (snd (frame_write toy_ts 256 ts f))) \<noteq> []" if "sf_data f \<noteq> []" for ts f
    using that by (cases "sf_data f") (simp_all add: frame_write_def toy_ts_def)
  ultimately show ?thesis
    using assms(1) toy_ok by (simp add: gen_ok_def) (simp add: toy_ts_def)
qed

definition toy_frames :: "seg_frame list" where
  "toy_frames = [\<lparr>sf_data = [1, 7], sf_key = True, sf_ms = 0\<rparr>, \<lparr>sf_data = [2], sf_key = False, sf_ms = 33\<rparr>,
     \<lparr>sf_data = [3], sf_key = True, sf_ms = 66\<rparr>, \<lparr>sf_data = [4], sf_key = False, sf_ms = 500\<rparr>,
     \<lparr>sf_data = [5], sf_key = True, sf_ms = 1000\<rparr>]"

lemma hls_segments_are_gops_witness:
  "\<exists>hls'. hls_feed toy_ts seg_collect 27 toy_frames (toy_hls 0 (-9223372036854775808)) []
     = Some (hls', [(replicate 188 1 @ replicate 188 2, 0, 0, 66), (replicate 188 3 @ replicate 188 4, 66, 66, 434)])"
proof -
  have created: "hls_media_create toy_ts True 0 = Some (toy_hls 0 (-9223372036854775808))"
    by (simp add: toy_hls_def hls_media_create_def toy_ts_def)
  have gen: "gen_ok toy_ts 27 256 (hd toy_frames # tl toy_frames)"
    by (rule toy_gen_ok) (simp_all add: toy_frames_def)
  have "sorted (map sf_ms (hd toy_frames # tl toy_frames))" by (simp add: toy_frames_def)
  from hls_segments_are_gops [OF gen created _ _ this, of 0 0]
  show ?thesis
    by (simp add: toy_frames_def) (auto simp: toy_ts_def frame_write_def seg_duration_def)
qed

section \<open>A failing handler\<close>

text \<open>
C38: When the handler fails at a keyframe (a segment could not be stored), the keyframe is lost but
its segment stays open: the frames after it are appended to the previous group of pictures, although
the keyframe they refer to is in no segment.\<close>

theorem hls_failed_cut_loses_keyframe:
  assumes "gen_ok mts avtype v frames" and "open_segment mts v ts cur hls"
    and "set (cur @ [f, g]) \<subseteq> set frames" and "length (cur @ [f, g]) \<le> length frames"
    and "sf_key f" and "\<not> sf_key g" and "sf_ms (last cur) \<le> sf_ms f" and "sf_ms f \<le> sf_ms g"
    and "\<And>buf pts dts dur. fst (handler buf pts dts dur s) \<noteq> 0"
  shows "\<exists>hls' s'. hls_feed mts handler avtype [f, g] hls s = Some (hls', s') \<and>
    open_segment mts v ts (cur @ [g]) hls'"
proof -
  note G = assms(1)[unfolded gen_ok_def] and S = assms(2)[unfolded open_segment_def]
  have add: "hls_media_add_stream mts avtype hls = (hls, v)"
    using S G by (simp add: hls_media_add_stream_def)
  let ?dur = "(if hls_force (Some (sf_data f)) (length (sf_data f)) (sf_ms f) hls \<or> hm_dts_last hls + 100 < sf_ms f
    then hm_dts_last hls else sf_ms f) - hm_dts hls"
  obtain r s1 where h: "handler (hm_ptr hls) (hm_pts hls) (hm_dts hls) ?dur s = (r, s1)" "r \<noteq> 0"
    using assms(9) by (metis prod.collapse)
  have "hls_roll mts handler (hls_force (Some (sf_data f)) (length (sf_data f)) (sf_ms f) hls)
      (hls_cut (sf_key f) (sf_ms f) hls) (sf_ms f) (sf_ms f) hls s = (r, hls, s1)"
    using S assms(5) h by (simp add: hls_roll_def Let_def hls_cut_def)
  then have first: "hls_media_input mts handler True avtype (Some (sf_data f)) (length (sf_data f))
      (sf_ms f) (sf_ms f) (sf_key f) hls s = Some (r, hls, s1)"
    using S add h(2) by (simp add: hls_media_input_def hls_continuous_def)
  have "set (cur @ [g]) \<subseteq> set frames" "length cur < length frames" "sf_ms (last cur) \<le> sf_ms g"
    using assms(3,4,7,8) by auto
  from hls_feed_same_gop [OF assms(1,2) this(1,2) assms(6) this(3), of handler s1] first
  show ?thesis by auto
qed

lemma hls_failed_cut_loses_keyframe_witness:
  "\<exists>hls' s'. hls_feed toy_ts (\<lambda>buf pts dts dur s. (-1, s)) 27 (drop 2 (take 4 toy_frames))
       ((toy_hls 0 33)\<lparr>hm_ts := 2, hm_ptr := replicate 188 1 @ replicate 188 2, hm_capacity := 1925120,
         hm_dts := 0, hm_pts := 0, hm_video := 256\<rparr>) () = Some (hls', s') \<and>
     open_segment toy_ts 256 0 (take 2 toy_frames @ [toy_frames ! 3]) hls'"
proof -
  let ?hls = "(toy_hls 0 33)\<lparr>hm_ts := 2, hm_ptr := replicate 188 1 @ replicate 188 2, hm_capacity := 1925120,
    hm_dts := 0, hm_pts := 0, hm_video := 256\<rparr>"
  have gen: "gen_ok toy_ts 27 256 toy_frames"
    by (rule toy_gen_ok) (simp_all add: toy_frames_def)
  have "open_segment toy_ts 256 0 (take 2 toy_frames) ?hls"
    by (simp add: open_segment_def toy_frames_def frame_write_def toy_hls_def hls_media_create_def hls_inv_def)
      (simp add: toy_ts_def)
  from hls_failed_cut_loses_keyframe [OF gen this, of "toy_frames ! 2" "toy_frames ! 3"
      "\<lambda>buf pts dts dur s. (-1, s)" "()"]
  show ?thesis by (simp add: toy_frames_def)
qed

end
