(* ===== verification/StorageDb.thy ===== *)
theory StorageDb
  imports Config FileUtilsProps HlsMedia "HOL-Library.Char_ord" "HOL-Library.List_Lexorder"
begin

text \<open>
  \<open>src/storage_db.c\<close> and \<open>src/storage_internal.h\<close>: the writer's state, the two databases, and
  retention. Each SQL statement of the source is an operation on rows; whether SQLite prepares and
  executes it is an argument, as is which of the matching rows a \<open>SELECT\<close> without an order gives.
  A per-day database belongs to the inode of its file, so it goes with the file.
\<close>

section \<open>Data\<close>

definition VM_STATE_ACTIVE :: int where "VM_STATE_ACTIVE = 0"
definition VM_STATE_PENDING :: int where "VM_STATE_PENDING = 1"
definition DATE_STR_SIZE :: nat where "DATE_STR_SIZE = 16"
definition TS_NAME_SIZE :: nat where "TS_NAME_SIZE = 16"
definition DATE_DIR_SIZE :: nat where "DATE_DIR_SIZE = 64"
definition SEGMENT_DIR_SIZE :: nat where "SEGMENT_DIR_SIZE = 96"
definition DB_PATH_SIZE :: nat where "DB_PATH_SIZE = 96"
definition MEDIA_PATH_SIZE :: nat where "MEDIA_PATH_SIZE = 160"

record meta_row =
  mr_id :: int
  mr_date :: string
  mr_motion_count :: int
  mr_state :: int

record meta_db =
  md_rows :: "meta_row list"
  md_seq :: int

record seg_row =
  sr_id :: int
  sr_folder :: string
  sr_start_time :: string
  sr_total_frames :: int

record ev_row =
  er_id :: int
  er_video_id :: int
  er_motion_frame :: int

record event_db =
  ed_segments :: "seg_row list"
  ed_seg_seq :: int
  ed_events :: "ev_row list"
  ed_ev_seq :: int

text \<open>What is on the card: files and directories, the global database, and the per-day ones.\<close>

record world =
  w_fs :: fs
  w_meta :: meta_db
  w_events :: "ino \<Rightarrow> event_db"

record ('ts, 'pl) writer_state_t =
  ws_date :: string
  ws_day_of_year :: int
  ws_interrupt_idx :: int
  ws_date_dir :: string
  ws_segment_dir :: string
  ws_hls :: "'ts hls_media_t option"
  ws_m3u :: "'pl option"
  ws_ts_idx :: int
  ws_ts_since_cleanup :: int
  ws_pts_ms :: int
  ws_meta_db :: bool
  ws_event_db :: "ino option"
  ws_current_segment_id :: int
  ws_frame_count :: int
  ws_motion_count :: int
  ws_last_fps :: int
  ws_last_motion_ms :: int
  ws_seen_keyframe :: bool

text \<open>\<open>snprintf\<close> into a buffer of \<open>n\<close> bytes, and \<open>strncpy\<close> with a terminator.\<close>

definition c_trunc :: "nat \<Rightarrow> string \<Rightarrow> string" where
  "c_trunc n s = take (n - 1) s"

text \<open>\<open>%05d\<close>.\<close>

definition pad5 :: "int \<Rightarrow> string" where
  "pad5 n = (if 0 \<le> n then replicate (5 - length (show_nat n)) CHR ''0'' @ show_nat n
             else CHR ''-'' # replicate (4 - length (show_nat (- n))) CHR ''0'' @ show_nat (- n))"

datatype sql_result = SqlPrepareFail | SqlStepFail | SqlOk

section \<open>Connections\<close>

text \<open>
  Opening a connection: the code's result, whether it leaves a handle, and the statements it runs on
  it, whose outcome it ignores. A handle that SQLite leaves on failure is closed.
\<close>

definition DB_SYNC_NORMAL :: int where "DB_SYNC_NORMAL = 0"
definition DB_SYNC_FULL :: int where "DB_SYNC_FULL = 1"

definition db_open_rw :: "bool \<Rightarrow> int \<Rightarrow> int \<times> bool \<times> string list" where
  "db_open_rw open_ok sync_mode =
     (if \<not> open_ok then (-1, False, [])
      else (0, True,
        [''PRAGMA journal_mode=WAL;'',
         if sync_mode = DB_SYNC_FULL then ''PRAGMA synchronous=FULL;'' else ''PRAGMA synchronous=NORMAL;'',
         ''PRAGMA cache_size=1000;'']))"

definition db_exec :: "bool \<Rightarrow> int" where
  "db_exec exec_ok = (if exec_ok then 0 else -1)"

section \<open>The global database\<close>

text \<open>Opening and creating the table; an open that fails leaves the handle null.\<close>

definition meta_db_init ::
  "bool \<Rightarrow> bool \<Rightarrow> ('ts, 'pl) writer_state_t \<Rightarrow> int \<times> ('ts, 'pl) writer_state_t" where
  "meta_db_init open_ok exec_ok ws =
     (case db_open_rw open_ok DB_SYNC_FULL of
        (rc, handle, pragmas) \<Rightarrow>
          let ws1 = ws\<lparr>ws_meta_db := handle\<rparr>
          in if rc \<noteq> 0 then (-1, ws1)
             else if db_exec exec_ok \<noteq> 0 then (-1, ws1) else (0, ws1))"

definition meta_has :: "string \<Rightarrow> meta_db \<Rightarrow> bool" where
  "meta_has date db \<longleftrightarrow> date \<in> set (map mr_date (md_rows db))"

definition meta_insert :: "string \<Rightarrow> int \<Rightarrow> int \<Rightarrow> meta_db \<Rightarrow> meta_db" where
  "meta_insert date count state db =
     \<lparr>md_rows = md_rows db @ [\<lparr>mr_id = md_seq db + 1, mr_date = date, mr_motion_count = count, mr_state = state\<rparr>],
      md_seq = md_seq db + 1\<rparr>"

definition meta_db_ensure_day ::
  "sql_result \<Rightarrow> ('ts, 'pl) writer_state_t \<Rightarrow> world \<Rightarrow> world" where
  "meta_db_ensure_day sql ws w =
     (if \<not> ws_meta_db ws \<or> sql \<noteq> SqlOk \<or> meta_has (ws_date ws) (w_meta w) then w
      else w\<lparr>w_meta := meta_insert (ws_date ws) 0 0 (w_meta w)\<rparr>)"

definition meta_db_upsert_motion_count ::
  "sql_result \<Rightarrow> ('ts, 'pl) writer_state_t \<Rightarrow> int \<Rightarrow> world \<Rightarrow> world" where
  "meta_db_upsert_motion_count sql ws count w =
     (if \<not> ws_meta_db ws \<or> sql \<noteq> SqlOk then w
      else if meta_has (ws_date ws) (w_meta w)
      then w\<lparr>w_meta := (w_meta w)\<lparr>md_rows := map (\<lambda>r. if mr_date r = ws_date ws
                then r\<lparr>mr_motion_count := count\<rparr> else r) (md_rows (w_meta w))\<rparr>\<rparr>
      else w\<lparr>w_meta := meta_insert (ws_date ws) count VM_STATE_ACTIVE (w_meta w)\<rparr>)"

text \<open>The earliest active day other than today.\<close>

definition meta_db_oldest_retention_candidate ::
  "sql_result \<Rightarrow> ('ts, 'pl) writer_state_t \<Rightarrow> string \<Rightarrow> world \<Rightarrow> string option" where
  "meta_db_oldest_retention_candidate sql ws today w =
     (if \<not> ws_meta_db ws \<or> sql \<noteq> SqlOk then None
      else case sort (map mr_date (filter (\<lambda>r. mr_date r \<noteq> today \<and> mr_state r = VM_STATE_ACTIVE)
                                          (md_rows (w_meta w)))) of
        [] \<Rightarrow> None
      | d # ds \<Rightarrow> Some (c_trunc DATE_STR_SIZE d))"

section \<open>The per-day database\<close>

definition event_db_empty :: event_db where
  "event_db_empty = \<lparr>ed_segments = [], ed_seg_seq = 0, ed_events = [], ed_ev_seq = 0\<rparr>"

text \<open>Opening creates the file when there is none; the three statements create the tables.\<close>

record event_open_env =
  eo_open :: bool
  eo_segments :: bool
  eo_details :: bool
  eo_index :: bool

definition event_db_path :: "string \<Rightarrow> string" where
  "event_db_path date_dir = c_trunc DB_PATH_SIZE (date_dir @ ''EventLogs.db'')"

text \<open>The file of the database: the inode that is there, or a new one.\<close>

definition event_db_file :: "string \<Rightarrow> world \<Rightarrow> ino \<times> world" where
  "event_db_file path w =
     (case fs_dir (w_fs w) path of
        Some i \<Rightarrow> (i, w)
      | None \<Rightarrow> (fs_next (w_fs w),
          w\<lparr>w_fs := fs_create path (w_fs w), w_events := (w_events w)(fs_next (w_fs w) := event_db_empty)\<rparr>))"

definition event_db_open ::
  "event_open_env \<Rightarrow> ('ts, 'pl) writer_state_t \<Rightarrow> world \<Rightarrow> int \<times> ('ts, 'pl) writer_state_t \<times> world" where
  "event_db_open e ws w =
     (case db_open_rw (eo_open e) DB_SYNC_NORMAL of
        (rc, handle, pragmas) \<Rightarrow>
          if rc \<noteq> 0 then (-1, ws\<lparr>ws_event_db := None\<rparr>, w)
          else (case event_db_file (event_db_path (ws_date_dir ws)) w of
            (db, w1) \<Rightarrow>
              if db_exec (eo_segments e) \<noteq> 0 then (-1, ws\<lparr>ws_event_db := None\<rparr>, w1)
              else if db_exec (eo_details e) \<noteq> 0 then (-1, ws\<lparr>ws_event_db := None\<rparr>, w1)
              else if db_exec (eo_index e) \<noteq> 0 then (-1, ws\<lparr>ws_event_db := None\<rparr>, w1)
              else (0, ws\<lparr>ws_event_db := Some db\<rparr>, w1)))"

definition event_db_close :: "('ts, 'pl) writer_state_t \<Rightarrow> ('ts, 'pl) writer_state_t" where
  "event_db_close ws = ws\<lparr>ws_event_db := None\<rparr>"

text \<open>A folder that is already there violates \<open>UNIQUE\<close>, and the step fails.\<close>

definition event_db_add_segment ::
  "sql_result \<Rightarrow> string \<Rightarrow> ('ts, 'pl) writer_state_t \<Rightarrow> world \<Rightarrow> int \<times> world" where
  "event_db_add_segment sql start_time ws w = (case ws_event_db ws of
      None \<Rightarrow> (-1, w)
    | Some i \<Rightarrow>
        let db = w_events w i; folder = c_trunc 8 (pad5 (ws_interrupt_idx ws))
        in if sql \<noteq> SqlOk \<or> folder \<in> set (map sr_folder (ed_segments db)) then (-1, w)
           else (ed_seg_seq db + 1, w\<lparr>w_events := (w_events w)(i := db\<lparr>
                   ed_segments := ed_segments db @ [\<lparr>sr_id = ed_seg_seq db + 1, sr_folder = folder,
                     sr_start_time = c_trunc 32 start_time, sr_total_frames = -1\<rparr>],
                   ed_seg_seq := ed_seg_seq db + 1\<rparr>)\<rparr>))"

definition event_db_add_motion ::
  "sql_result \<Rightarrow> ('ts, 'pl) writer_state_t \<Rightarrow> int \<Rightarrow> int \<Rightarrow> world \<Rightarrow> world" where
  "event_db_add_motion sql ws video_id motion_frame w = (case ws_event_db ws of
      None \<Rightarrow> w
    | Some i \<Rightarrow>
        if video_id < 0 \<or> sql \<noteq> SqlOk then w
        else let db = w_events w i
             in w\<lparr>w_events := (w_events w)(i := db\<lparr>
                  ed_events := ed_events db @ [\<lparr>er_id = ed_ev_seq db + 1, er_video_id = video_id,
                    er_motion_frame = motion_frame\<rparr>],
                  ed_ev_seq := ed_ev_seq db + 1\<rparr>)\<rparr>)"

definition event_db_update_total_frames ::
  "sql_result \<Rightarrow> ('ts, 'pl) writer_state_t \<Rightarrow> world \<Rightarrow> world" where
  "event_db_update_total_frames sql ws w = (case ws_event_db ws of
      None \<Rightarrow> w
    | Some i \<Rightarrow>
        if ws_current_segment_id ws < 0 \<or> sql \<noteq> SqlOk then w
        else let db = w_events w i
             in w\<lparr>w_events := (w_events w)(i := db\<lparr>ed_segments := map (\<lambda>r.
                  if sr_id r = ws_current_segment_id ws
                  then r\<lparr>sr_total_frames := ws_frame_count ws\<rparr> else r) (ed_segments db)\<rparr>)\<rparr>)"

section \<open>Retention\<close>

definition retention_schedule_delete :: "sql_result \<Rightarrow> string \<Rightarrow> world \<Rightarrow> int \<times> world" where
  "retention_schedule_delete sql date w =
     (if sql \<noteq> SqlOk then (-1, w)
      else
        let hit = (\<lambda>r. mr_date r = date \<and> mr_state r = VM_STATE_ACTIVE)
        in ((if filter hit (md_rows (w_meta w)) = [] then 0 else 1),
            w\<lparr>w_meta := (w_meta w)\<lparr>md_rows := map (\<lambda>r. if hit r then r\<lparr>mr_state := VM_STATE_PENDING\<rparr> else r)
                                               (md_rows (w_meta w))\<rparr>\<rparr>))"

text \<open>
  One round: the select and the row it gives, what \<open>lstat\<close> and the walk find at a path, the delete.
\<close>

record retention_env =
  re_select :: sql_result
  re_pick :: nat
  re_lstat :: "string \<Rightarrow> lstat_result"
  re_delete :: sql_result

definition pending_dates :: "meta_db \<Rightarrow> string list" where
  "pending_dates db = map mr_date (filter (\<lambda>r. mr_state r = VM_STATE_PENDING) (md_rows db))"

definition meta_delete :: "string \<Rightarrow> meta_db \<Rightarrow> meta_db" where
  "meta_delete date db = db\<lparr>md_rows := filter (\<lambda>r. mr_date r \<noteq> date) (md_rows db)\<rparr>"

definition day_path :: "string \<Rightarrow> string" where
  "day_path date = c_trunc DATE_DIR_SIZE (CFG_DCIM_ROOT @ date)"

text \<open>A round and whether the loop goes on.\<close>

definition retention_round :: "retention_env \<Rightarrow> world \<Rightarrow> world \<times> bool" where
  "retention_round e w =
     (let pending = pending_dates (w_meta w)
      in if re_select e \<noteq> SqlOk \<or> pending = [] then (w, False)
         else
           let date = c_trunc DATE_STR_SIZE (pending ! (re_pick e mod length pending))
           in if date = [] then (w, False)
              else case remove_path_tree (re_lstat e (day_path date)) (day_path date) (w_fs w) of
                (rc, fs') \<Rightarrow>
                  if rc \<noteq> 0 \<or> re_delete e \<noteq> SqlOk then (w\<lparr>w_fs := fs'\<rparr>, False)
                  else (w\<lparr>w_fs := fs', w_meta := meta_delete date (w_meta w)\<rparr>, True))"

fun retention_process_tasks :: "nat \<Rightarrow> (nat \<Rightarrow> retention_env) \<Rightarrow> world \<Rightarrow> world" where
  "retention_process_tasks 0 env w = w"
| "retention_process_tasks (Suc budget) env w =
     (case retention_round (env 0) w of
        (w', go_on) \<Rightarrow> if go_on then retention_process_tasks budget (\<lambda>i. env (Suc i)) w' else w')"

declare retention_process_tasks.simps [simp del]

end
