(* ===== verification/Storage.thy ===== *)
theory Storage
  imports StorageDb Motion
begin

text \<open>
  The writer thread of \<open>src/storage.c\<close>: the segment handler, day rollover, disk cleanup, frame
  ingestion and the thread itself. The playlist writer and \<open>HLS_DURATION\<close> belong to the
  media-server submodule and are parameters.
\<close>

section \<open>State\<close>

record 'pl m3u8_ops =
  pl_create :: "'pl option"
  pl_add :: "'pl \<Rightarrow> string \<Rightarrow> int \<Rightarrow> int \<Rightarrow> bool \<Rightarrow> 'pl"
  pl_playlist :: "'pl \<Rightarrow> bytes"
  pl_hls_duration :: int

text \<open>
  The module's state: the writer state, the static \<open>last_dts\<close> of \<open>hls_cb\<close>, the card, and whether the
  code has dereferenced a null pointer, divided by zero or failed an assertion; what follows such a
  fault has no meaning.
\<close>

record ('ts, 'pl) storage =
  so_ws :: "('ts, 'pl) writer_state_t"
  so_last_dts :: int
  so_world :: world
  so_fault :: bool

definition storage_fault :: "('ts, 'pl) storage \<Rightarrow> ('ts, 'pl) storage" where
  "storage_fault so = so\<lparr>so_fault := True\<rparr>"

definition on_world :: "(('ts, 'pl) writer_state_t \<Rightarrow> world \<Rightarrow> world) \<Rightarrow> ('ts, 'pl) storage \<Rightarrow> ('ts, 'pl) storage" where
  "on_world f so = so\<lparr>so_world := f (so_ws so) (so_world so)\<rparr>"

section \<open>Segments\<close>

text \<open>The outcomes of the two atomic writes of one call of \<open>hls_cb\<close>.\<close>

record hls_cb_env =
  he_ts :: wfa_env
  he_m3u :: wfa_env

definition ts_path :: "('ts, 'pl) writer_state_t \<Rightarrow> string" where
  "ts_path ws = c_trunc MEDIA_PATH_SIZE (ws_segment_dir ws @ c_trunc TS_NAME_SIZE (pad5 (ws_ts_idx ws) @ ''.ts''))"

definition m3u_path :: "('ts, 'pl) writer_state_t \<Rightarrow> string" where
  "m3u_path ws = c_trunc MEDIA_PATH_SIZE (ws_segment_dir ws @ ''index.m3u8'')"

definition hls_cb :: "'pl m3u8_ops \<Rightarrow> hls_cb_env \<Rightarrow> ('ts, 'pl) storage hls_handler" where
  "hls_cb ops e data pts dts duration so =
     (let ws = so_ws so;
          discontinuity = (0 \<le> so_last_dts so \<and> so_last_dts so + c_quot (pl_hls_duration ops) 2 < dts);
          ts_name = c_trunc TS_NAME_SIZE (pad5 (ws_ts_idx ws) @ ''.ts'');
          tsp = ts_path ws; m3p = m3u_path ws;
          so1 = so\<lparr>so_last_dts := dts, so_ws := ws\<lparr>ws_ts_idx := ws_ts_idx ws + 1\<rparr>\<rparr>
      in case ws_m3u ws of
           None \<Rightarrow> (-1, storage_fault so1)
         | Some pl \<Rightarrow>
             let pl' = pl_add ops pl ts_name pts duration discontinuity;
                 so2 = so1\<lparr>so_ws := (so_ws so1)\<lparr>ws_m3u := Some pl'\<rparr>\<rparr>;
                 (rc1, h1) = write_file_atomic (he_ts e) tsp data (w_fs (so_world so2));
                 so3 = so2\<lparr>so_world := (so_world so2)\<lparr>w_fs := hd h1\<rparr>\<rparr>
             in if rc1 \<noteq> 0 then (-1, so3)
                else
                  let (rc2, h2) = write_file_atomic (he_m3u e) m3p (pl_playlist ops pl') (w_fs (so_world so3));
                      so4 = so3\<lparr>so_world := (so_world so3)\<lparr>w_fs := hd h2\<rparr>\<rparr>
                  in if rc2 \<noteq> 0 then (-1, so4)
                     else (0, so4\<lparr>so_ws := (so_ws so4)\<lparr>ws_ts_since_cleanup := ws_ts_since_cleanup (so_ws so4) + 1\<rparr>\<rparr>))"

text \<open>\<open>hls_media_input\<close> on the writer's segmenter, whose handler is \<open>hls_cb\<close>.\<close>

definition writer_input ::
  "'ts mpeg_ts \<Rightarrow> 'pl m3u8_ops \<Rightarrow> hls_cb_env \<Rightarrow> bool \<Rightarrow> int \<Rightarrow> bytes option \<Rightarrow> nat \<Rightarrow> int \<Rightarrow> bool
     \<Rightarrow> ('ts, 'pl) storage \<Rightarrow> ('ts, 'pl) storage" where
  "writer_input mts ops e realloc_ok avtype data len ms key so = (case ws_hls (so_ws so) of
      None \<Rightarrow> storage_fault so
    | Some hls \<Rightarrow>
        (case hls_media_input mts (hls_cb ops e) realloc_ok avtype data len ms ms key hls so of
           None \<Rightarrow> storage_fault so
         | Some (rc, hls', so') \<Rightarrow> so'\<lparr>so_ws := (so_ws so')\<lparr>ws_hls := Some hls'\<rparr>\<rparr>))"

definition hls_create ::
  "'ts mpeg_ts \<Rightarrow> 'pl m3u8_ops \<Rightarrow> bool \<Rightarrow> ms_config_t \<Rightarrow> ('ts, 'pl) writer_state_t
     \<Rightarrow> int \<times> ('ts, 'pl) writer_state_t" where
  "hls_create mts ops malloc_ok cfg ws =
     (let ws1 = ws\<lparr>ws_m3u := pl_create ops,
                   ws_hls := hls_media_create mts malloc_ok (st_hls_duration_s (c_storage cfg) * 1000),
                   ws_ts_idx := 0\<rparr>
      in if ws_hls ws1 = None \<or> ws_m3u ws1 = None then (-1, ws1) else (0, ws1))"

text \<open>\<open>hls_media_destroy\<close> on the writer's segmenter; a buffer exists once it has a capacity.\<close>

definition destroy_input :: "('ts, 'pl) storage \<Rightarrow> ('ts, 'pl) storage" where
  "destroy_input so = (case ws_hls (so_ws so) of
      None \<Rightarrow> so
    | Some hls \<Rightarrow> (case hls_media_destroy hls (0 < hm_capacity hls) of None \<Rightarrow> storage_fault so | Some freed \<Rightarrow> so))"

definition hls_flush_and_destroy ::
  "'ts mpeg_ts \<Rightarrow> 'pl m3u8_ops \<Rightarrow> hls_cb_env \<Rightarrow> bool \<Rightarrow> int \<Rightarrow> ('ts, 'pl) storage \<Rightarrow> ('ts, 'pl) storage" where
  "hls_flush_and_destroy mts ops e realloc_ok avtype so =
     (let so1 = (case ws_hls (so_ws so) of
            None \<Rightarrow> so
          | Some hls \<Rightarrow>
              let so' = destroy_input (writer_input mts ops e realloc_ok avtype None 0 0 False so)
              in so'\<lparr>so_ws := (so_ws so')\<lparr>ws_hls := None\<rparr>\<rparr>)
      in so1\<lparr>so_ws := (so_ws so1)\<lparr>ws_m3u := None\<rparr>\<rparr>)"

section \<open>Days\<close>

text \<open>Directory names are kept without a trailing slash.\<close>

definition dir_key :: "string \<Rightarrow> string" where
  "dir_key p = (if p \<noteq> [] \<and> last p = CHR ''/'' then butlast p else p)"

definition fs_stat :: "string \<Rightarrow> fs \<Rightarrow> stat_result" where
  "fs_stat p fs = (if p \<in> set (fs_dirs fs) then StatDir else if fs_dir fs p \<noteq> None then StatOther else StatMissing)"

definition make_dir :: "bool \<Rightarrow> string \<Rightarrow> world \<Rightarrow> int \<times> world" where
  "make_dir mkdir_ok p w =
     (case ensure_dir (fs_stat (dir_key p) (w_fs w)) mkdir_ok (dir_key p) (w_fs w) of
        (rc, fs') \<Rightarrow> (rc, w\<lparr>w_fs := fs'\<rparr>))"

definition count_subdirs :: "bool \<Rightarrow> string \<Rightarrow> world \<Rightarrow> int" where
  "count_subdirs opendir_ok p w =
     (if opendir_ok
      then int (length (filter (\<lambda>d. parent_dir d = Some (dir_key p)) (fs_dirs (w_fs w)))) else 0)"

record open_env =
  oe_today :: "string \<times> int"
  oe_mkroot :: bool
  oe_mkdate :: bool
  oe_opendir :: bool
  oe_mkseg :: bool
  oe_event :: event_open_env
  oe_add :: sql_result
  oe_start_time :: string
  oe_malloc :: bool

definition open_today ::
  "'ts mpeg_ts \<Rightarrow> 'pl m3u8_ops \<Rightarrow> open_env \<Rightarrow> ms_config_t \<Rightarrow> ('ts, 'pl) storage \<Rightarrow> int \<times> ('ts, 'pl) storage" where
  "open_today mts ops e cfg so =
     (let date = c_trunc DATE_STR_SIZE (fst (oe_today e));
          date_dir = c_trunc DATE_DIR_SIZE (CFG_DCIM_ROOT @ date @ ''/'');
          w1 = snd (make_dir (oe_mkroot e) CFG_DCIM_ROOT (so_world so));
          w2 = snd (make_dir (oe_mkdate e) date_dir w1);
          idx = count_subdirs (oe_opendir e) date_dir w2;
          segment_dir = c_trunc SEGMENT_DIR_SIZE (date_dir @ pad5 idx @ ''/'');
          ws1 = (so_ws so)\<lparr>ws_date := date, ws_day_of_year := snd (oe_today e), ws_interrupt_idx := idx,
                           ws_date_dir := date_dir, ws_segment_dir := segment_dir\<rparr>;
          (rc, w3) = make_dir (oe_mkseg e) segment_dir w2
      in if rc \<noteq> 0 then (-1, so\<lparr>so_ws := ws1, so_world := w3\<rparr>)
         else case event_db_open (oe_event e) ws1 w3 of
           (rc, ws2, w4) \<Rightarrow>
             if rc \<noteq> 0 then (-1, so\<lparr>so_ws := ws2, so_world := w4\<rparr>)
             else case event_db_add_segment (oe_add e) (oe_start_time e) ws2 w4 of
               (seg_id, w5) \<Rightarrow>
                 let ws3 = ws2\<lparr>ws_current_segment_id := seg_id\<rparr>
                 in if seg_id < 0 then (-1, so\<lparr>so_ws := event_db_close ws3, so_world := w5\<rparr>)
                    else
                      let ws4 = ws3\<lparr>ws_frame_count := 0, ws_motion_count := 0,
                                    ws_last_fps := ivs_fps_low (c_ivs cfg), ws_pts_ms := 0,
                                    ws_seen_keyframe := False\<rparr>
                      in case hls_create mts ops (oe_malloc e) cfg ws4 of
                        (rc, ws5) \<Rightarrow>
                          if rc \<noteq> 0 then (-1, so\<lparr>so_ws := event_db_close ws5, so_world := w5\<rparr>)
                          else (0, so\<lparr>so_ws := ws5, so_world := w5\<rparr>))"

record rollover_env =
  ro_flush :: hls_cb_env
  ro_realloc :: bool
  ro_update :: sql_result
  ro_open :: open_env
  ro_ensure :: sql_result

definition rollover_day ::
  "'ts mpeg_ts \<Rightarrow> 'pl m3u8_ops \<Rightarrow> int \<Rightarrow> rollover_env \<Rightarrow> ms_config_t \<Rightarrow> ('ts, 'pl) storage
     \<Rightarrow> int \<times> ('ts, 'pl) storage" where
  "rollover_day mts ops avtype e cfg so =
     (let so1 = hls_flush_and_destroy mts ops (ro_flush e) (ro_realloc e) avtype so;
          so2 = on_world (event_db_update_total_frames (ro_update e)) so1;
          so3 = so2\<lparr>so_ws := event_db_close (so_ws so2)\<rparr>
      in case open_today mts ops (ro_open e) cfg so3 of
           (rc, so4) \<Rightarrow> (rc, if rc = 0 then on_world (meta_db_ensure_day (ro_ensure e)) so4 else so4))"

section \<open>Disk cleanup\<close>

record cleanup_env =
  ce_tasks1 :: "nat \<Rightarrow> retention_env"
  ce_statvfs :: "(u64 \<times> u64) option"
  ce_oldest :: sql_result
  ce_schedule :: sql_result
  ce_tasks2 :: "nat \<Rightarrow> retention_env"

definition check_and_cleanup ::
  "cleanup_env \<Rightarrow> ms_config_t \<Rightarrow> ('ts, 'pl) storage \<Rightarrow> ('ts, 'pl) storage" where
  "check_and_cleanup e cfg so =
     (if ws_ts_since_cleanup (so_ws so) < st_cleanup_every_ts (c_storage cfg) then so
      else
        let so1 = so\<lparr>so_ws := (so_ws so)\<lparr>ws_ts_since_cleanup := 0\<rparr>,
                     so_world := retention_process_tasks 1 (ce_tasks1 e) (so_world so)\<rparr>;
            free_mb = fs_free_mb (ce_statvfs e)
        in if st_disk_free_min_mb (c_storage cfg) \<le> free_mb then so1
           else case meta_db_oldest_retention_candidate (ce_oldest e) (so_ws so1) (ws_date (so_ws so1)) (so_world so1) of
             None \<Rightarrow> so1
           | Some target \<Rightarrow>
               (case retention_schedule_delete (ce_schedule e) target (so_world so1) of
                  (queued, w2) \<Rightarrow>
                    if queued < 0 then so1\<lparr>so_world := w2\<rparr>
                    else so1\<lparr>so_world := retention_process_tasks 1 (ce_tasks2 e) w2\<rparr>))"

section \<open>Frames\<close>

record frame_env =
  fe_today :: "string \<times> int"
  fe_rollover :: rollover_env
  fe_cb :: hls_cb_env
  fe_realloc :: bool
  fe_fps :: int
  fe_now :: int
  fe_motion :: sql_result
  fe_upsert :: sql_result
  fe_update :: sql_result
  fe_cleanup :: cleanup_env

text \<open>The bookkeeping after a frame has gone to the segmenter.\<close>

definition note_motion :: "frame_env \<Rightarrow> ms_config_t \<Rightarrow> ('ts, 'pl) storage \<Rightarrow> ('ts, 'pl) storage" where
  "note_motion e cfg so =
     (if ivs_motion_debounce_ms (c_ivs cfg) \<le> fe_now e - ws_last_motion_ms (so_ws so)
      then
        let so1 = so\<lparr>so_ws := (so_ws so)\<lparr>ws_motion_count := ws_motion_count (so_ws so) + 1\<rparr>\<rparr>;
            so2 = on_world (\<lambda>ws. event_db_add_motion (fe_motion e) ws (ws_current_segment_id ws) (ws_frame_count ws)) so1;
            so3 = on_world (\<lambda>ws. meta_db_upsert_motion_count (fe_upsert e) ws (ws_motion_count ws)) so2
        in so3\<lparr>so_ws := (so_ws so3)\<lparr>ws_last_motion_ms := fe_now e\<rparr>\<rparr>
      else so)"

definition note_frame :: "frame_env \<Rightarrow> ms_config_t \<Rightarrow> ('ts, 'pl) storage \<Rightarrow> ('ts, 'pl) storage" where
  "note_frame e cfg so0 =
     (let so = so0\<lparr>so_ws := (so_ws so0)\<lparr>ws_last_fps := fe_fps e\<rparr>\<rparr>
      in if fe_fps e = ivs_fps_high (c_ivs cfg)
         then
           let so1 = note_motion e cfg so
           in (case c_div32 (ivs_fps_high (c_ivs cfg)) (ivs_fps_low (c_ivs cfg)) of
                 None \<Rightarrow> storage_fault so1
               | Some ratio \<Rightarrow>
                   (case c_mod32 (ws_frame_count (so_ws so1)) ratio of
                      None \<Rightarrow> storage_fault so1
                    | Some r \<Rightarrow> if r = 0 then on_world (event_db_update_total_frames (fe_update e)) so1 else so1))
         else on_world (event_db_update_total_frames (fe_update e)) so)"

definition ingest_frame ::
  "'ts mpeg_ts \<Rightarrow> 'pl m3u8_ops \<Rightarrow> int \<Rightarrow> frame_env \<Rightarrow> ms_config_t \<Rightarrow> fq_frame \<Rightarrow> ('ts, 'pl) storage
     \<Rightarrow> ('ts, 'pl) storage" where
  "ingest_frame mts ops avtype e cfg f so0 =
     (let so = (if snd (fe_today e) \<noteq> ws_day_of_year (so_ws so0)
                then snd (rollover_day mts ops avtype (fe_rollover e) cfg so0) else so0)
      in if \<not> ws_seen_keyframe (so_ws so) \<and> \<not> f_is_key f then so
         else
           let ms = c_quot (f_pts_us f) 1000;
               so1 = so\<lparr>so_ws := (so_ws so)\<lparr>ws_seen_keyframe := True, ws_pts_ms := ms\<rparr>\<rparr>;
               so2 = writer_input mts ops (fe_cb e) (fe_realloc e) avtype (f_data f) (f_len f) ms (f_is_key f) so1;
               so3 = so2\<lparr>so_ws := (so_ws so2)\<lparr>ws_frame_count := ws_frame_count (so_ws so2) + 1\<rparr>\<rparr>
           in check_and_cleanup (fe_cleanup e) cfg (note_frame e cfg so3))"

end
