(* ===== verification/Retention.thy ===== *)
theory Retention
  imports Storage
begin

text \<open>
  Disk retention: the contract of the table of days as a locale, its interpretation on the SQL
  operations of \<open>storage_db.c\<close>, and what the cleanup of \<open>storage.c\<close> guarantees: it takes the oldest
  day, spares today, and forgets a day only after its files are gone.
\<close>

section \<open>The table of days\<close>

text \<open>
  What retention relies on: days are known, some of them pending deletion; recording adds days and
  never marks them, scheduling marks known days, deletion forgets one; a candidate is the earliest
  day that is neither pending nor today.
\<close>

locale day_store =
  fixes inv :: "'db \<Rightarrow> bool"
    and known :: "'db \<Rightarrow> string set"
    and pending :: "'db \<Rightarrow> string set"
    and ensure :: "string \<Rightarrow> 'db \<Rightarrow> 'db"
    and sched :: "string \<Rightarrow> 'db \<Rightarrow> 'db"
    and del :: "string \<Rightarrow> 'db \<Rightarrow> 'db"
    and cand :: "string \<Rightarrow> 'db \<Rightarrow> string option"
  assumes pending_known: "inv db \<Longrightarrow> pending db \<subseteq> known db"
    and ensure_inv: "inv db \<Longrightarrow> inv (ensure d db)"
    and ensure_known: "inv db \<Longrightarrow> known (ensure d db) = insert d (known db)"
    and ensure_pending: "inv db \<Longrightarrow> pending (ensure d db) = pending db"
    and sched_inv: "inv db \<Longrightarrow> inv (sched d db)"
    and sched_known: "inv db \<Longrightarrow> known (sched d db) = known db"
    and sched_pending: "inv db \<Longrightarrow> pending (sched d db) = pending db \<union> ({d} \<inter> known db)"
    and del_inv: "inv db \<Longrightarrow> inv (del d db)"
    and del_known: "inv db \<Longrightarrow> known (del d db) = known db - {d}"
    and del_pending: "inv db \<Longrightarrow> pending (del d db) = pending db - {d}"
    and cand_some: "inv db \<Longrightarrow> cand t db = Some d \<Longrightarrow>
          d \<in> known db - pending db - {t} \<and> (\<forall>d'\<in>known db - pending db - {t}. d \<le> d')"
    and cand_none: "inv db \<Longrightarrow> cand t db = None \<Longrightarrow> known db - pending db \<subseteq> {t}"
begin

definition spares :: "string \<Rightarrow> 'db \<Rightarrow> bool" where
  "spares t db \<longleftrightarrow> inv db \<and> t \<notin> pending db"

lemma spares_ensure: "spares t db \<Longrightarrow> spares t (ensure d db)"
  by (simp add: spares_def ensure_inv ensure_pending)

lemma spares_del: "spares t db \<Longrightarrow> spares t (del d db)"
  by (simp add: spares_def del_inv del_pending)

lemma spares_sched: "spares t db \<Longrightarrow> cand t db = Some d \<Longrightarrow> spares t (sched d db)"
  using cand_some [of db t d] by (auto simp: spares_def sched_inv sched_pending)

lemma spares_del_known: "spares t db \<Longrightarrow> d \<in> pending db \<Longrightarrow> t \<in> known db \<Longrightarrow> t \<in> known (del d db)"
  by (auto simp: spares_def del_known)

lemma sched_makes_pending:
  "inv db \<Longrightarrow> cand t db = Some d \<Longrightarrow> pending (sched d db) = insert d (pending db) \<and> d \<notin> pending db"
  using cand_some [of db t d] by (auto simp: sched_pending)

text \<open>Scheduling the candidate keeps the order: what stays active is no earlier than what goes.\<close>

lemma sched_oldest_first:
  assumes "inv db" and "cand t db = Some d" and "d' \<in> known (sched d db) - pending (sched d db) - {t}"
  shows "d < d'"
  using assms cand_some [OF assms(1,2)] by (auto simp: sched_known sched_pending order.strict_iff_order)

end

section \<open>The SQL operations\<close>

named_theorems meta_simps \<open>rows, known days and pending days\<close>

definition meta_inv :: "meta_db \<Rightarrow> bool" where
  "meta_inv db \<longleftrightarrow> distinct (map mr_date (md_rows db)) \<and>
     (\<forall>r\<in>set (md_rows db). mr_state r = VM_STATE_ACTIVE \<or> mr_state r = VM_STATE_PENDING)"

definition meta_known :: "meta_db \<Rightarrow> string set" where
  "meta_known db = mr_date ` set (md_rows db)"

definition meta_pending :: "meta_db \<Rightarrow> string set" where
  "meta_pending db = set (pending_dates db)"

definition meta_ensure :: "string \<Rightarrow> meta_db \<Rightarrow> meta_db" where
  "meta_ensure d db = (if meta_has d db then db else meta_insert d 0 0 db)"

definition meta_sched :: "string \<Rightarrow> meta_db \<Rightarrow> meta_db" where
  "meta_sched d db = db\<lparr>md_rows := map (\<lambda>r. if mr_date r = d \<and> mr_state r = VM_STATE_ACTIVE
     then r\<lparr>mr_state := VM_STATE_PENDING\<rparr> else r) (md_rows db)\<rparr>"

definition meta_cand :: "string \<Rightarrow> meta_db \<Rightarrow> string option" where
  "meta_cand t db = (case sort (map mr_date (filter (\<lambda>r. mr_date r \<noteq> t \<and> mr_state r = VM_STATE_ACTIVE) (md_rows db)))
     of [] \<Rightarrow> None | d # ds \<Rightarrow> Some d)"

lemma vm_states [simp]: "VM_STATE_ACTIVE = 0" "VM_STATE_PENDING = 1"
  by (simp_all add: VM_STATE_ACTIVE_def VM_STATE_PENDING_def)

lemma meta_pending_iff [meta_simps]:
  "d \<in> meta_pending db \<longleftrightarrow> (\<exists>r\<in>set (md_rows db). mr_date r = d \<and> mr_state r = 1)"
  by (auto simp: meta_pending_def pending_dates_def)

lemma meta_known_iff [meta_simps]: "d \<in> meta_known db \<longleftrightarrow> (\<exists>r\<in>set (md_rows db). mr_date r = d)"
  by (auto simp: meta_known_def)

lemma meta_has_known [meta_simps]: "meta_has d db \<longleftrightarrow> d \<in> meta_known db"
  by (auto simp: meta_has_def meta_known_def)

lemma meta_inv_unique:
  "meta_inv db \<Longrightarrow> r \<in> set (md_rows db) \<Longrightarrow> r' \<in> set (md_rows db) \<Longrightarrow> mr_date r = mr_date r' \<Longrightarrow> r = r'"
  by (auto simp: meta_inv_def distinct_map dest: inj_onD)

lemma meta_active_iff:
  assumes "meta_inv db"
  shows "d \<in> meta_known db - meta_pending db \<longleftrightarrow> (\<exists>r\<in>set (md_rows db). mr_date r = d \<and> mr_state r = 0)"
  using assms meta_inv_unique [OF assms] by (fastforce simp: meta_simps meta_inv_def)

lemma meta_map_dates [simp]:
  "map mr_date (map (\<lambda>r. if P r then r\<lparr>mr_state := s\<rparr> else r) rs) = map mr_date rs"
  by (induction rs) auto

lemma meta_sched_inv: "meta_inv db \<Longrightarrow> meta_inv (meta_sched d db)"
  unfolding meta_inv_def meta_sched_def by (simp del: map_map) auto

lemma meta_cand_set:
  assumes "meta_inv db"
  shows "set (map mr_date (filter (\<lambda>r. mr_date r \<noteq> t \<and> mr_state r = VM_STATE_ACTIVE) (md_rows db)))
    = meta_known db - meta_pending db - {t}"
proof (rule set_eqI)
  fix d
  have "d \<in> set (map mr_date (filter (\<lambda>r. mr_date r \<noteq> t \<and> mr_state r = VM_STATE_ACTIVE) (md_rows db)))
      \<longleftrightarrow> d \<noteq> t \<and> (\<exists>r\<in>set (md_rows db). mr_date r = d \<and> mr_state r = 0)"
    by auto
  also have "\<dots> \<longleftrightarrow> d \<in> meta_known db - meta_pending db - {t}"
    unfolding meta_active_iff [OF assms, of d, symmetric] by blast
  finally show "d \<in> set (map mr_date (filter (\<lambda>r. mr_date r \<noteq> t \<and> mr_state r = VM_STATE_ACTIVE) (md_rows db)))
      \<longleftrightarrow> d \<in> meta_known db - meta_pending db - {t}" .
qed

lemma meta_cand_some:
  assumes "meta_inv db" and "meta_cand t db = Some d"
  shows "d \<in> meta_known db - meta_pending db - {t} \<and> (\<forall>d'\<in>meta_known db - meta_pending db - {t}. d \<le> d')"
proof -
  let ?ds = "map mr_date (filter (\<lambda>r. mr_date r \<noteq> t \<and> mr_state r = VM_STATE_ACTIVE) (md_rows db))"
  obtain ds where ds: "sort ?ds = d # ds"
    using assms(2) by (auto simp: meta_cand_def split: list.splits)
  have "sorted (d # ds)" unfolding ds [symmetric] by (rule sorted_sort)
  moreover have "set (sort ?ds) = set ?ds" by (rule set_sort)
  then have "set ?ds = insert d (set ds)" unfolding ds by simp
  ultimately show ?thesis unfolding meta_cand_set [OF assms(1), symmetric] by auto
qed

lemma meta_cand_none:
  assumes "meta_inv db" and "meta_cand t db = None"
  shows "meta_known db - meta_pending db \<subseteq> {t}"
proof -
  let ?ds = "map mr_date (filter (\<lambda>r. mr_date r \<noteq> t \<and> mr_state r = VM_STATE_ACTIVE) (md_rows db))"
  have "sort ?ds = []" using assms(2) by (auto simp: meta_cand_def split: list.splits)
  moreover have "set (sort ?ds) = set ?ds" by (rule set_sort)
  ultimately have "set ?ds = {}" by simp
  then show ?thesis unfolding meta_cand_set [OF assms(1)] by blast
qed

lemma meta_sched_pending:
  assumes "meta_inv db"
  shows "meta_pending (meta_sched d db) = meta_pending db \<union> ({d} \<inter> meta_known db)"
proof (rule set_eqI)
  fix d'
  have rows: "md_rows (meta_sched d db) = map (\<lambda>r. if mr_date r = d \<and> mr_state r = VM_STATE_ACTIVE
      then r\<lparr>mr_state := VM_STATE_PENDING\<rparr> else r) (md_rows db)"
    by (simp add: meta_sched_def)
  have "d' \<in> meta_pending (meta_sched d db) \<longleftrightarrow>
      (\<exists>r\<in>set (md_rows db). mr_date r = d' \<and> (mr_state r = 1 \<or> d' = d \<and> mr_state r = 0))"
    unfolding meta_pending_iff rows set_map bex_simps by (auto split: if_splits)
  also have "\<dots> \<longleftrightarrow> d' \<in> meta_pending db \<or> d' = d \<and> d' \<in> meta_known db - meta_pending db"
    unfolding meta_active_iff [OF assms] meta_pending_iff by blast
  finally show "d' \<in> meta_pending (meta_sched d db) \<longleftrightarrow> d' \<in> meta_pending db \<union> ({d} \<inter> meta_known db)"
    by blast
qed

interpretation days: day_store meta_inv meta_known meta_pending meta_ensure meta_sched meta_delete meta_cand
proof unfold_locales
  show "meta_pending db \<subseteq> meta_known db" if "meta_inv db" for db
    by (auto simp: meta_simps)
  show "meta_inv (meta_ensure d db)" if "meta_inv db" for d db
    using that by (auto simp: meta_inv_def meta_ensure_def meta_insert_def meta_has_def)
  show "meta_known (meta_ensure d db) = insert d (meta_known db)" if "meta_inv db" for d db
    by (auto simp: meta_ensure_def meta_insert_def meta_simps)
  show "meta_pending (meta_ensure d db) = meta_pending db" if "meta_inv db" for d db
    by (auto simp: meta_ensure_def meta_insert_def meta_simps)
  show "meta_inv (meta_sched d db)" if "meta_inv db" for d db
    using that by (rule meta_sched_inv)
  show "meta_known (meta_sched d db) = meta_known db" if "meta_inv db" for d db
    unfolding meta_known_def meta_sched_def set_map [symmetric] by (simp del: map_map set_map)
  show "meta_pending (meta_sched d db) = meta_pending db \<union> ({d} \<inter> meta_known db)" if "meta_inv db" for d db
    by (rule meta_sched_pending [OF that])
  show "meta_inv (meta_delete d db)" if "meta_inv db" for d db
    using that by (auto simp: meta_inv_def meta_delete_def distinct_map_filter)
  show "meta_known (meta_delete d db) = meta_known db - {d}" if "meta_inv db" for d db
    by (auto simp: meta_delete_def meta_simps)
  show "meta_pending (meta_delete d db) = meta_pending db - {d}" if "meta_inv db" for d db
    by (auto simp: meta_delete_def meta_simps)
qed (use meta_cand_some meta_cand_none in blast)+

section \<open>Paths of a day\<close>

definition date_ok :: "string \<Rightarrow> bool" where
  "date_ok d \<longleftrightarrow> d \<noteq> [] \<and> length d < DATE_STR_SIZE \<and> CHR ''/'' \<notin> set d"

definition dates_ok :: "meta_db \<Rightarrow> bool" where
  "dates_ok db \<longleftrightarrow> (\<forall>d\<in>meta_known db. date_ok d)"

definition under :: "string \<Rightarrow> string \<Rightarrow> bool" where
  "under base p \<longleftrightarrow> p = base \<or> take (Suc (length base)) p = base @ ''/''"

lemma date_ok_trunc [simp]: "date_ok d \<Longrightarrow> c_trunc DATE_STR_SIZE d = d"
  by (simp add: date_ok_def c_trunc_def DATE_STR_SIZE_def)

lemma day_path_date: "date_ok d \<Longrightarrow> day_path d = CFG_DCIM_ROOT @ d"
  by (simp add: date_ok_def day_path_def c_trunc_def DATE_STR_SIZE_def DATE_DIR_SIZE_def CFG_DCIM_ROOT_def)

lemma under_append: "under base p \<longleftrightarrow> (\<exists>r. p = base @ r \<and> (r = [] \<or> hd r = CHR ''/''))"
proof
  assume "under base p"
  then consider "p = base" | "take (Suc (length base)) p = base @ ''/''" unfolding under_def by blast
  then show "\<exists>r. p = base @ r \<and> (r = [] \<or> hd r = CHR ''/'')"
  proof cases
    case 2
    then have "p = base @ (CHR ''/'' # drop (Suc (length base)) p)"
      by (metis append.assoc append_Cons append_Nil append_take_drop_id)
    then show ?thesis by (metis list.sel(1))
  qed simp
next
  assume "\<exists>r. p = base @ r \<and> (r = [] \<or> hd r = CHR ''/'')"
  then obtain r where "p = base @ r" "r = [] \<or> hd r = CHR ''/''" by blast
  then show "under base p" by (cases r) (auto simp: under_def)
qed

text \<open>A path belongs to one day only.\<close>

lemma under_day: "date_ok d \<Longrightarrow> under (day_path d) p \<Longrightarrow>
    takeWhile (\<lambda>c. c \<noteq> CHR ''/'') (drop (length CFG_DCIM_ROOT) p) = d"
proof -
  assume d: "date_ok d" and "under (day_path d) p"
  then obtain r where r: "p = CFG_DCIM_ROOT @ d @ r" "r = [] \<or> hd r = CHR ''/''"
    by (auto simp: under_append day_path_date)
  have "takeWhile (\<lambda>c. c \<noteq> CHR ''/'') (d @ r) = d @ takeWhile (\<lambda>c. c \<noteq> CHR ''/'') r"
    using d by (intro takeWhile_append2) (auto simp: date_ok_def)
  moreover have "takeWhile (\<lambda>c. c \<noteq> CHR ''/'') r = []" using r(2) by (cases r) auto
  ultimately show ?thesis by (simp add: r(1))
qed

lemma under_other_day:
  "date_ok d \<Longrightarrow> date_ok t \<Longrightarrow> d \<noteq> t \<Longrightarrow> under (day_path d) p \<Longrightarrow> \<not> under (day_path t) p"
  using under_day by blast

section \<open>Removal\<close>

definition fs_exists :: "fs \<Rightarrow> string \<Rightarrow> bool" where
  "fs_exists fs p \<longleftrightarrow> p \<in> set (fs_dirs fs) \<or> fs_dir fs p \<noteq> None"

text \<open>No path is both a directory and a file.\<close>

definition tree_ok :: "fs \<Rightarrow> bool" where
  "tree_ok fs \<longleftrightarrow> (\<forall>p\<in>set (fs_dirs fs). fs_dir fs p = None)"

text \<open>What \<open>lstat\<close> and \<open>nftw\<close> promise: the walk stays under its root, and it visits everything.\<close>

definition walk_under :: "string \<Rightarrow> lstat_result \<Rightarrow> bool" where
  "walk_under base st \<longleftrightarrow> (case st of LstatDir walk \<Rightarrow> (\<forall>(p, ok)\<in>set walk. under base p) | _ \<Rightarrow> True)"

definition walk_all :: "fs \<Rightarrow> string \<Rightarrow> lstat_result \<Rightarrow> bool" where
  "walk_all fs base st \<longleftrightarrow> (case st of
      LstatNoEnt \<Rightarrow> (\<forall>p. under base p \<longrightarrow> \<not> fs_exists fs p)
    | LstatError \<Rightarrow> True
    | LstatDir walk \<Rightarrow> (\<forall>p. under base p \<and> fs_exists fs p \<longrightarrow> p \<in> fst ` set walk)
    | LstatFile ok \<Rightarrow> (\<forall>p. under base p \<and> fs_exists fs p \<longrightarrow> p = base))"

text \<open>A removal leaves other paths, all contents and the numbering of inodes alone, and adds nothing.\<close>

definition same_but :: "string set \<Rightarrow> fs \<Rightarrow> fs \<Rightarrow> bool" where
  "same_but P fs fs' \<longleftrightarrow> fs_data fs' = fs_data fs \<and> fs_sync fs' = fs_sync fs \<and> fs_next fs' = fs_next fs \<and>
     (\<forall>p. p \<notin> P \<longrightarrow> fs_dir fs' p = fs_dir fs p \<and> fs_disk fs' p = fs_disk fs p) \<and>
     filter (\<lambda>p. p \<notin> P) (fs_dirs fs') = filter (\<lambda>p. p \<notin> P) (fs_dirs fs)"

lemma filter_sub: "(\<And>x. B x \<Longrightarrow> A x) \<Longrightarrow> filter A xs = filter A ys \<Longrightarrow> filter B xs = filter B ys"
proof -
  assume B: "\<And>x. B x \<Longrightarrow> A x" and eq: "filter A xs = filter A ys"
  have "filter B zs = filter B (filter A zs)" for zs
    using B by (auto simp: filter_filter intro!: filter_cong)
  then show ?thesis using eq by metis
qed

lemma same_but_dirs: "same_but P fs fs' \<Longrightarrow> p \<notin> P \<Longrightarrow> p \<in> set (fs_dirs fs') \<longleftrightarrow> p \<in> set (fs_dirs fs)"
proof -
  assume "same_but P fs fs'" and p: "p \<notin> P"
  then have "set (filter (\<lambda>p. p \<notin> P) (fs_dirs fs')) = set (filter (\<lambda>p. p \<notin> P) (fs_dirs fs))" by (simp add: same_but_def)
  with p show ?thesis by auto
qed

definition shrinks :: "fs \<Rightarrow> fs \<Rightarrow> bool" where
  "shrinks fs fs' \<longleftrightarrow> tree_ok fs' \<and> (\<forall>p. fs_exists fs' p \<longrightarrow> fs_exists fs p)"

lemma same_but_refl [simp]: "same_but P fs fs"
  by (simp add: same_but_def)

lemma same_but_trans: "same_but P a b \<Longrightarrow> same_but Q b c \<Longrightarrow> same_but (P \<union> Q) a c"
proof -
  assume ab: "same_but P a b" and bc: "same_but Q b c"
  have "filter (\<lambda>p. p \<notin> P \<union> Q) (fs_dirs b) = filter (\<lambda>p. p \<notin> P \<union> Q) (fs_dirs a)"
    by (rule filter_sub [where A = "\<lambda>p. p \<notin> P"]) (use ab in \<open>simp_all add: same_but_def\<close>)
  moreover have "filter (\<lambda>p. p \<notin> P \<union> Q) (fs_dirs c) = filter (\<lambda>p. p \<notin> P \<union> Q) (fs_dirs b)"
    by (rule filter_sub [where A = "\<lambda>p. p \<notin> Q"]) (use bc in \<open>simp_all add: same_but_def\<close>)
  ultimately show ?thesis using ab bc by (simp add: same_but_def)
qed

lemma same_but_mono: "same_but P a b \<Longrightarrow> P \<subseteq> Q \<Longrightarrow> same_but Q a b"
  unfolding same_but_def by (auto intro: filter_sub [where A = "\<lambda>p. p \<notin> P"])

lemma shrinks_refl [simp]: "shrinks fs fs = tree_ok fs"
  by (simp add: shrinks_def)

lemma fs_remove_same: "same_but {p} fs (fs_remove p fs)"
  by (auto simp: fs_remove_def same_but_def fs_bind_def removeAll_filter_not_eq intro!: filter_cong)

lemma fs_remove_shrinks: "tree_ok fs \<Longrightarrow> shrinks fs (fs_remove p fs) \<and> \<not> fs_exists (fs_remove p fs) p"
  by (auto simp: fs_remove_def shrinks_def fs_exists_def tree_ok_def fs_bind_def)

lemma remove_recursive_same:
  "remove_recursive walk fs = (rc, fs') \<Longrightarrow> same_but (fst ` set walk) fs fs'"
proof (induction walk arbitrary: fs)
  case (Cons x walk)
  obtain p ok where x: "x = (p, ok)" by (cases x)
  show ?case
  proof (cases ok)
    case True
    then have "same_but (fst ` set walk) (fs_remove p fs) fs'" using Cons by (simp add: x nuke_cb_def)
    then show ?thesis using same_but_trans [OF fs_remove_same] by (simp add: x)
  qed (use Cons.prems in \<open>auto simp: x nuke_cb_def\<close>)
qed simp

lemma remove_recursive_shrinks:
  assumes "remove_recursive walk fs = (rc, fs')" and "tree_ok fs"
  shows "shrinks fs fs' \<and> (rc = 0 \<longrightarrow> (\<forall>p\<in>fst ` set walk. \<not> fs_exists fs' p))"
  using assms
proof (induction walk arbitrary: fs)
  case (Cons x walk)
  obtain p ok where x: "x = (p, ok)" by (cases x)
  show ?case
  proof (cases ok)
    case True
    note R = fs_remove_shrinks [OF Cons.prems(2), of p]
    have "remove_recursive walk (fs_remove p fs) = (rc, fs')"
      using Cons.prems(1) True by (simp add: x nuke_cb_def)
    then have "shrinks (fs_remove p fs) fs'" "rc = 0 \<longrightarrow> (\<forall>q\<in>fst ` set walk. \<not> fs_exists fs' q)"
      using Cons.IH R by (auto simp: shrinks_def)
    then show ?thesis using R by (auto simp: x shrinks_def)
  qed (use Cons.prems in \<open>auto simp: x nuke_cb_def\<close>)
qed simp

lemma remove_path_tree_same:
  assumes "remove_path_tree st base fs = (rc, fs')" and "walk_under base st"
  shows "same_but {p. under base p} fs fs'"
proof (cases st)
  case (LstatDir walk)
  then have "fst ` set walk \<subseteq> {p. under base p}" using assms(2) by (auto simp: walk_under_def)
  then show ?thesis
    using same_but_mono [OF remove_recursive_same] assms(1) LstatDir by (simp add: remove_path_tree_def)
next
  case (LstatFile ok)
  have "{base} \<subseteq> {p. under base p}" by (simp add: under_def)
  then show ?thesis using assms(1) LstatFile same_but_mono [OF fs_remove_same]
    by (auto simp: remove_path_tree_def nuke_cb_def split: if_splits)
qed (use assms in \<open>auto simp: remove_path_tree_def\<close>)

lemma remove_path_tree_gone:
  assumes "remove_path_tree st base fs = (rc, fs')" and "tree_ok fs"
  shows "shrinks fs fs' \<and> (rc = 0 \<longrightarrow> walk_all fs base st \<longrightarrow> (\<forall>p. under base p \<longrightarrow> \<not> fs_exists fs' p))"
proof (cases st)
  case (LstatDir walk)
  then have "remove_recursive walk fs = (rc, fs')" using assms(1) by (simp add: remove_path_tree_def)
  note R = remove_recursive_shrinks [OF this assms(2)]
  have "\<not> fs_exists fs' p" if "rc = 0" "walk_all fs base st" "under base p" for p
    using that R LstatDir by (auto simp: walk_all_def shrinks_def)
  then show ?thesis using R by blast
next
  case (LstatFile ok)
  show ?thesis
  proof (cases ok)
    case True
    then have "fs' = fs_remove base fs" using assms(1) LstatFile by (simp add: remove_path_tree_def nuke_cb_def)
    then show ?thesis
      using fs_remove_shrinks [OF assms(2), of base] LstatFile by (auto simp: walk_all_def shrinks_def)
  qed (use assms LstatFile in \<open>auto simp: remove_path_tree_def nuke_cb_def\<close>)
qed (use assms in \<open>auto simp: remove_path_tree_def walk_all_def\<close>)

section \<open>A round of retention\<close>

lemma retention_round_cases:
  assumes "retention_round e w = (w', b)" and "meta_inv (w_meta w)" and "dates_ok (w_meta w)"
  obtains (idle) "w' = w" "\<not> b"
  | (removed) d rc fs' where "d \<in> meta_pending (w_meta w)" "date_ok d"
      "remove_path_tree (re_lstat e (day_path d)) (day_path d) (w_fs w) = (rc, fs')"
      "w_fs w' = fs'" "w_events w' = w_events w"
      "w_meta w' = (if rc = 0 \<and> re_delete e = SqlOk then meta_delete d (w_meta w) else w_meta w)"
      "b \<longleftrightarrow> rc = 0 \<and> re_delete e = SqlOk"
proof (cases "re_select e \<noteq> SqlOk \<or> pending_dates (w_meta w) = []")
  case True
  then show ?thesis using idle assms(1) by (auto simp: retention_round_def)
next
  case False
  define d where "d = pending_dates (w_meta w) ! (re_pick e mod length (pending_dates (w_meta w)))"
  have "d \<in> set (pending_dates (w_meta w))" using False by (simp add: d_def)
  then have d: "d \<in> meta_pending (w_meta w)" by (simp add: meta_pending_def)
  then have ok: "date_ok d"
    using assms(2,3) days.pending_known by (auto simp: dates_ok_def)
  obtain rc fs' where rm: "remove_path_tree (re_lstat e (day_path d)) (day_path d) (w_fs w) = (rc, fs')"
    by fastforce
  have trunc: "c_trunc DATE_STR_SIZE (pending_dates (w_meta w) ! (re_pick e mod length (pending_dates (w_meta w)))) = d"
    using ok by (simp add: d_def)
  have ne: "d \<noteq> []" using ok by (simp add: date_ok_def)
  have "(w', b) = (if rc \<noteq> 0 \<or> re_delete e \<noteq> SqlOk then (w\<lparr>w_fs := fs'\<rparr>, False)
      else (w\<lparr>w_fs := fs', w_meta := meta_delete d (w_meta w)\<rparr>, True))"
    using False unfolding assms(1) [symmetric] retention_round_def Let_def trunc rm by (simp add: ne)
  then show ?thesis using removed [OF d ok rm] by (auto split: if_splits)
qed

lemma meta_delete_dates: "dates_ok db \<Longrightarrow> dates_ok (meta_delete d db)"
  by (auto simp: dates_ok_def meta_known_def meta_delete_def)

text \<open>
C17: A day is forgotten only after its files are gone: after a round of retention, interrupted at any
point or not, a day that has left the table was pending deletion and nothing under its directory
exists any more; and nothing was removed that is not under the directory of a pending day.\<close>

theorem retention_forgets_only_removed:
  assumes "meta_inv (w_meta w)" and "dates_ok (w_meta w)" and "tree_ok (w_fs w)"
    and "\<forall>d\<in>meta_pending (w_meta w). walk_under (day_path d) (re_lstat e (day_path d)) \<and>
           walk_all (w_fs w) (day_path d) (re_lstat e (day_path d))"
    and "retention_round e w = (w', b)"
  shows "meta_inv (w_meta w') \<and>
    (\<forall>d\<in>meta_known (w_meta w) - meta_known (w_meta w').
       d \<in> meta_pending (w_meta w) \<and> (\<forall>p. under (day_path d) p \<longrightarrow> \<not> fs_exists (w_fs w') p)) \<and>
    (\<forall>p. fs_exists (w_fs w) p \<and> \<not> fs_exists (w_fs w') p \<longrightarrow>
       (\<exists>d\<in>meta_pending (w_meta w). under (day_path d) p))"
  using assms(5,1,2)
proof (cases rule: retention_round_cases)
  case idle
  then show ?thesis using assms(1) by simp
next
  case (removed d rc fs')
  have walk: "walk_under (day_path d) (re_lstat e (day_path d))" using assms(4) removed(1) by blast
  note S = remove_path_tree_same [OF removed(3) walk] and R = remove_path_tree_gone [OF removed(3) assms(3)]
  have "meta_inv (w_meta w')" using removed(6) assms(1) by (simp add: days.del_inv)
  moreover have "d' = d \<and> rc = 0" if "d' \<in> meta_known (w_meta w) - meta_known (w_meta w')" for d'
    using that removed(6) by (auto simp: days.del_known [OF assms(1)] split: if_splits)
  moreover have "under (day_path d) p" if "fs_exists (w_fs w) p" "\<not> fs_exists (w_fs w') p" for p
    using S same_but_dirs [OF S, of p] that by (auto simp: removed(4) same_but_def fs_exists_def)
  ultimately show ?thesis using R assms(4) removed(1,4) by blast
qed

definition demo_day :: string where "demo_day = ''2024-01-01''"
definition demo_today :: string where "demo_today = ''2024-01-02''"

definition demo_walk :: "(string \<times> bool) list" where
  "demo_walk = [(''/mnt/sdcard/DCIM/2024-01-01/EventLogs.db'', True), (''/mnt/sdcard/DCIM/2024-01-01'', True)]"

definition demo_retention :: retention_env where
  "demo_retention = \<lparr>re_select = SqlOk, re_pick = 0,
     re_lstat = (\<lambda>p. if p = day_path demo_day then LstatDir demo_walk else LstatNoEnt), re_delete = SqlOk\<rparr>"

definition demo_meta :: "int \<Rightarrow> meta_db" where
  "demo_meta state = \<lparr>md_rows = [\<lparr>mr_id = 1, mr_date = demo_day, mr_motion_count = 4, mr_state = state\<rparr>,
     \<lparr>mr_id = 2, mr_date = demo_today, mr_motion_count = 0, mr_state = 0\<rparr>], md_seq = 2\<rparr>"

definition demo_world :: "int \<Rightarrow> world" where
  "demo_world state = \<lparr>w_fs = fs_empty\<lparr>fs_dirs := [''/mnt/sdcard/DCIM/2024-01-01''],
       fs_dir := [''/mnt/sdcard/DCIM/2024-01-01/EventLogs.db'' \<mapsto> 0], fs_next := 1\<rparr>,
     w_meta = demo_meta state, w_events = (\<lambda>i. event_db_empty)\<rparr>"

lemma demo_dates: "date_ok demo_day" "date_ok demo_today" "demo_day \<noteq> demo_today"
  by (simp_all add: date_ok_def demo_day_def demo_today_def DATE_STR_SIZE_def)

lemma demo_day_path: "day_path demo_day = ''/mnt/sdcard/DCIM/2024-01-01''"
  by (simp add: day_path_def demo_day_def c_trunc_def DATE_DIR_SIZE_def CFG_DCIM_ROOT_def)

lemma demo_meta_ok [simp]:
  "meta_inv (demo_meta 0)" "meta_inv (demo_meta 1)" "dates_ok (demo_meta s)"
  "meta_pending (demo_meta 1) = {demo_day}" "meta_pending (demo_meta 0) = {}"
  "meta_known (demo_meta s) = {demo_day, demo_today}"
  using demo_dates
  by (auto simp: meta_inv_def demo_meta_def dates_ok_def meta_known_def meta_pending_def pending_dates_def)

lemma demo_world_ok: "tree_ok (w_fs (demo_world s))" "w_meta (demo_world s) = demo_meta s"
  by (simp_all add: tree_ok_def demo_world_def)

lemma demo_walk_ok:
  "walk_under (day_path demo_day) (re_lstat demo_retention (day_path demo_day))"
  "walk_all (w_fs (demo_world s)) (day_path demo_day) (re_lstat demo_retention (day_path demo_day))"
  unfolding demo_day_path
  by (auto simp: demo_retention_def demo_day_path walk_under_def walk_all_def demo_walk_def under_def
      demo_world_def fs_exists_def split: if_splits)

lemma retention_forgets_only_removed_witness:
  "meta_known (w_meta (fst (retention_round demo_retention (demo_world 1)))) = {demo_today} \<and>
   \<not> fs_exists (w_fs (fst (retention_round demo_retention (demo_world 1)))) ''/mnt/sdcard/DCIM/2024-01-01/EventLogs.db''"
proof -
  obtain w' b where run: "retention_round demo_retention (demo_world 1) = (w', b)" by fastforce
  have gone: "w_meta w' = meta_delete demo_day (demo_meta 1)"
    using run demo_dates(1) unfolding retention_round_def demo_world_ok
    by (auto simp: demo_retention_def demo_meta_def pending_dates_def Let_def remove_path_tree_def demo_walk_def
        nuke_cb_def demo_day_def)
  then have known: "meta_known (w_meta w') = {demo_today}"
    using days.del_known [of "demo_meta 1" demo_day] demo_dates(3) by auto
  have "\<forall>d\<in>meta_pending (w_meta (demo_world 1)). walk_under (day_path d) (re_lstat demo_retention (day_path d)) \<and>
      walk_all (w_fs (demo_world 1)) (day_path d) (re_lstat demo_retention (day_path d))"
    using demo_walk_ok by (simp add: demo_world_ok)
  note R = retention_forgets_only_removed [OF _ _ demo_world_ok(1) this run]
  have "demo_day \<in> meta_known (w_meta (demo_world 1)) - meta_known (w_meta w')"
    unfolding known demo_world_ok using demo_dates(3) by simp
  moreover have "meta_inv (w_meta (demo_world 1))" "dates_ok (w_meta (demo_world 1))"
    by (simp_all add: demo_world_ok)
  ultimately have "\<forall>p. under (day_path demo_day) p \<longrightarrow> \<not> fs_exists (w_fs w') p"
    using R by blast
  then have "\<not> fs_exists (w_fs w') ''/mnt/sdcard/DCIM/2024-01-01/EventLogs.db''"
    by (simp add: demo_day_path under_def)
  with run known show ?thesis by simp
qed

section \<open>Cleanup\<close>

text \<open>A day that is not pending, and one that is spared: nothing under its directory changes.\<close>

definition day_safe :: "string \<Rightarrow> world \<Rightarrow> bool" where
  "day_safe t w \<longleftrightarrow> meta_inv (w_meta w) \<and> dates_ok (w_meta w) \<and> t \<notin> meta_pending (w_meta w)"

definition day_rows :: "string \<Rightarrow> meta_db \<Rightarrow> meta_row list" where
  "day_rows t db = filter (\<lambda>r. mr_date r = t) (md_rows db)"

lemma day_rows_known: "t \<in> meta_known db \<longleftrightarrow> day_rows t db \<noteq> []"
  by (auto simp: day_rows_def meta_known_def filter_empty_conv)

lemma day_rows_other:
  "d \<noteq> t \<Longrightarrow> day_rows t (meta_delete d db) = day_rows t db"
  "d \<noteq> t \<Longrightarrow> day_rows t (meta_sched d db) = day_rows t db"
proof -
  have "filter (\<lambda>r. mr_date r = t) (map (\<lambda>r. if mr_date r = d \<and> P r then r\<lparr>mr_state := s\<rparr> else r) rs)
      = filter (\<lambda>r. mr_date r = t) rs" if "d \<noteq> t" for P s rs
    using that by (induction rs) auto
  then show "d \<noteq> t \<Longrightarrow> day_rows t (meta_sched d db) = day_rows t db" by (simp add: day_rows_def meta_sched_def)
qed (auto simp: day_rows_def meta_delete_def intro!: filter_cong)

definition spared :: "string \<Rightarrow> world \<Rightarrow> world \<Rightarrow> bool" where
  "spared t w w' \<longleftrightarrow> day_safe t w' \<and> day_rows t (w_meta w') = day_rows t (w_meta w) \<and>
     w_events w' = w_events w \<and> same_but {p. \<not> under (day_path t) p} (w_fs w) (w_fs w')"

lemma spared_refl [simp]: "spared t w w = day_safe t w"
  by (simp add: spared_def)

lemma spared_trans: "spared t a b \<Longrightarrow> spared t b c \<Longrightarrow> spared t a c"
  using same_but_trans [of "{p. \<not> under (day_path t) p}" "w_fs a" "w_fs b" "{p. \<not> under (day_path t) p}" "w_fs c"]
  by (simp add: spared_def)

lemma spared_safe: "spared t a b \<Longrightarrow> day_safe t b"
  by (simp add: spared_def)

definition env_walk_ok :: "retention_env \<Rightarrow> bool" where
  "env_walk_ok e \<longleftrightarrow> (\<forall>d. date_ok d \<longrightarrow> walk_under (day_path d) (re_lstat e (day_path d)))"

lemma spared_round:
  assumes "day_safe t w" and "date_ok t" and "env_walk_ok e" and "retention_round e w = (w', b)"
  shows "spared t w w'"
proof -
  have inv: "meta_inv (w_meta w)" "dates_ok (w_meta w)" "t \<notin> meta_pending (w_meta w)"
    using assms(1) by (simp_all add: day_safe_def)
  show ?thesis
    using assms(4) inv(1,2)
  proof (cases rule: retention_round_cases)
    case idle
    then show ?thesis using assms(1) by simp
  next
    case (removed d rc fs')
    have "walk_under (day_path d) (re_lstat e (day_path d))" using assms(3) removed(2) by (simp add: env_walk_ok_def)
    note R = remove_path_tree_same [OF removed(3) this]
    have dt: "d \<noteq> t" using removed(1) inv(3) by blast
    have "{p. under (day_path d) p} \<subseteq> {p. \<not> under (day_path t) p}"
      using under_other_day [OF removed(2) assms(2) dt] by blast
    then have "same_but {p. \<not> under (day_path t) p} (w_fs w) (w_fs w')"
      using same_but_mono [OF R] removed(4) by simp
    moreover have "day_safe t w'"
      using removed(6) inv meta_delete_dates [OF inv(2), of d] by (auto simp: day_safe_def days.del_inv days.del_pending)
    moreover have "day_rows t (w_meta w') = day_rows t (w_meta w)"
      using removed(6) dt by (simp add: day_rows_other)
    ultimately show ?thesis using removed(5) by (simp add: spared_def)
  qed
qed

lemma spared_tasks:
  assumes "day_safe t w" and "date_ok t" and "\<forall>i. env_walk_ok (env i)"
  shows "spared t w (retention_process_tasks budget env w)"
  using assms(1,3)
proof (induction budget env w rule: retention_process_tasks.induct)
  case (2 budget env w)
  obtain w' b where r: "retention_round (env 0) w = (w', b)" by fastforce
  have "spared t w w'" using spared_round [OF "2.prems"(1) assms(2) _ r] "2.prems"(2) by blast
  then show ?case
    using "2.IH" [OF r [symmetric]] "2.prems"(2) r spared_trans [of t w w'] spared_safe [of t w w']
    by (auto simp: retention_process_tasks.simps)
qed (simp add: retention_process_tasks.simps)

lemma schedule_world:
  assumes "retention_schedule_delete sql d w = (rc, w')"
  shows "w' = w\<lparr>w_meta := w_meta w'\<rparr> \<and> w_meta w' = (if sql = SqlOk then meta_sched d (w_meta w) else w_meta w) \<and>
    (rc < 0 \<longleftrightarrow> sql \<noteq> SqlOk)"
  using assms by (auto simp: retention_schedule_delete_def Let_def meta_sched_def split: if_splits)

lemma oldest_candidate:
  assumes "meta_db_oldest_retention_candidate sql ws t w = Some d" and "meta_inv (w_meta w)" and "dates_ok (w_meta w)"
  shows "meta_cand t (w_meta w) = Some d \<and> date_ok d"
proof -
  obtain d0 where d0: "meta_cand t (w_meta w) = Some d0" "d = c_trunc DATE_STR_SIZE d0"
    using assms(1) by (auto simp: meta_db_oldest_retention_candidate_def meta_cand_def split: if_splits list.splits)
  moreover have "date_ok d0" using days.cand_some [OF assms(2) d0(1)] assms(3) by (auto simp: dates_ok_def)
  ultimately show ?thesis by simp
qed

lemma schedule_fs: "retention_schedule_delete sql d w = (rc, w') \<Longrightarrow> w_fs w' = w_fs w"
  by (auto simp: retention_schedule_delete_def Let_def split: if_splits)

lemma spared_schedule:
  assumes "day_safe t w" and "meta_cand t (w_meta w) = Some d" and "retention_schedule_delete sql d w = (rc, w')"
  shows "spared t w w'"
proof -
  have inv: "meta_inv (w_meta w)" "dates_ok (w_meta w)" "t \<notin> meta_pending (w_meta w)"
    using assms(1) by (simp_all add: day_safe_def)
  have "days.spares t (meta_sched d (w_meta w))"
    using days.spares_sched [OF _ assms(2)] inv by (simp add: days.spares_def)
  moreover have "w_events w' = w_events w" using schedule_world [OF assms(3)] by (metis world.select_convs(3) world.surjective world.update_convs(2))
  moreover have "d \<noteq> t" using days.cand_some [OF inv(1) assms(2)] by blast
  ultimately show ?thesis
    using schedule_world [OF assms(3)] inv days.sched_known [OF inv(1), of d]
    by (auto simp: spared_def day_safe_def dates_ok_def days.spares_def day_rows_other schedule_fs [OF assms(3)])
qed

lemma round_meta:
  assumes "meta_inv (w_meta w)" and "dates_ok (w_meta w)" and "retention_round e w = (w', b)"
  shows "meta_inv (w_meta w') \<and> dates_ok (w_meta w') \<and> meta_pending (w_meta w') \<subseteq> meta_pending (w_meta w) \<and>
    meta_known (w_meta w') - meta_pending (w_meta w') = meta_known (w_meta w) - meta_pending (w_meta w)"
  using assms(3,1,2)
proof (cases rule: retention_round_cases)
  case idle
  then show ?thesis using assms by simp
next
  case (removed d rc fs')
  then show ?thesis using assms(1,2) removed(1) meta_delete_dates [OF assms(2)]
    by (auto simp: days.del_inv days.del_pending days.del_known)
qed

lemma tasks_meta:
  assumes "meta_inv (w_meta w)" and "dates_ok (w_meta w)"
  shows "meta_inv (w_meta (retention_process_tasks n env w)) \<and> dates_ok (w_meta (retention_process_tasks n env w)) \<and>
    meta_pending (w_meta (retention_process_tasks n env w)) \<subseteq> meta_pending (w_meta w) \<and>
    meta_known (w_meta (retention_process_tasks n env w)) - meta_pending (w_meta (retention_process_tasks n env w))
      = meta_known (w_meta w) - meta_pending (w_meta w)"
  using assms
proof (induction n env w rule: retention_process_tasks.induct)
  case (2 n env w)
  obtain w' b where r: "retention_round (env 0) w = (w', b)" by fastforce
  note R = round_meta [OF "2.prems" r]
  show ?case
  proof (cases b)
    case True
    with "2.IH" [OF r [symmetric] True] R r show ?thesis by (auto simp: retention_process_tasks.simps)
  next
    case False
    with R r show ?thesis by (simp add: retention_process_tasks.simps)
  qed
qed (simp add: retention_process_tasks.simps)

text \<open>The shape of a cleanup: idle, one batch of work, or a batch, a day scheduled and a batch.\<close>

lemma cleanup_cases:
  assumes "meta_inv (w_meta (so_world so))" and "dates_ok (w_meta (so_world so))"
  obtains (idle) "so_world (check_and_cleanup e cfg so) = so_world so"
  | (tasks) "so_world (check_and_cleanup e cfg so) = retention_process_tasks 1 (ce_tasks1 e) (so_world so)"
  | (failed) d w2 where "retention_schedule_delete (ce_schedule e) d (retention_process_tasks 1 (ce_tasks1 e) (so_world so))
        = (-1, w2)"
      "so_world (check_and_cleanup e cfg so) = w2" "ce_schedule e \<noteq> SqlOk"
      "meta_cand (ws_date (so_ws so)) (w_meta (retention_process_tasks 1 (ce_tasks1 e) (so_world so))) = Some d"
  | (sched) d rc w2 where "fs_free_mb (ce_statvfs e) < st_disk_free_min_mb (c_storage cfg)"
      "meta_cand (ws_date (so_ws so)) (w_meta (retention_process_tasks 1 (ce_tasks1 e) (so_world so))) = Some d"
      "retention_schedule_delete (ce_schedule e) d (retention_process_tasks 1 (ce_tasks1 e) (so_world so)) = (rc, w2)"
      "ce_schedule e = SqlOk"
      "so_world (check_and_cleanup e cfg so) = retention_process_tasks 1 (ce_tasks2 e) w2"
proof -
  define w1 where "w1 = retention_process_tasks 1 (ce_tasks1 e) (so_world so)"
  have w1: "meta_inv (w_meta w1)" "dates_ok (w_meta w1)" using tasks_meta [OF assms(1,2)] by (simp_all add: w1_def)
  define c where "c = meta_db_oldest_retention_candidate (ce_oldest e)
    ((so_ws so)\<lparr>ws_ts_since_cleanup := 0\<rparr>) (ws_date (so_ws so)) w1"
  show ?thesis
  proof (cases "ws_ts_since_cleanup (so_ws so) < st_cleanup_every_ts (c_storage cfg)")
    case True
    then show ?thesis using idle by (simp add: check_and_cleanup_def)
  next
    case False
    note active = this
    show ?thesis
    proof (cases "st_disk_free_min_mb (c_storage cfg) \<le> fs_free_mb (ce_statvfs e) \<or> c = None")
      case True
      then have "so_world (check_and_cleanup e cfg so) = w1"
        using active by (auto simp: check_and_cleanup_def Let_def c_def w1_def)
      then show ?thesis using tasks by (simp add: w1_def)
    next
      case False
      then obtain d where d: "c = Some d" and low: "fs_free_mb (ce_statvfs e) < st_disk_free_min_mb (c_storage cfg)"
        by auto
      have cand: "meta_cand (ws_date (so_ws so)) (w_meta w1) = Some d"
        using oldest_candidate [OF d [unfolded c_def] w1] by blast
      obtain rc w2 where sc: "retention_schedule_delete (ce_schedule e) d w1 = (rc, w2)" by fastforce
      note S = schedule_world [OF sc]
      have run: "so_world (check_and_cleanup e cfg so)
          = (if rc < 0 then w2 else retention_process_tasks 1 (ce_tasks2 e) w2)"
        using active low d sc by (simp add: check_and_cleanup_def Let_def c_def w1_def)
      show ?thesis
      proof (cases "ce_schedule e = SqlOk")
        case True
        then show ?thesis using sched [OF low cand [unfolded w1_def] sc [unfolded w1_def] True] run S by simp
      next
        case False
        then have "rc = -1" using sc by (auto simp: retention_schedule_delete_def)
        then show ?thesis using failed [OF _ _ False cand [unfolded w1_def]] run sc by (simp add: w1_def)
      qed
    qed
  qed
qed

lemma cleanup_spared:
  assumes "day_safe (ws_date (so_ws so)) (so_world so)" and "date_ok (ws_date (so_ws so))"
    and "\<forall>i. env_walk_ok (ce_tasks1 e i) \<and> env_walk_ok (ce_tasks2 e i)"
  shows "spared (ws_date (so_ws so)) (so_world so) (so_world (check_and_cleanup e cfg so))"
proof -
  let ?t = "ws_date (so_ws so)" and ?w1 = "retention_process_tasks 1 (ce_tasks1 e) (so_world so)"
  have inv: "meta_inv (w_meta (so_world so))" "dates_ok (w_meta (so_world so))"
    using assms(1) by (simp_all add: day_safe_def)
  have w1: "spared ?t (so_world so) ?w1" using spared_tasks [OF assms(1,2)] assms(3) by blast
  note w11 = spared_safe [OF w1]
  from inv show ?thesis
  proof (cases rule: cleanup_cases [where e = e and cfg = cfg])
    case idle
    then show ?thesis using assms(1) by simp
  next
    case tasks
    then show ?thesis using w1 by simp
  next
    case (failed d w2)
    then show ?thesis using spared_trans [OF w1 spared_schedule [OF w11 failed(4,1)]] by simp
  next
    case (sched d rc w2)
    have w2: "spared ?t ?w1 w2" by (rule spared_schedule [OF w11 sched(2,3)])
    then have "spared ?t w2 (so_world (check_and_cleanup e cfg so))"
      using spared_tasks [OF spared_safe [OF w2] assms(2), of "ce_tasks2 e" 1] assms(3) sched(5) by simp
    then show ?thesis using spared_trans [OF w1] spared_trans [OF w2] by blast
  qed
qed


definition demo_ws :: "(nat, string list) writer_state_t" where
  "demo_ws = \<lparr>ws_date = demo_today, ws_day_of_year = 1, ws_interrupt_idx = 0,
     ws_date_dir = ''/mnt/sdcard/DCIM/2024-01-02/'', ws_segment_dir = ''/mnt/sdcard/DCIM/2024-01-02/00000/'',
     ws_hls = None, ws_m3u = None, ws_ts_idx = 0, ws_ts_since_cleanup = 20, ws_pts_ms = 0, ws_meta_db = True,
     ws_event_db = None, ws_current_segment_id = 1, ws_frame_count = 0, ws_motion_count = 0, ws_last_fps = 1,
     ws_last_motion_ms = 0, ws_seen_keyframe = False\<rparr>"

definition demo_storage :: "(nat, string list) storage" where
  "demo_storage = \<lparr>so_ws = demo_ws, so_last_dts = -1, so_world = demo_world 0, so_fault = False\<rparr>"

definition demo_cleanup :: "sql_result \<Rightarrow> cleanup_env" where
  "demo_cleanup sel = \<lparr>ce_tasks1 = (\<lambda>i. demo_retention), ce_statvfs = Some (1000, 4096), ce_oldest = SqlOk,
     ce_schedule = SqlOk, ce_tasks2 = (\<lambda>i. demo_retention\<lparr>re_select := sel\<rparr>)\<rparr>"

lemma demo_env_walk: "env_walk_ok demo_retention" "env_walk_ok (demo_retention\<lparr>re_select := sel\<rparr>)"
  using demo_walk_ok(1) by (auto simp: env_walk_ok_def demo_retention_def walk_under_def split: if_splits)

lemma demo_spared: "day_safe demo_today (demo_world 0)"
  by (simp add: day_safe_def demo_world_ok)

lemma demo_storage_simps [simp]:
  "so_world demo_storage = demo_world 0" "ws_date (so_ws demo_storage) = demo_today"
  "ws_ts_since_cleanup (so_ws demo_storage) = 20" "ws_meta_db (so_ws demo_storage) = True"
  by (simp_all add: demo_storage_def demo_ws_def)


text \<open>
C25: Cleanup goes by age and only under pressure: it marks at most one more day for deletion, only
when less than the configured space is free, never today, and every other day that stays active is
later than the marked one.\<close>

theorem cleanup_oldest_first:
  assumes "meta_inv (w_meta (so_world so))" and "dates_ok (w_meta (so_world so))"
    and "d \<in> meta_pending (w_meta (so_world (check_and_cleanup e cfg so)))"
    and "d \<notin> meta_pending (w_meta (so_world so))"
  shows "fs_free_mb (ce_statvfs e) < st_disk_free_min_mb (c_storage cfg) \<and> d \<noteq> ws_date (so_ws so) \<and>
    (\<forall>d'. d' \<in> meta_known (w_meta (so_world (check_and_cleanup e cfg so))) -
         meta_pending (w_meta (so_world (check_and_cleanup e cfg so))) - {ws_date (so_ws so)} \<longrightarrow> d < d') \<and>
    meta_pending (w_meta (so_world (check_and_cleanup e cfg so))) \<subseteq> insert d (meta_pending (w_meta (so_world so)))"
proof -
  let ?w1 = "retention_process_tasks 1 (ce_tasks1 e) (so_world so)"
  note T = tasks_meta [OF assms(1,2), of 1 "ce_tasks1 e"]
  have w1: "meta_inv (w_meta ?w1)" "dates_ok (w_meta ?w1)" using T by simp_all
  from assms(1,2) show ?thesis
  proof (cases rule: cleanup_cases [where e = e and cfg = cfg])
    case idle
    then show ?thesis using assms(3,4) by simp
  next
    case tasks
    then show ?thesis using assms(3,4) T by auto
  next
    case (failed d2 w2)
    then show ?thesis using assms(3,4) T schedule_world [OF failed(1)] by auto
  next
    case (sched d2 rc w2)
    note S = schedule_world [OF sched(3)]
    have w2: "w_meta w2 = meta_sched d2 (w_meta ?w1)" using S sched(4) by simp
    have p2: "meta_pending (w_meta w2) = insert d2 (meta_pending (w_meta ?w1))"
      using days.sched_makes_pending [OF w1(1) sched(2)] w2 by simp
    have inv2: "meta_inv (w_meta w2)" "dates_ok (w_meta w2)"
      using w1 by (simp_all add: w2 days.sched_inv dates_ok_def days.sched_known)
    note T2 = tasks_meta [OF inv2, of 1 "ce_tasks2 e"]
    have "d = d2" using assms(3,4) sched(5) T T2 p2 by auto
    moreover have "d2 \<noteq> ws_date (so_ws so)" using days.cand_some [OF w1(1) sched(2)] by blast
    moreover have "d2 < d'" if "d' \<in> meta_known (w_meta w2) - meta_pending (w_meta w2) - {ws_date (so_ws so)}" for d'
      using days.sched_oldest_first [OF w1(1) sched(2)] that w2 by simp
    ultimately show ?thesis using sched(1,5) T T2 p2 by auto
  qed
qed

lemma demo_cleanup_run:
  "so_world (check_and_cleanup (demo_cleanup SqlPrepareFail) config_defaults demo_storage)
     = (demo_world 0)\<lparr>w_meta := meta_sched demo_day (demo_meta 0)\<rparr>"
proof -
  have idle: "retention_process_tasks 1 (\<lambda>i. demo_retention) (demo_world 0) = demo_world 0"
    by (simp add: retention_process_tasks.simps retention_round_def demo_world_ok demo_meta_def pending_dates_def)
  have stop: "retention_process_tasks 1 (\<lambda>i. demo_retention\<lparr>re_select := SqlPrepareFail\<rparr>) w = w" for w
    by (simp add: retention_process_tasks.simps retention_round_def)
  have "meta_cand demo_today (demo_meta 0) = Some demo_day"
    using demo_dates(3) by (simp add: meta_cand_def demo_meta_def)
  then have cand: "meta_db_oldest_retention_candidate SqlOk ((so_ws demo_storage)\<lparr>ws_ts_since_cleanup := 0\<rparr>)
      demo_today (demo_world 0) = Some demo_day"
    using demo_dates(1)
    by (auto simp: meta_db_oldest_retention_candidate_def meta_cand_def demo_world_ok split: list.splits)
  have sched: "retention_schedule_delete SqlOk demo_day (demo_world 0)
      = (1, (demo_world 0)\<lparr>w_meta := meta_sched demo_day (demo_meta 0)\<rparr>)"
    by (simp add: retention_schedule_delete_def demo_world_ok meta_sched_def) (simp add: demo_meta_def)
  have low: "fs_free_mb (Some (1000, 4096)) = 3" by code_simp
  show ?thesis
    using idle stop cand sched
    by (simp add: check_and_cleanup_def demo_cleanup_def config_defaults_def CFG_CLEANUP_EVERY_TS_def
        CFG_DISK_FREE_MIN_MB_def low Let_def)
qed

lemma cleanup_oldest_first_witness:
  "fs_free_mb (Some (1000, 4096)) < st_disk_free_min_mb (c_storage config_defaults) \<and> demo_day \<noteq> demo_today"
proof -
  have "demo_day \<in> meta_pending (w_meta (so_world (check_and_cleanup (demo_cleanup SqlPrepareFail) config_defaults demo_storage)))"
    by (simp add: demo_cleanup_run days.sched_pending)
  from cleanup_oldest_first [OF _ _ this] show ?thesis
    by (simp add: demo_world_ok) (simp add: demo_cleanup_def)
qed

section \<open>What goes wrong\<close>



lemma pending_counts:
  "map mr_date (filter (\<lambda>r. mr_state r = s) (map (\<lambda>r. if mr_date r = d then r\<lparr>mr_motion_count := n\<rparr> else r) rs))
     = map mr_date (filter (\<lambda>r. mr_state r = s) rs)"
  by (induction rs) auto

text \<open>
C35: Recording on a day that is pending deletion does not save it: neither \<open>meta_db_ensure_day\<close> nor a
motion update takes the mark off, and the next successful round that gets this day removes everything
under its directory, the segments being recorded included.\<close>

theorem pending_today_is_removed:
  assumes "meta_inv (w_meta w)" and "dates_ok (w_meta w)" and "tree_ok (w_fs w)"
    and "meta_pending (w_meta w) = {ws_date ws}"
    and "w1 = meta_db_upsert_motion_count sql2 ws n (meta_db_ensure_day sql1 ws w)"
    and "re_select e = SqlOk" and "re_delete e = SqlOk"
    and "re_lstat e (day_path (ws_date ws)) = LstatDir walk" and "\<forall>(p, ok)\<in>set walk. ok"
    and "walk_all (w_fs w) (day_path (ws_date ws)) (LstatDir walk)"
  shows "meta_pending (w_meta w1) = {ws_date ws} \<and>
    (\<forall>p. under (day_path (ws_date ws)) p \<longrightarrow> \<not> fs_exists (w_fs (fst (retention_round e w1))) p)"
proof -
  have known: "meta_has (ws_date ws) (w_meta w)"
    using assms(1,4) days.pending_known by (auto simp: meta_has_known)
  have w1: "w_fs w1 = w_fs w" "w_meta w1 = (if ws_meta_db ws \<and> sql2 = SqlOk then (w_meta w)\<lparr>md_rows :=
      map (\<lambda>r. if mr_date r = ws_date ws then r\<lparr>mr_motion_count := n\<rparr> else r) (md_rows (w_meta w))\<rparr> else w_meta w)"
    using known by (auto simp: assms(5) meta_db_ensure_day_def meta_db_upsert_motion_count_def)
  have dates: "pending_dates (w_meta w1) = pending_dates (w_meta w)"
    unfolding w1(2) by (simp add: pending_dates_def pending_counts)
  have pend: "meta_pending (w_meta w1) = {ws_date ws}" using dates assms(4) by (simp add: meta_pending_def)
  define ps where "ps = pending_dates (w_meta w1)"
  have ps: "set ps = {ws_date ws}" using pend by (simp add: meta_pending_def ps_def)
  then have ne: "ps \<noteq> []" by (metis insert_not_empty list.set(1))
  then have "ps ! (re_pick e mod length ps) \<in> set ps" by simp
  then have pick: "ps ! (re_pick e mod length ps) = ws_date ws" using ps by simp
  have ok: "date_ok (ws_date ws)" using known assms(2) by (auto simp: dates_ok_def meta_has_known)
  obtain rc fs' where rm: "remove_path_tree (LstatDir walk) (day_path (ws_date ws)) (w_fs w) = (rc, fs')" by fastforce
  have "fst (remove_recursive walk fs) = 0" if "\<forall>(p, ok)\<in>set walk. ok" for fs
    using that by (induction walk arbitrary: fs) (auto simp: nuke_cb_def)
  from this [OF assms(9), of "w_fs w"] have "rc = 0" using rm by (simp add: remove_path_tree_def)
  then have "\<forall>p. under (day_path (ws_date ws)) p \<longrightarrow> \<not> fs_exists fs' p"
    using remove_path_tree_gone [OF rm assms(3)] assms(10) by blast
  moreover have "w_fs (fst (retention_round e w1)) = fs'"
    using ne ok assms(6,7) \<open>rc = 0\<close> unfolding retention_round_def Let_def ps_def [symmetric] pick
    by (simp add: assms(8) w1(1) rm) (simp add: date_ok_def)
  ultimately show ?thesis using pend by simp
qed

definition demo_doomed :: world where
  "demo_doomed = (demo_world 1)\<lparr>w_meta := \<lparr>md_rows = [\<lparr>mr_id = 1, mr_date = demo_day, mr_motion_count = 4,
     mr_state = 1\<rparr>], md_seq = 1\<rparr>\<rparr>"

lemma pending_today_is_removed_witness:
  "\<not> fs_exists (w_fs (fst (retention_round demo_retention
      (meta_db_upsert_motion_count SqlOk (demo_ws\<lparr>ws_date := demo_day\<rparr>) 5
        (meta_db_ensure_day SqlOk (demo_ws\<lparr>ws_date := demo_day\<rparr>) demo_doomed)))))
     ''/mnt/sdcard/DCIM/2024-01-01/EventLogs.db''"
proof -
  let ?ws = "demo_ws\<lparr>ws_date := demo_day\<rparr>"
  have date: "ws_date ?ws = demo_day" by (simp add: demo_ws_def)
  have inv: "meta_inv (w_meta demo_doomed)" "dates_ok (w_meta demo_doomed)"
      "meta_pending (w_meta demo_doomed) = {ws_date ?ws}"
    using demo_dates(1)
    by (auto simp: date demo_doomed_def meta_inv_def dates_ok_def meta_known_def meta_pending_def pending_dates_def)
  have fs: "w_fs demo_doomed = w_fs (demo_world 1)" by (simp add: demo_doomed_def)
  have sel: "re_select demo_retention = SqlOk" "re_delete demo_retention = SqlOk"
      "re_lstat demo_retention (day_path (ws_date ?ws)) = LstatDir demo_walk"
    by (simp_all add: demo_retention_def date)
  have walk: "walk_all (w_fs demo_doomed) (day_path (ws_date ?ws)) (LstatDir demo_walk)"
    using demo_walk_ok(2) [of 1] sel(3) by (simp add: date fs)
  have tree: "tree_ok (w_fs demo_doomed)" using demo_world_ok(1) [of 1] by (simp add: fs)
  have oks: "\<forall>(p, ok)\<in>set demo_walk. ok" by (simp add: demo_walk_def)
  from pending_today_is_removed [OF inv(1,2) tree inv(3) refl sel oks walk]
  show ?thesis by (simp add: date demo_day_path under_def)
qed

end
