(* ===== verification/WriterThread.thy ===== *)
theory WriterThread
  imports Storage HlsProps FrameQueueRuns
begin

text \<open>
  The writer thread of \<open>src/storage.c\<close> from start to join: its boot and the handshake with
  \<open>storage_init\<close>, its loop over the frame queue, its shutdown; and what the writer guarantees while
  the capture thread pushes concurrently.
\<close>

section \<open>The thread\<close>

record boot_env =
  be_open :: open_env
  be_meta_open :: bool
  be_meta_exec :: bool
  be_flush :: hls_cb_env
  be_realloc :: bool
  be_ensure :: sql_result

text \<open>What precedes the loop, and whether the loop is entered.\<close>

definition writer_boot ::
  "'ts mpeg_ts \<Rightarrow> 'pl m3u8_ops \<Rightarrow> int \<Rightarrow> boot_env \<Rightarrow> ms_config_t \<Rightarrow> ('ts, 'pl) storage
     \<Rightarrow> bool \<times> ('ts, 'pl) storage" where
  "writer_boot mts ops avtype e cfg so = (case open_today mts ops (be_open e) cfg so of
      (rc, so1) \<Rightarrow>
        if rc \<noteq> 0 then (False, so1)
        else case meta_db_init (be_meta_open e) (be_meta_exec e) (so_ws so1) of
          (rc, ws2) \<Rightarrow>
            let so2 = so1\<lparr>so_ws := ws2\<rparr>
            in if rc \<noteq> 0
               then let so3 = hls_flush_and_destroy mts ops (be_flush e) (be_realloc e) avtype so2
                    in (False, so3\<lparr>so_ws := event_db_close (so_ws so3)\<rparr>)
               else (True, on_world (meta_db_ensure_day (be_ensure e)) so2))"

text \<open>
  The loop's body on one frame: \<open>wr_frames\<close> counts the frames and selects what the next one meets,
  \<open>wr_freed\<close> lists the blocks the loop has freed.
\<close>

record ('ts, 'pl) writer =
  wr_so :: "('ts, 'pl) storage"
  wr_frames :: nat
  wr_freed :: "bytes list"

definition writer_body ::
  "'ts mpeg_ts \<Rightarrow> 'pl m3u8_ops \<Rightarrow> int \<Rightarrow> (nat \<Rightarrow> frame_env) \<Rightarrow> ms_config_t
     \<Rightarrow> ('ts, 'pl) writer \<Rightarrow> fq_frame \<Rightarrow> ('ts, 'pl) writer" where
  "writer_body mts ops avtype fe cfg w f =
     \<lparr>wr_so = ingest_frame mts ops avtype (fe (wr_frames w)) cfg f (wr_so w),
      wr_frames = Suc (wr_frames w), wr_freed = wr_freed w @ [frame_block f]\<rparr>"

record stop_env =
  xe_flush :: hls_cb_env
  xe_realloc :: bool
  xe_update :: sql_result

text \<open>What follows the loop.\<close>

definition writer_close ::
  "'ts mpeg_ts \<Rightarrow> 'pl m3u8_ops \<Rightarrow> int \<Rightarrow> stop_env \<Rightarrow> ('ts, 'pl) storage \<Rightarrow> ('ts, 'pl) storage" where
  "writer_close mts ops avtype e so =
     (let so1 = hls_flush_and_destroy mts ops (xe_flush e) (xe_realloc e) avtype so;
          so2 = on_world (event_db_update_total_frames (xe_update e)) so1
      in so2\<lparr>so_ws := event_db_close (so_ws so2)\<rparr>)"

section \<open>The module's interface\<close>

definition ws_zero :: "('ts, 'pl) writer_state_t" where
  "ws_zero = \<lparr>ws_date = [], ws_day_of_year = 0, ws_interrupt_idx = 0, ws_date_dir = [], ws_segment_dir = [],
     ws_hls = None, ws_m3u = None, ws_ts_idx = 0, ws_ts_since_cleanup = 0, ws_pts_ms = 0, ws_meta_db = False,
     ws_event_db = None, ws_current_segment_id = 0, ws_frame_count = 0, ws_motion_count = 0, ws_last_fps = 0,
     ws_last_motion_ms = 0, ws_seen_keyframe = False\<rparr>"

record ('ts, 'pl) storage_mod =
  sm_started :: bool
  sm_writer :: "('ts, 'pl) writer"

text \<open>
  \<open>storage_init\<close> clears the state, starts the thread and waits for the end of its boot; a thread
  that fails to boot has ended and is joined.
\<close>

definition storage_init ::
  "'ts mpeg_ts \<Rightarrow> 'pl m3u8_ops \<Rightarrow> int \<Rightarrow> bool \<Rightarrow> boot_env \<Rightarrow> ms_config_t \<Rightarrow> ('ts, 'pl) storage
     \<Rightarrow> int \<times> ('ts, 'pl) storage_mod" where
  "storage_init mts ops avtype create_ok e cfg so0 =
     (let so = so0\<lparr>so_ws := ws_zero\<rparr>;
          m = (\<lambda>b so. \<lparr>sm_started = b, sm_writer = \<lparr>wr_so = so, wr_frames = 0, wr_freed = []\<rparr>\<rparr>)
      in if \<not> create_ok then (-1, m False so)
         else case writer_boot mts ops avtype e cfg so of
           (ok, so') \<Rightarrow> if ok then (0, m True so') else (-1, m False so'))"

text \<open>
  \<open>storage_stop\<close> closes the queue and joins the thread, which drains it; \<open>fuel\<close> bounds the
  iterations of the drain, and \<open>None\<close> means it did not suffice.
\<close>

definition storage_stop ::
  "'ts mpeg_ts \<Rightarrow> 'pl m3u8_ops \<Rightarrow> int \<Rightarrow> (nat \<Rightarrow> frame_env) \<Rightarrow> stop_env \<Rightarrow> ms_config_t \<Rightarrow> nat \<Rightarrow> frame_queue
     \<Rightarrow> ('ts, 'pl) storage_mod \<Rightarrow> (frame_queue \<times> ('ts, 'pl) storage_mod) option" where
  "storage_stop mts ops avtype fe xe cfg fuel q m =
     (if \<not> sm_started m then Some (q, m)
      else case drain fq_take (writer_body mts ops avtype fe cfg) fuel (the (fq_close (Some q))) (sm_writer m) of
        None \<Rightarrow> None
      | Some (w, q') \<Rightarrow>
          Some (q', m\<lparr>sm_started := False,
                      sm_writer := w\<lparr>wr_so := writer_close mts ops avtype xe (wr_so w)\<rparr>\<rparr>))"

definition storage_deinit ::
  "'ts mpeg_ts \<Rightarrow> 'pl m3u8_ops \<Rightarrow> int \<Rightarrow> (nat \<Rightarrow> frame_env) \<Rightarrow> stop_env \<Rightarrow> ms_config_t \<Rightarrow> nat \<Rightarrow> frame_queue
     \<Rightarrow> ('ts, 'pl) storage_mod \<Rightarrow> (frame_queue \<times> ('ts, 'pl) storage_mod) option" where
  "storage_deinit mts ops avtype fe xe cfg fuel q m =
     (case storage_stop mts ops avtype fe xe cfg fuel q m of
        None \<Rightarrow> None
      | Some (q', m') \<Rightarrow>
          let so = wr_so (sm_writer m')
          in Some (q', m'\<lparr>sm_writer := (sm_writer m')\<lparr>wr_so := so\<lparr>so_ws := (so_ws so)\<lparr>ws_meta_db := False\<rparr>\<rparr>\<rparr>\<rparr>))"

section \<open>The writer beside the capture thread\<close>

text \<open>
  One event of the queue, and what it means for the writer: a pop that takes a frame runs the loop's
  body on it.
\<close>

definition writer_event ::
  "('w \<Rightarrow> fq_frame \<Rightarrow> 'w) \<Rightarrow> fq_trace \<times> 'w \<Rightarrow> fq_event \<Rightarrow> fq_trace \<times> 'w" where
  "writer_event body tw ev =
     (run_event (fst tw) ev,
      case ev of
        EvPop \<Rightarrow> (case fq_take (t_q (fst tw)) of None \<Rightarrow> snd tw | Some (f, q') \<Rightarrow> body (snd tw) f)
      | _ \<Rightarrow> snd tw)"

definition writer_run ::
  "('w \<Rightarrow> fq_frame \<Rightarrow> 'w) \<Rightarrow> nat \<Rightarrow> fq_event list \<Rightarrow> 'w \<Rightarrow> fq_trace \<times> 'w" where
  "writer_run body c evs w = foldl (writer_event body) (start_trace (the (fq_create True True c)), w) evs"

lemma run_event_out:
  "t_out (run_event t ev) = t_out t @ (case ev of
      EvPop \<Rightarrow> (case fq_take (t_q t) of None \<Rightarrow> [] | Some (f, q') \<Rightarrow> [f]) | _ \<Rightarrow> [])"
  by (cases ev)
    (auto simp: run_event.simps fq_pop_def fq_take_def fq_pop_locked_def split: prod.splits if_splits)

lemma writer_run_out:
  "writer_run body c evs w = (run_fq c evs, foldl body w (t_out (run_fq c evs)))"
proof (induction evs rule: rev_induct)
  case Nil
  then show ?case by (simp add: writer_run_def run_fq_def start_trace_def)
next
  case (snoc ev evs)
  have "writer_run body c (evs @ [ev]) w = writer_event body (writer_run body c evs w) ev"
    by (simp add: writer_run_def)
  then show ?case
    unfolding snoc.IH
    by (auto simp: writer_event_def run_fq_snoc run_event_out split: fq_event.splits option.splits)
qed

lemma writer_body_freed:
  "wr_freed (foldl (writer_body mts ops avtype fe cfg) w fs) = wr_freed w @ map frame_block fs \<and>
   wr_frames (foldl (writer_body mts ops avtype fe cfg) w fs) = wr_frames w + length fs"
  by (induction fs arbitrary: w) (simp_all add: writer_body_def)

lemma storage_init_ok:
  assumes "storage_init mts ops avtype create_ok e cfg so0 = (0, m)"
  shows "sm_started m \<and> wr_frames (sm_writer m) = 0 \<and> wr_freed (sm_writer m) = [] \<and>
    writer_boot mts ops avtype e cfg (so0\<lparr>so_ws := ws_zero\<rparr>) = (True, wr_so (sm_writer m))"
  using assms by (auto simp: storage_init_def Let_def split: if_splits prod.splits)

section \<open>The boot handshake\<close>

text \<open>
  \<open>storage_init\<close> waits on \<open>s_writer_boot_cv\<close> until \<open>s_writer_boot_done\<close>; the writer sets the flags
  and signals in one critical section once its boot has ended, well (\<open>booted\<close>) or not. Each step is
  a critical section of \<open>s_writer_boot_mu\<close>; a waiter may also wake without a signal.
\<close>

datatype boot_waiter = BwChecking | BwAsleep | BwReturned bool

record boot_state =
  bs_done :: bool
  bs_ok :: bool
  bs_main :: boot_waiter
  bs_booting :: bool

definition boot_start :: boot_state where
  "boot_start = \<lparr>bs_done = False, bs_ok = False, bs_main = BwChecking, bs_booting = True\<rparr>"

inductive boot_step :: "bool \<Rightarrow> boot_state \<Rightarrow> boot_state \<Rightarrow> bool" for booted where
  boot_signal: "bs_booting b \<Longrightarrow>
    boot_step booted b (b\<lparr>bs_done := True, bs_ok := booted, bs_booting := False,
      bs_main := (if bs_main b = BwAsleep then BwChecking else bs_main b)\<rparr>)"
| boot_wait: "bs_main b = BwChecking \<Longrightarrow> \<not> bs_done b \<Longrightarrow> boot_step booted b (b\<lparr>bs_main := BwAsleep\<rparr>)"
| boot_return: "bs_main b = BwChecking \<Longrightarrow> bs_done b \<Longrightarrow>
    boot_step booted b (b\<lparr>bs_main := BwReturned (bs_ok b)\<rparr>)"

inductive boot_spurious :: "boot_state \<Rightarrow> boot_state \<Rightarrow> bool" where
  boot_wake: "bs_main b = BwAsleep \<Longrightarrow> boot_spurious b (b\<lparr>bs_main := BwChecking\<rparr>)"

inductive boot_reach :: "bool \<Rightarrow> boot_state \<Rightarrow> bool" for booted where
  boot_init: "boot_reach booted boot_start"
| boot_next: "boot_reach booted b \<Longrightarrow> boot_step booted b b' \<Longrightarrow> boot_reach booted b'"
| boot_woken: "boot_reach booted b \<Longrightarrow> boot_spurious b b' \<Longrightarrow> boot_reach booted b'"

inductive_cases boot_step_elims: "boot_step booted b b'"
inductive_cases boot_spurious_elims: "boot_spurious b b'"

text \<open>The steps left, not counting unwarranted wake-ups.\<close>

definition boot_left :: "boot_state \<Rightarrow> nat" where
  "boot_left b = (if bs_booting b then 2 else 0) + (if bs_main b = BwChecking then 1 else 0)"

definition boot_inv :: "bool \<Rightarrow> boot_state \<Rightarrow> bool" where
  "boot_inv booted b \<longleftrightarrow> bs_done b = (\<not> bs_booting b) \<and> (bs_done b \<longrightarrow> bs_ok b = booted) \<and>
     (bs_main b = BwAsleep \<longrightarrow> bs_booting b) \<and>
     (\<forall>r. bs_main b = BwReturned r \<longrightarrow> r = booted \<and> \<not> bs_booting b)"

lemma boot_reach_inv: "boot_reach booted b \<Longrightarrow> boot_inv booted b"
proof (induction rule: boot_reach.induct)
  case boot_init
  then show ?case by (simp add: boot_inv_def boot_start_def)
next
  case (boot_next b b')
  from boot_next.hyps(2) boot_next.IH show ?case
    by (cases rule: boot_step.cases) (auto simp: boot_inv_def)
next
  case (boot_woken b b')
  then show ?case by (auto simp: boot_inv_def elim!: boot_spurious_elims)
qed

text \<open>
C20: The start-up handshake cannot hang: whatever the interleaving of \<open>storage_init\<close> and the writer, with
or without spurious wake-ups, \<open>storage_init\<close> takes the result of the writer's boot and nothing else,
some step is possible until it has, and every step but a spurious wake-up leaves fewer to go.\<close>

theorem boot_handshake:
  assumes "boot_reach booted b"
  shows "(\<forall>r. bs_main b = BwReturned r \<longrightarrow> r = booted) \<and>
    (bs_main b \<noteq> BwReturned booted \<longrightarrow> (\<exists>b'. boot_step booted b b')) \<and>
    (\<forall>b'. boot_step booted b b' \<longrightarrow> boot_left b' < boot_left b)"
proof -
  have inv: "boot_inv booted b" by (rule boot_reach_inv [OF assms])
  have "\<exists>b'. boot_step booted b b'" if "bs_main b \<noteq> BwReturned booted"
  proof (cases "bs_booting b")
    case True
    then show ?thesis by (blast intro: boot_signal)
  next
    case False
    with inv that have "bs_main b = BwChecking" "bs_done b"
      by (cases "bs_main b"; auto simp: boot_inv_def)+
    then show ?thesis by (blast intro: boot_return)
  qed
  moreover have "boot_left b' < boot_left b" if "boot_step booted b b'" for b'
    using that inv by (cases rule: boot_step.cases) (auto simp: boot_left_def boot_inv_def)
  ultimately show ?thesis using inv by (simp add: boot_inv_def)
qed

lemma boot_handshake_witness:
  "boot_reach False \<lparr>bs_done = True, bs_ok = False, bs_main = BwChecking, bs_booting = False\<rparr> \<and>
   (\<exists>b'. boot_step False \<lparr>bs_done = True, bs_ok = False, bs_main = BwChecking, bs_booting = False\<rparr> b')"
proof -
  have "boot_reach False (boot_start\<lparr>bs_main := BwAsleep\<rparr>)"
    by (rule boot_next [OF boot_init boot_wait]) (simp_all add: boot_start_def)
  from boot_next [OF this boot_signal] have
    r: "boot_reach False \<lparr>bs_done = True, bs_ok = False, bs_main = BwChecking, bs_booting = False\<rparr>"
    by (simp add: boot_start_def)
  with boot_handshake [OF r] show ?thesis by simp
qed

end
