(* ===== verification/SegmentNames.thy ===== *)
theory SegmentNames
  imports Storage
begin

text \<open>
  The names of the files and directories of a recording: five-digit numbers, which are injective, and
  the segments and the playlist of a segment directory, which never meet, temporary files included.
\<close>

section \<open>Numbers\<close>

lemma digits_val_zeros: "digits_val (replicate k CHR ''0'' @ ds) = digits_val ds"
proof -
  have "foldl (\<lambda>v c. 10 * v + digit_val c) 0 (replicate k CHR ''0'') = 0"
    by (induction k) (simp_all add: digit_val_def)
  then show ?thesis by (simp add: digits_val_def)
qed

lemma pad5_digits: "0 \<le> n \<Longrightarrow> (\<forall>c\<in>set (pad5 n). is_digit c) \<and> digits_val (pad5 n) = n \<and> pad5 n \<noteq> []"
  using show_nat_digits [of n] by (auto simp: pad5_def digits_val_zeros is_digit_def)

lemma pad5_inj: "0 \<le> m \<Longrightarrow> 0 \<le> n \<Longrightarrow> pad5 m = pad5 n \<longleftrightarrow> m = n"
  using pad5_digits [of m] pad5_digits [of n] by metis

lemma show_nat_length: "n < 10 ^ Suc k \<Longrightarrow> length (show_nat n) \<le> Suc k"
proof (induction k arbitrary: n)
  case (Suc k)
  then have "n div 10 < 10 ^ Suc k" by (simp add: div_less_iff_less_mult mult.commute)
  then show ?case using Suc.IH [of "n div 10"] by (subst show_nat.simps) auto
qed (subst show_nat.simps, simp)

lemma pad5_length: "0 \<le> n \<Longrightarrow> n < 10 ^ 11 \<Longrightarrow> length (pad5 n) \<le> 11 \<and> 5 \<le> length (pad5 n)"
  using show_nat_length [of n 10] by (auto simp: pad5_def)

section \<open>The files of a segment directory\<close>

text \<open>The files the writer names, when no buffer cuts them off: they are apart, and short enough to write.\<close>

definition ts_file :: "string \<Rightarrow> int \<Rightarrow> string" where
  "ts_file dir i = dir @ pad5 i @ ''.ts''"

definition playlist_file :: "string \<Rightarrow> string" where
  "playlist_file dir = dir @ ''index.m3u8''"

definition seg_dir_ok :: "string \<Rightarrow> bool" where
  "seg_dir_ok dir \<longleftrightarrow> length dir < SEGMENT_DIR_SIZE \<and> CHR ''/'' \<in> set dir"

lemma ts_path_file:
  assumes "seg_dir_ok (ws_segment_dir ws)" and "0 \<le> ws_ts_idx ws" and "ws_ts_idx ws < 10 ^ 11"
  shows "ts_path ws = ts_file (ws_segment_dir ws) (ws_ts_idx ws)"
proof -
  have "c_trunc TS_NAME_SIZE (pad5 (ws_ts_idx ws) @ ''.ts'') = pad5 (ws_ts_idx ws) @ ''.ts''"
    using pad5_length [OF assms(2,3)] unfolding c_trunc_def TS_NAME_SIZE_def by (intro take_all) simp
  moreover have "c_trunc MEDIA_PATH_SIZE (ts_file (ws_segment_dir ws) (ws_ts_idx ws)) = ts_file (ws_segment_dir ws) (ws_ts_idx ws)"
    using assms(1) pad5_length [OF assms(2,3)] unfolding c_trunc_def MEDIA_PATH_SIZE_def seg_dir_ok_def SEGMENT_DIR_SIZE_def
    by (intro take_all) (simp add: ts_file_def)
  ultimately show ?thesis by (simp add: ts_path_def ts_file_def)
qed

lemma m3u_path_file:
  assumes "seg_dir_ok (ws_segment_dir ws)"
  shows "m3u_path ws = playlist_file (ws_segment_dir ws)"
  using assms unfolding m3u_path_def playlist_file_def c_trunc_def MEDIA_PATH_SIZE_def seg_dir_ok_def SEGMENT_DIR_SIZE_def
  by (intro take_all) simp

lemma seg_files_writable:
  assumes "seg_dir_ok dir" and "0 \<le> i" and "i < 10 ^ 11"
  shows "length (ts_file dir i) < 160" "parent_dir (ts_file dir i) \<noteq> None"
    "length (playlist_file dir) < 160" "parent_dir (playlist_file dir) \<noteq> None"
proof -
  obtain a b where "dir = a @ CHR ''/'' # b" using assms(1) by (auto simp: seg_dir_ok_def in_set_conv_decomp)
  then show "parent_dir (ts_file dir i) \<noteq> None" "parent_dir (playlist_file dir) \<noteq> None"
    using parent_dir_some [of a "b @ pad5 i @ ''.ts''"] parent_dir_some [of a "b @ ''index.m3u8''"]
    by (simp_all add: ts_file_def playlist_file_def)
qed (use assms pad5_length [OF assms(2,3)] in \<open>auto simp: ts_file_def playlist_file_def seg_dir_ok_def SEGMENT_DIR_SIZE_def\<close>)

lemma takeWhile_pad5: "0 \<le> i \<Longrightarrow> takeWhile is_digit (pad5 i @ CHR ''.'' # r) = pad5 i"
  using pad5_digits [of i] by (subst takeWhile_append2) (auto simp: is_digit_def)

lemma ts_files_apart:
  assumes "0 \<le> i" and "0 \<le> j" and "i \<noteq> j"
  shows "paths_apart (ts_file dir i) (ts_file dir j)"
proof -
  have "pad5 i @ ''.ts'' \<noteq> pad5 j @ CHR ''.'' # r" for r
    using takeWhile_pad5 [OF assms(1), of "''ts''"] takeWhile_pad5 [OF assms(2), of r] pad5_inj [OF assms(1,2)] assms(3)
    by auto
  from this [of "''ts''"] this [of "''ts.tmp.'' @ sfx" for sfx] show ?thesis
    using pad5_inj [OF assms(1,2)] assms(3) by (auto simp: paths_apart_def ts_file_def tmp_name_def)
qed

lemma ts_playlist_apart:
  assumes "0 \<le> i"
  shows "paths_apart (ts_file dir i) (playlist_file dir)" "paths_apart (playlist_file dir) (ts_file dir i)"
proof -
  obtain c cs where "pad5 i = c # cs" "is_digit c" using pad5_digits [OF assms] by (cases "pad5 i") auto
  then show "paths_apart (ts_file dir i) (playlist_file dir)" "paths_apart (playlist_file dir) (ts_file dir i)"
    by (auto simp: paths_apart_def ts_file_def playlist_file_def tmp_name_def is_digit_def)
qed

section \<open>The names of a segment\<close>

lemma pad5_digit: "\<exists>c cs. pad5 n = c # cs \<and> (is_digit c \<or> c = CHR ''-'')"
proof (cases "0 \<le> n")
  case True
  then have "\<forall>c\<in>set (pad5 n). is_digit c" "pad5 n \<noteq> []"
    using show_nat_digits [of n] by (auto simp: pad5_def is_digit_def)
  then show ?thesis by (cases "pad5 n") auto
next
  case False
  then show ?thesis by (simp add: pad5_def)
qed

text \<open>Within the segment directory, the names of the segment and of the playlist.\<close>

lemma segment_names:
  assumes "length (ws_segment_dir ws) < SEGMENT_DIR_SIZE"
  shows "\<exists>c cs ds. ts_path ws = ws_segment_dir ws @ c # cs \<and> c \<noteq> CHR ''i'' \<and>
    m3u_path ws = ws_segment_dir ws @ CHR ''i'' # ds"
proof -
  obtain c cs where p: "pad5 (ws_ts_idx ws) = c # cs" "is_digit c \<or> c = CHR ''-''" using pad5_digit by blast
  have "c_trunc TS_NAME_SIZE (pad5 (ws_ts_idx ws) @ ''.ts'') = c # take 14 (cs @ ''.ts'')"
    by (simp add: p c_trunc_def TS_NAME_SIZE_def)
  then have "ts_path ws = ws_segment_dir ws @ c # take 14 (cs @ ''.ts'')"
    using assms by (simp add: ts_path_def c_trunc_def MEDIA_PATH_SIZE_def SEGMENT_DIR_SIZE_def)
  moreover have "m3u_path ws = ws_segment_dir ws @ ''index.m3u8''"
    using assms by (simp add: m3u_path_def c_trunc_def MEDIA_PATH_SIZE_def SEGMENT_DIR_SIZE_def)
  moreover have "c \<noteq> CHR ''i''" using p(2) by (auto simp: is_digit_def)
  ultimately show ?thesis by blast
qed

lemma segment_names_distinct:
  assumes "length (ws_segment_dir ws) < SEGMENT_DIR_SIZE"
  shows "ts_path ws \<noteq> m3u_path ws" "\<forall>sfx. ts_path ws \<noteq> tmp_name (m3u_path ws) sfx"
    "\<forall>sfx. m3u_path ws \<noteq> tmp_name (ts_path ws) sfx"
  using segment_names [OF assms] by (auto simp: tmp_name_def)

end
