(* ===== verification/WriterProps.thy ===== *)
theory WriterProps
  imports WriterThread Retention SegmentNames
begin

text \<open>
  What the writer guarantees: the order of a segment and its playlist on the card, no crash while
  days roll over and rates are sane, every frame handled before the join, and what goes wrong.
\<close>

section \<open>A segment and its playlist\<close>

text \<open>
C7: A segment is on the card before any playlist names it. When \<open>hls_cb\<close> returns 0, the segment's file has
exactly the segment's bytes and \<open>index.m3u8\<close> exactly the new playlist, now and after a power failure;
and whatever it returns, if the playlist a process reads or a power failure may leave has changed at
all, the segment's file is already durable.\<close>

theorem segment_before_playlist:
  assumes "hls_cb ops e data pts dts duration so = (rc, so')" and "ws_m3u (so_ws so) = Some pl"
    and "length (ws_segment_dir (so_ws so)) < SEGMENT_DIR_SIZE"
    and "fs_wf (w_fs (so_world so))"
    and "fs_dir (w_fs (so_world so)) (m3u_path (so_ws so)) \<in> set (fs_disk (w_fs (so_world so)) (m3u_path (so_ws so)))"
  shows "(rc = 0 \<longrightarrow> durable (w_fs (so_world so')) (ts_path (so_ws so)) data \<and>
      (\<exists>pl'. ws_m3u (so_ws so') = Some pl' \<and>
         durable (w_fs (so_world so')) (m3u_path (so_ws so)) (pl_playlist ops pl'))) \<and>
    (fs_read (w_fs (so_world so')) (m3u_path (so_ws so)) \<noteq> fs_read (w_fs (so_world so)) (m3u_path (so_ws so)) \<or>
     (\<exists>c. crash_reads (w_fs (so_world so')) (m3u_path (so_ws so)) c \<and>
          \<not> crash_reads (w_fs (so_world so)) (m3u_path (so_ws so)) c) \<longrightarrow>
     durable (w_fs (so_world so')) (ts_path (so_ws so)) data)"
proof -
  let ?fs = "w_fs (so_world so)" and ?t = "ts_path (so_ws so)" and ?m = "m3u_path (so_ws so)"
  note D = segment_names_distinct [OF assms(3)]
  obtain rc1 h1 where w1: "write_file_atomic (he_ts e) ?t data ?fs = (rc1, h1)" by fastforce
  note o1 = write_file_atomic_other [OF w1 D(1) [symmetric] D(3)]
  define pl' where "pl' = pl_add ops pl (c_trunc TS_NAME_SIZE (pad5 (ws_ts_idx (so_ws so)) @ ''.ts'')) pts duration
    (0 \<le> so_last_dts so \<and> so_last_dts so + c_quot (pl_hls_duration ops) 2 < dts)"
  show ?thesis
  proof (cases "rc1 = 0")
    case False
    then have "rc = -1" "w_fs (so_world so') = hd h1"
      using assms(1,2) w1 by (auto simp: hls_cb_def Let_def split: if_splits)
    then show ?thesis using other_path_reads [OF o1 assms(4,5)] by auto
  next
    case True
    obtain rc2 h2 where w2: "write_file_atomic (he_m3u e) ?m (pl_playlist ops pl') (hd h1) = (rc2, h2)" by fastforce
    have "replace_file (he_ts e) ?t data ?fs = (0, hd h1)"
      "replace_file (he_m3u e) ?m (pl_playlist ops pl') (hd h1) = (rc2, hd h2)" "paths_apart ?t ?m"
      using w1 w2 True D by (simp_all add: replace_file_def paths_apart_def)
    note C = card.put_in_turn [OF this]
    have fs': "w_fs (so_world so') = hd h2" and rc: "rc = 0 \<longleftrightarrow> rc2 = 0" and pl: "ws_m3u (so_ws so') = Some pl'"
      using assms(1,2) w1 True w2
      by (auto simp: hls_cb_def Let_def pl'_def [symmetric] split: if_splits prod.splits)
    show ?thesis using C committed_durable fs' rc pl by auto
  qed
qed

section \<open>The writer is ready for a frame\<close>

definition writer_ok :: "('ts, 'pl) storage \<Rightarrow> bool" where
  "writer_ok so \<longleftrightarrow> \<not> so_fault so \<and> ws_m3u (so_ws so) \<noteq> None \<and>
     (\<exists>hls. ws_hls (so_ws so) = Some hls \<and> hls_inv hls \<and> hm_duration hls = 0)"

lemma hls_cb_frame:
  assumes "hls_cb ops e data pts dts duration so = (rc, so')" and "ws_m3u (so_ws so) \<noteq> None"
  shows "so_fault so' = so_fault so \<and> ws_m3u (so_ws so') \<noteq> None \<and>
    so_ws so' = (so_ws so)\<lparr>ws_ts_idx := ws_ts_idx (so_ws so) + 1, ws_m3u := ws_m3u (so_ws so'),
       ws_ts_since_cleanup := ws_ts_since_cleanup (so_ws so')\<rparr>"
proof -
  obtain pl where "ws_m3u (so_ws so) = Some pl" using assms(2) by blast
  then show ?thesis
    using assms(1)
    by (auto simp: hls_cb_def Let_def split: if_splits prod.splits intro!: writer_state_t.equality)
qed

text \<open>What \<open>hls_cb\<close> keeps of the writer, whether it succeeds or not.\<close>

definition cb_keeps :: "('ts, 'pl) storage \<Rightarrow> ('ts, 'pl) storage \<Rightarrow> bool" where
  "cb_keeps so so' \<longleftrightarrow> ws_frame_count (so_ws so') = ws_frame_count (so_ws so) \<and>
     ws_day_of_year (so_ws so') = ws_day_of_year (so_ws so) \<and>
     (ws_m3u (so_ws so) \<noteq> None \<longrightarrow> so_fault so' = so_fault so \<and> ws_m3u (so_ws so') \<noteq> None)"

lemma hls_cb_keeps: "cb_keeps so (snd (hls_cb ops e data pts dts duration so))"
proof -
  obtain rc so' where run: "hls_cb ops e data pts dts duration so = (rc, so')" by fastforce
  then have "ws_frame_count (so_ws so') = ws_frame_count (so_ws so) \<and> ws_day_of_year (so_ws so') = ws_day_of_year (so_ws so)"
    by (auto simp: hls_cb_def Let_def storage_fault_def split: if_splits prod.splits option.splits)
  then show ?thesis using hls_cb_frame [OF run] by (simp add: cb_keeps_def run)
qed

interpretation cb: segment_handler "hls_cb ops e" cb_keeps for ops e
  by unfold_locales (simp add: cb_keeps_def, rule hls_cb_keeps)

lemma writer_input_ok:
  assumes "mts_ok mts" and "writer_ok so"
  shows "writer_ok (writer_input mts ops e realloc_ok avtype data n ms key so)"
proof -
  obtain hls where hls: "ws_hls (so_ws so) = Some hls" "hls_inv hls" "hm_duration hls = 0"
    and so: "\<not> so_fault so" "ws_m3u (so_ws so) \<noteq> None"
    using assms(2) by (auto simp: writer_ok_def)
  have cont: "hls_continuous mts ms hls" using hls(3) by (simp add: hls_continuous_def)
  obtain rc hls' so' where run:
    "hls_media_input mts (hls_cb ops e) realloc_ok avtype data n ms ms key hls so = Some (rc, hls', so')"
    using hls_media_input_inv [OF assms(1) hls(2) cont, where handler = "hls_cb ops e"] by metis
  note F = hls_media_input_duration [OF run assms(1) hls(2)]
  have "\<not> so_fault so' \<and> ws_m3u (so_ws so') \<noteq> None"
    using cb.input_keeps [OF run] so by (simp add: cb_keeps_def)
  then show ?thesis using run hls F by (auto simp: writer_input_def writer_ok_def)
qed

lemma storage_fault_set [simp]: "so_fault (storage_fault so)"
  by (simp add: storage_fault_def)

lemma on_world_fields [simp]:
  "so_ws (on_world f so) = so_ws so" "so_fault (on_world f so) = so_fault so"
  "writer_ok (on_world f so) = writer_ok so"
  by (simp_all add: on_world_def writer_ok_def)

lemma writer_ok_fields [simp]:
  "writer_ok (so\<lparr>so_ws := (so_ws so)\<lparr>ws_frame_count := n\<rparr>\<rparr>) = writer_ok so"
  "writer_ok (so\<lparr>so_ws := (so_ws so)\<lparr>ws_motion_count := n\<rparr>\<rparr>) = writer_ok so"
  "writer_ok (so\<lparr>so_ws := (so_ws so)\<lparr>ws_last_motion_ms := n\<rparr>\<rparr>) = writer_ok so"
  "writer_ok (so\<lparr>so_ws := (so_ws so)\<lparr>ws_last_fps := n\<rparr>\<rparr>) = writer_ok so"
  "writer_ok (so\<lparr>so_ws := (so_ws so)\<lparr>ws_ts_since_cleanup := n\<rparr>\<rparr>) = writer_ok so"
  "writer_ok (so\<lparr>so_ws := (so_ws so)\<lparr>ws_seen_keyframe := b, ws_pts_ms := n\<rparr>\<rparr>) = writer_ok so"
  "writer_ok (so\<lparr>so_world := w\<rparr>) = writer_ok so"
  by (simp_all add: writer_ok_def)

lemma writer_ok_input_some: "mts_ok mts \<Longrightarrow> writer_ok so \<Longrightarrow>
   \<exists>hls. ws_hls (so_ws (writer_input mts ops e r avtype data n ms key so)) = Some hls"
  using writer_input_ok [of mts so ops e r avtype data n ms key] by (auto simp: writer_ok_def)

lemma destroy_input_same [simp]: "destroy_input so = so"
  by (simp add: destroy_input_def hls_media_destroy_def split: option.splits)

lemma hls_flush_no_fault:
  assumes "mts_ok mts" and "writer_ok so"
  shows "\<not> so_fault (hls_flush_and_destroy mts ops e r avtype so)"
  using writer_input_ok [OF assms, of ops e r avtype None 0 0 False] assms(2)
  by (auto simp: hls_flush_and_destroy_def Let_def writer_ok_def split: option.splits)

lemma hls_flush_none [simp]:
  "ws_hls (so_ws (hls_flush_and_destroy mts ops e r avtype so)) = None"
  "ws_m3u (so_ws (hls_flush_and_destroy mts ops e r avtype so)) = None"
  by (auto simp: hls_flush_and_destroy_def Let_def split: option.splits)

lemma event_db_open_keeps:
  "event_db_open e ws w = (rc, ws', w') \<Longrightarrow> \<exists>db. ws' = ws\<lparr>ws_event_db := db\<rparr>"
  by (auto simp: event_db_open_def db_open_rw_def Let_def split: if_splits prod.splits option.splits)

text \<open>What \<open>open_today\<close> leaves: a fresh segment, or no segmenter unless there was one.\<close>

lemma open_today_cases:
  assumes "open_today mts ops e cfg so = (rc, so')"
  shows "so_fault so' = so_fault so \<and> so_last_dts so' = so_last_dts so \<and>
    (rc = 0 \<longrightarrow> ws_frame_count (so_ws so') = 0 \<and> ws_motion_count (so_ws so') = 0 \<and>
       \<not> ws_seen_keyframe (so_ws so') \<and> ws_m3u (so_ws so') \<noteq> None \<and>
       ws_hls (so_ws so') = hls_media_create mts (oe_malloc e) (st_hls_duration_s (c_storage cfg) * 1000) \<and>
       ws_hls (so_ws so') \<noteq> None) \<and>
    (rc \<noteq> 0 \<longrightarrow> ws_hls (so_ws so) = None \<longrightarrow> pl_create ops \<noteq> None \<longrightarrow> ws_hls (so_ws so') = None)"
  using assms
  by (auto simp: open_today_def Let_def hls_create_def event_db_close_def
      dest!: event_db_open_keeps split: prod.splits if_splits)

lemma cleanup_shape:
  "so' = so\<lparr>so_ws := (so_ws so)\<lparr>ws_ts_since_cleanup := n\<rparr>, so_world := w\<rparr> \<Longrightarrow>
   \<exists>n w. so' = so\<lparr>so_ws := (so_ws so)\<lparr>ws_ts_since_cleanup := n\<rparr>, so_world := w\<rparr>"
  by blast

lemma check_and_cleanup_keeps:
  "\<exists>n w. check_and_cleanup e cfg so = so\<lparr>so_ws := (so_ws so)\<lparr>ws_ts_since_cleanup := n\<rparr>, so_world := w\<rparr>"
proof (cases "ws_ts_since_cleanup (so_ws so) < st_cleanup_every_ts (c_storage cfg)")
  case True
  then have "check_and_cleanup e cfg so = so" by (simp add: check_and_cleanup_def)
  then show ?thesis by (intro cleanup_shape [where n = "ws_ts_since_cleanup (so_ws so)" and w = "so_world so"]) simp
next
  case False
  define w1 where "w1 = retention_process_tasks 1 (ce_tasks1 e) (so_world so)"
  define so1 where "so1 = so\<lparr>so_ws := (so_ws so)\<lparr>ws_ts_since_cleanup := 0\<rparr>, so_world := w1\<rparr>"
  have run: "check_and_cleanup e cfg so =
    (if st_disk_free_min_mb (c_storage cfg) \<le> fs_free_mb (ce_statvfs e) then so1
     else case meta_db_oldest_retention_candidate (ce_oldest e) (so_ws so1) (ws_date (so_ws so1)) (so_world so1) of
       None \<Rightarrow> so1
     | Some target \<Rightarrow> (case retention_schedule_delete (ce_schedule e) target (so_world so1) of (queued, w2) \<Rightarrow>
         if queued < 0 then so1\<lparr>so_world := w2\<rparr>
         else so1\<lparr>so_world := retention_process_tasks 1 (ce_tasks2 e) w2\<rparr>))"
    unfolding check_and_cleanup_def Let_def so1_def w1_def by (simp only: False if_False)
  have "check_and_cleanup e cfg so = so1 \<or> (\<exists>w. check_and_cleanup e cfg so = so1\<lparr>so_world := w\<rparr>)"
    unfolding run by (auto split: option.split prod.split)
  then show ?thesis by (auto simp: so1_def)
qed

lemma writer_ok_cleanup [simp]:
  "writer_ok (check_and_cleanup e cfg so) = writer_ok so" "so_fault (check_and_cleanup e cfg so) = so_fault so"
  "ws_frame_count (so_ws (check_and_cleanup e cfg so)) = ws_frame_count (so_ws so)"
  "ws_day_of_year (so_ws (check_and_cleanup e cfg so)) = ws_day_of_year (so_ws so)"
  using check_and_cleanup_keeps [of e cfg so] by (auto simp: writer_ok_def)

lemma writer_ok_motion [simp]:
  "writer_ok (note_motion e cfg so) = writer_ok so" "so_fault (note_motion e cfg so) = so_fault so"
  "ws_frame_count (so_ws (note_motion e cfg so)) = ws_frame_count (so_ws so)"
  "ws_day_of_year (so_ws (note_motion e cfg so)) = ws_day_of_year (so_ws so)"
  by (simp_all add: note_motion_def Let_def writer_ok_def)

text \<open>The rates with which the frame bookkeeping is defined.\<close>

definition rates_valid :: "ms_config_t \<Rightarrow> bool" where
  "rates_valid cfg \<longleftrightarrow> 0 < ivs_fps_low (c_ivs cfg) \<and> ivs_fps_low (c_ivs cfg) \<le> ivs_fps_high (c_ivs cfg) \<and>
     ivs_fps_high (c_ivs cfg) < 2 ^ 31"

lemma rates_valid_ratio:
  assumes "rates_valid cfg"
  shows "\<exists>ratio. c_div32 (ivs_fps_high (c_ivs cfg)) (ivs_fps_low (c_ivs cfg)) = Some ratio \<and> 0 < ratio"
proof -
  let ?h = "ivs_fps_high (c_ivs cfg)" and ?l = "ivs_fps_low (c_ivs cfg)"
  have hl: "0 < ?l" "?l \<le> ?h" "?h < 2 ^ 31" using assms by (simp_all add: rates_valid_def)
  then have q: "c_quot ?h ?l = ?h div ?l" by (intro c_quot_nonneg) auto
  have "0 < ?h div ?l" using hl by (simp add: pos_imp_zdiv_pos_iff)
  moreover have "c_quot ?h ?l \<le> ?h" by (rule c_quot_le) (use hl in auto)
  ultimately have "in_i32 (?h sdiv ?l)" using hl(3) q by (simp add: in_i32_def c_quot_def)
  with hl q \<open>0 < ?h div ?l\<close> show ?thesis by (simp add: c_div32_def c_quot_def)
qed

lemma c_mod32_some: "0 \<le> n \<Longrightarrow> n < 2 ^ 31 \<Longrightarrow> 0 < r \<Longrightarrow> \<exists>k. c_mod32 n r = Some k"
  using c_quot_ge_0 [of n r] c_quot_le [of n r] by (simp add: c_mod32_def in_i32_def c_quot_def)

lemma note_frame_ok:
  assumes "writer_ok so" and "rates_valid cfg"
    and "0 \<le> ws_frame_count (so_ws so)" and "ws_frame_count (so_ws so) < 2 ^ 31"
  shows "writer_ok (note_frame e cfg so)"
proof -
  obtain ratio where r: "c_div32 (ivs_fps_high (c_ivs cfg)) (ivs_fps_low (c_ivs cfg)) = Some ratio" "0 < ratio"
    using rates_valid_ratio [OF assms(2)] by blast
  obtain k where "c_mod32 (ws_frame_count (so_ws so)) ratio = Some k"
    using c_mod32_some [OF assms(3,4) r(2)] by blast
  then show ?thesis using assms(1) r by (simp add: note_frame_def Let_def)
qed

lemma note_frame_fields [simp]:
  "ws_frame_count (so_ws (note_frame e cfg so)) = ws_frame_count (so_ws so)"
  "ws_day_of_year (so_ws (note_frame e cfg so)) = ws_day_of_year (so_ws so)"
  by (simp_all add: note_frame_def Let_def storage_fault_def split: option.splits)

lemma note_frame_fault [simp]: "so_fault so \<Longrightarrow> so_fault (note_frame e cfg so)"
  by (simp add: note_frame_def Let_def split: option.splits)

lemma writer_input_fields [simp]:
  "ws_frame_count (so_ws (writer_input mts ops e r avtype data n ms key so)) = ws_frame_count (so_ws so)"
  "ws_day_of_year (so_ws (writer_input mts ops e r avtype data n ms key so)) = ws_day_of_year (so_ws so)"
proof -
  have "ws_frame_count (so_ws so') = ws_frame_count (so_ws so) \<and> ws_day_of_year (so_ws so') = ws_day_of_year (so_ws so)"
    if "hls_media_input mts (hls_cb ops e) r avtype data n ms ms key hls so = Some (rc, hls', so')" for hls hls' rc so'
    using cb.input_keeps [OF that] by (simp add: cb_keeps_def)
  then show "ws_frame_count (so_ws (writer_input mts ops e r avtype data n ms key so)) = ws_frame_count (so_ws so)"
    "ws_day_of_year (so_ws (writer_input mts ops e r avtype data n ms key so)) = ws_day_of_year (so_ws so)"
    by (auto simp: writer_input_def storage_fault_def split: option.splits)
qed

lemma open_today_ok:
  assumes "open_today mts ops e cfg so = (0, so')" and "st_hls_duration_s (c_storage cfg) = 0" and "\<not> so_fault so"
  shows "writer_ok so' \<and> ws_frame_count (so_ws so') = 0 \<and> \<not> ws_seen_keyframe (so_ws so')"
  using open_today_cases [OF assms(1)] assms(2,3)
  by (auto simp: writer_ok_def hls_media_create_def hls_inv_def split: if_splits option.splits)

lemma rollover_ok:
  assumes "rollover_day mts ops avtype e cfg so = (0, so')" and "st_hls_duration_s (c_storage cfg) = 0"
    and "mts_ok mts" and "writer_ok so"
  shows "writer_ok so' \<and> ws_frame_count (so_ws so') = 0 \<and> \<not> ws_seen_keyframe (so_ws so')"
proof -
  let ?so1 = "hls_flush_and_destroy mts ops (ro_flush e) (ro_realloc e) avtype so"
  let ?so2 = "on_world (event_db_update_total_frames (ro_update e)) ?so1"
  obtain rc so4 where o: "open_today mts ops (ro_open e) cfg (?so2\<lparr>so_ws := event_db_close (so_ws ?so2)\<rparr>) = (rc, so4)"
    by fastforce
  have "so' = on_world (meta_db_ensure_day (ro_ensure e)) so4" "rc = 0"
    using assms(1) o by (auto simp: rollover_day_def Let_def)
  then show ?thesis
    using open_today_ok [of mts ops "ro_open e" cfg _ so4] o assms(2) hls_flush_no_fault [OF assms(3,4)] by simp
qed

text \<open>One frame, with a rollover that succeeds where there is one.\<close>

definition rollover_fine ::
  "'ts mpeg_ts \<Rightarrow> 'pl m3u8_ops \<Rightarrow> int \<Rightarrow> frame_env \<Rightarrow> ms_config_t \<Rightarrow> ('ts, 'pl) storage \<Rightarrow> bool" where
  "rollover_fine mts ops avtype e cfg so \<longleftrightarrow> snd (fe_today e) = ws_day_of_year (so_ws so) \<or>
     fst (rollover_day mts ops avtype (fe_rollover e) cfg so) = 0"

lemma ingest_frame_ok:
  assumes "mts_ok mts" and "st_hls_duration_s (c_storage cfg) = 0" and "rates_valid cfg"
    and "writer_ok so" and "rollover_fine mts ops avtype e cfg so"
    and "0 \<le> ws_frame_count (so_ws so)" and "ws_frame_count (so_ws so) < 2 ^ 31 - 1"
  shows "writer_ok (ingest_frame mts ops avtype e cfg f so) \<and>
    0 \<le> ws_frame_count (so_ws (ingest_frame mts ops avtype e cfg f so)) \<and>
    ws_frame_count (so_ws (ingest_frame mts ops avtype e cfg f so)) \<le> ws_frame_count (so_ws so) + 1"
proof -
  define so1 where "so1 = (if snd (fe_today e) \<noteq> ws_day_of_year (so_ws so)
      then snd (rollover_day mts ops avtype (fe_rollover e) cfg so) else so)"
  have so1: "writer_ok so1 \<and> 0 \<le> ws_frame_count (so_ws so1) \<and> ws_frame_count (so_ws so1) \<le> ws_frame_count (so_ws so)"
    using rollover_ok [of mts ops avtype "fe_rollover e" cfg so so1, OF _ assms(2,1,4)] assms(4-6)
    by (auto simp: so1_def rollover_fine_def prod_eq_iff)
  show ?thesis
  proof (cases "\<not> ws_seen_keyframe (so_ws so1) \<and> \<not> f_is_key f")
    case True
    then show ?thesis using so1 by (simp add: ingest_frame_def so1_def [symmetric] Let_def)
  next
    case False
    let ?ms = "c_quot (f_pts_us f) 1000"
    let ?so2 = "writer_input mts ops (fe_cb e) (fe_realloc e) avtype (f_data f) (f_len f) ?ms (f_is_key f)
      (so1\<lparr>so_ws := (so_ws so1)\<lparr>ws_seen_keyframe := True, ws_pts_ms := ?ms\<rparr>\<rparr>)"
    have "writer_ok ?so2" by (rule writer_input_ok [OF assms(1)]) (use so1 in simp)
    moreover have "ws_frame_count (so_ws so1) + 1 < 2 ^ 31" using so1 assms(7) by linarith
    ultimately show ?thesis
      using False so1 assms(3)
      by (simp add: ingest_frame_def so1_def [symmetric] Let_def note_frame_ok)
  qed
qed

section \<open>Whole runs\<close>

lemma writer_boot_ok:
  assumes "writer_boot mts ops avtype e cfg so = (True, so')" and "st_hls_duration_s (c_storage cfg) = 0"
    and "\<not> so_fault so"
  shows "writer_ok so' \<and> ws_frame_count (so_ws so') = 0"
  using assms(1) open_today_ok [OF _ assms(2,3), of mts ops "be_open e"]
  by (auto simp: writer_boot_def Let_def meta_db_init_def db_open_rw_def writer_ok_def split: prod.splits if_splits)

lemma writer_body_so [simp]:
  "wr_so (writer_body mts ops avtype fe cfg w f) = ingest_frame mts ops avtype (fe (wr_frames w)) cfg f (wr_so w)"
  "wr_frames (writer_body mts ops avtype fe cfg w f) = Suc (wr_frames w)"
  by (simp_all add: writer_body_def)

lemma writer_run_ok:
  assumes "storage_init mts ops avtype create_ok e cfg so0 = (0, m)" and "\<not> so_fault so0"
    and "mts_ok mts" and "st_hls_duration_s (c_storage cfg) = 0" and "rates_valid cfg"
    and "length fs < 2 ^ 31"
    and "\<forall>k < length fs. rollover_fine mts ops avtype (fe k) cfg
           (wr_so (foldl (writer_body mts ops avtype fe cfg) (sm_writer m) (take k fs)))"
  shows "writer_ok (wr_so (foldl (writer_body mts ops avtype fe cfg) (sm_writer m) fs)) \<and>
    \<not> so_fault (writer_close mts ops avtype xe
        (wr_so (foldl (writer_body mts ops avtype fe cfg) (sm_writer m) fs)))"
proof -
  let ?body = "writer_body mts ops avtype fe cfg"
  note I = storage_init_ok [OF assms(1)]
  have "writer_ok (wr_so (foldl ?body (sm_writer m) fs)) \<and>
      0 \<le> ws_frame_count (so_ws (wr_so (foldl ?body (sm_writer m) fs))) \<and>
      ws_frame_count (so_ws (wr_so (foldl ?body (sm_writer m) fs))) \<le> int (length fs)"
    using assms(6,7)
  proof (induction fs rule: rev_induct)
    case Nil
    have "writer_boot mts ops avtype e cfg (so0\<lparr>so_ws := ws_zero\<rparr>) = (True, wr_so (sm_writer m))" using I by blast
    from writer_boot_ok [OF this assms(4)] assms(2) show ?case by simp
  next
    case (snoc f fs)
    let ?w = "foldl ?body (sm_writer m) fs"
    have IH: "writer_ok (wr_so ?w)" "0 \<le> ws_frame_count (so_ws (wr_so ?w))"
      "ws_frame_count (so_ws (wr_so ?w)) \<le> int (length fs)"
      using snoc by (simp_all add: less_Suc_eq)
    have "rollover_fine mts ops avtype (fe (length fs)) cfg (wr_so ?w)"
      using snoc.prems(2) by (simp add: less_Suc_eq)
    moreover have "wr_frames ?w = length fs" using I by (simp add: writer_body_freed)
    moreover have "ws_frame_count (so_ws (wr_so ?w)) < 2 ^ 31 - 1" using IH(3) snoc.prems(1) by simp
    ultimately show ?case
      using ingest_frame_ok [OF assms(3-5) IH(1) _ IH(2), of ops avtype "fe (length fs)" f] IH(3) by simp
  qed
  then have ok: "writer_ok (wr_so (foldl ?body (sm_writer m) fs))" by blast
  then show ?thesis using hls_flush_no_fault [OF assms(3) ok] by (simp add: writer_close_def Let_def)
qed


text \<open>What a failed rollover leaves.\<close>

lemma rollover_failed:
  assumes "rollover_day mts ops avtype e cfg so = (rc, so')" and "rc \<noteq> 0" and "pl_create ops \<noteq> None"
  shows "ws_hls (so_ws so') = None"
proof -
  define so2 where "so2 = on_world (event_db_update_total_frames (ro_update e))
    (hls_flush_and_destroy mts ops (ro_flush e) (ro_realloc e) avtype so)"
  define so3 where "so3 = so2\<lparr>so_ws := event_db_close (so_ws so2)\<rparr>"
  obtain rc' so4 where o: "open_today mts ops (ro_open e) cfg so3 = (rc', so4)" by fastforce
  have "ws_hls (so_ws so3) = None" by (simp add: so3_def so2_def event_db_close_def)
  moreover have "so' = so4" "rc' \<noteq> 0"
    using assms(1,2) o by (auto simp: rollover_day_def Let_def so3_def so2_def split: if_splits)
  ultimately show ?thesis using open_today_cases [OF o] assms(3) by simp
qed

text \<open>
C32: A failed day rollover kills the daemon: \<open>ingest_frame\<close> ignores its result, and the keyframe that
triggered it goes to the segmenter that \<open>rollover_day\<close> destroyed, a null pointer.\<close>

theorem failed_rollover_crashes:
  assumes "snd (fe_today e) \<noteq> ws_day_of_year (so_ws so)"
    and "fst (rollover_day mts ops avtype (fe_rollover e) cfg so) \<noteq> 0" and "pl_create ops \<noteq> None"
    and "f_is_key f"
  shows "so_fault (ingest_frame mts ops avtype e cfg f so)"
proof -
  have "ws_hls (so_ws (snd (rollover_day mts ops avtype (fe_rollover e) cfg so))) = None"
    by (rule rollover_failed [OF prod.collapse [symmetric] assms(2,3)])
  then show ?thesis
    using assms(1,4) by (simp add: ingest_frame_def Let_def writer_input_def)
qed

text \<open>
C33: A configuration with \<open>fps_low\<close> 0, or \<open>fps_high\<close> below \<open>fps_low\<close>, kills the daemon: the first frame
recorded in motion divides by zero, in the quotient or in the remainder.\<close>

theorem bad_rates_crash:
  assumes "0 \<le> ivs_fps_high (c_ivs cfg)" and "ivs_fps_low (c_ivs cfg) = 0 \<or> ivs_fps_high (c_ivs cfg) < ivs_fps_low (c_ivs cfg)"
    and "snd (fe_today e) = ws_day_of_year (so_ws so)" and "fe_fps e = ivs_fps_high (c_ivs cfg)"
    and "ws_seen_keyframe (so_ws so) \<or> f_is_key f"
  shows "so_fault (ingest_frame mts ops avtype e cfg f so)"
proof -
  let ?h = "ivs_fps_high (c_ivs cfg)" and ?l = "ivs_fps_low (c_ivs cfg)"
  have "ratio = 0" if "c_div32 ?h ?l = Some ratio" for ratio
  proof -
    have r: "?l \<noteq> 0" "ratio = c_quot ?h ?l" using that by (auto simp: c_div32_def c_quot_def split: if_splits)
    then have "?h < ?l" "0 < ?l" using assms(1,2) by auto
    then show ?thesis using r assms(1) by (simp add: c_quot_nonneg)
  qed
  then have "so_fault (note_frame e cfg so')" for so' :: "('a, 'b) storage"
    using assms(4) by (simp add: note_frame_def Let_def c_mod32_def split: option.splits)
  then show ?thesis using assms(3,5) by (auto simp: ingest_frame_def Let_def)
qed

lemma storage_stop_drains:
  assumes "storage_init mts ops avtype create_ok e cfg so0 = (0, m)" and "0 < c"
    and "writer_run (writer_body mts ops avtype fe cfg) c evs (sm_writer m) = (t, w)"
    and "fq_depth (t_q t) < fuel"
  shows "\<exists>q' m'. storage_stop mts ops avtype fe xe cfg fuel (t_q t) (m\<lparr>sm_writer := w\<rparr>) = Some (q', m') \<and>
    fq_depth q' = 0 \<and>
    wr_so (sm_writer m') = writer_close mts ops avtype xe
      (wr_so (foldl (writer_body mts ops avtype fe cfg) (sm_writer m) (t_out t @ fq_items (t_q t)))) \<and>
    of_nat (length (t_offered t)) = of_nat (wr_frames (sm_writer m') + t_late t) + fq_dropped (t_q t) \<and>
    mset (t_alloc t) = mset (t_freed t) + mset (wr_freed (sm_writer m')) \<and>
    storage_stop mts ops avtype fe xe cfg fuel' q' m' = Some (q', m')"
proof -
  let ?body = "writer_body mts ops avtype fe cfg"
  note I = storage_init_ok [OF assms(1)]
  have t: "t = run_fq c evs" and w: "w = foldl ?body (sm_writer m) (t_out t)"
    using assms(3) by (auto simp: writer_run_out)
  let ?q = "the (fq_close (Some (t_q t)))"
  have inv: "fq_inv ?q" "fq_items ?q = fq_items (t_q t)"
    using run_fq_inv [OF assms(2), of evs] by (simp_all add: fq_close_def t)
  have "length (fq_items ?q) < fuel" using assms(4) inv(2) by (simp add: fq_depth_def)
  from fqs.drain_all [OF inv(1) this, of ?body w] obtain q' where
    q': "drain fq_take ?body fuel ?q w = Some (foldl ?body w (fq_items (t_q t)), q')" "fq_items q' = []"
    by (auto simp: inv(2))
  let ?w = "foldl ?body (sm_writer m) (t_out t @ fq_items (t_q t))"
  define m' where "m' = m\<lparr>sm_started := False, sm_writer := ?w\<lparr>wr_so := writer_close mts ops avtype xe (wr_so ?w)\<rparr>\<rparr>"
  have "storage_stop mts ops avtype fe xe cfg fuel (t_q t) (m\<lparr>sm_writer := w\<rparr>) = Some (q', m')"
    using q'(1) I by (simp add: storage_stop_def w m'_def)
  moreover have "fq_depth q' = 0" using q'(2) by (metis fq_depth_def length_fq_items list.size(3))
  moreover have "wr_frames (sm_writer m') = length (t_out t) + fq_depth (t_q t)"
    "wr_freed (sm_writer m') = map frame_block (t_out t @ fq_items (t_q t))"
    using I by (simp_all add: m'_def writer_body_freed fq_depth_def)
  moreover have "storage_stop mts ops avtype fe xe cfg fuel' q' m' = Some (q', m')"
    by (simp add: storage_stop_def m'_def)
  moreover note run_fq_accounted [OF assms(2), of evs] 
  ultimately show ?thesis
    by (intro exI [of _ q'] exI [of _ m'])
      (simp add: m'_def accounted_def t fq_depth_def fq_dropped_def fq_blocks_items [OF run_fq_inv [OF assms(2)]] ac_simps)
qed


section \<open>A concrete run\<close>

definition demo_ops :: "string list m3u8_ops" where
  "demo_ops = \<lparr>pl_create = Some [], pl_add = (\<lambda>pl name pts duration disc. pl @ [name]),
     pl_playlist = concat \<circ> map (map of_char), pl_hls_duration = 10\<rparr>"

definition demo_open :: "string \<times> int \<Rightarrow> open_env" where
  "demo_open today = \<lparr>oe_today = today, oe_mkroot = True, oe_mkdate = True, oe_opendir = True, oe_mkseg = True,
     oe_event = \<lparr>eo_open = True, eo_segments = True, eo_details = True, eo_index = True\<rparr>,
     oe_add = SqlOk, oe_start_time = ''00:00:00'', oe_malloc = True\<rparr>"

definition demo_cb :: hls_cb_env where
  "demo_cb = \<lparr>he_ts = wfa_good ''aaaaaa'', he_m3u = wfa_good ''bbbbbb''\<rparr>"

definition demo_boot :: boot_env where
  "demo_boot = \<lparr>be_open = demo_open (demo_today, 1), be_meta_open = True, be_meta_exec = True, be_flush = demo_cb,
     be_realloc = True, be_ensure = SqlOk\<rparr>"

definition demo_start :: "(nat, string list) storage" where
  "demo_start = \<lparr>so_ws = ws_zero, so_last_dts = -1,
     so_world = \<lparr>w_fs = fs_empty, w_meta = \<lparr>md_rows = [], md_seq = 0\<rparr>, w_events = (\<lambda>i. event_db_empty)\<rparr>,
     so_fault = False\<rparr>"

lemma make_dir_fresh:
  assumes "make_dir mk p w = (rc, w')"
  shows "fs_dir (w_fs w') = fs_dir (w_fs w) \<and> (mk \<longrightarrow> fs_dir (w_fs w) (dir_key p) = None \<longrightarrow> rc = 0) \<and> w_events w' = w_events w"
  using assms by (auto simp: make_dir_def ensure_dir_def fs_stat_def split: if_splits)

lemma make_dir_snd: "fs_dir (w_fs (snd (make_dir mk p w))) = fs_dir (w_fs w)"
  using make_dir_fresh [of mk p w] by (metis prod.collapse)

text \<open>On a card without files, a day opens when every call succeeds.\<close>

lemma open_today_fresh:
  assumes "fs_dir (w_fs (so_world so)) = (\<lambda>p. None)" and "oe_mkseg e"
    and "eo_open (oe_event e)" and "eo_segments (oe_event e)" and "eo_details (oe_event e)" and "eo_index (oe_event e)"
    and "oe_add e = SqlOk" and "pl_create ops \<noteq> None"
    and "hls_media_create mts (oe_malloc e) (st_hls_duration_s (c_storage cfg) * 1000) \<noteq> None"
  shows "fst (open_today mts ops e cfg so) = 0"
proof -
  define date_dir where "date_dir = c_trunc DATE_DIR_SIZE (CFG_DCIM_ROOT @ c_trunc DATE_STR_SIZE (fst (oe_today e)) @ ''/'')"
  define w2 where "w2 = snd (make_dir (oe_mkdate e) date_dir (snd (make_dir (oe_mkroot e) CFG_DCIM_ROOT (so_world so))))"
  define seg where "seg = c_trunc SEGMENT_DIR_SIZE (date_dir @ pad5 (count_subdirs (oe_opendir e) date_dir w2) @ ''/'')"
  obtain rc w3 where m: "make_dir (oe_mkseg e) seg w2 = (rc, w3)" by fastforce
  have "fs_dir (w_fs w2) = (\<lambda>p. None)" using assms(1) by (simp add: w2_def make_dir_snd)
  then have m3: "rc = 0" "fs_dir (w_fs w3) = (\<lambda>p. None)" using make_dir_fresh [OF m] assms(2) by auto
  show ?thesis
    unfolding open_today_def Let_def date_dir_def [symmetric] w2_def [symmetric] seg_def [symmetric] m
    using assms(3-9) m3
    by (auto simp: event_db_open_def db_open_rw_def db_exec_def event_db_file_def event_db_add_segment_def event_db_empty_def hls_create_def Let_def)
qed

lemma demo_init: "fst (storage_init toy_ts demo_ops 27 True demo_boot config_defaults demo_start) = 0"
proof -
  let ?so = "demo_start\<lparr>so_ws := ws_zero\<rparr>"
  obtain rc so1 where o: "open_today toy_ts demo_ops (be_open demo_boot) config_defaults ?so = (rc, so1)" by fastforce
  have "fst (open_today toy_ts demo_ops (be_open demo_boot) config_defaults ?so) = 0"
    by (rule open_today_fresh)
      (simp_all add: demo_start_def fs_empty_def demo_boot_def demo_open_def demo_ops_def hls_media_create_def toy_ts_def)
  then have "rc = 0" using o by simp
  with o show ?thesis
    by (simp add: storage_init_def writer_boot_def Let_def meta_db_init_def db_open_rw_def db_exec_def demo_boot_def)
qed

definition demo_recording :: "(nat, string list) storage" where
  "demo_recording = demo_storage\<lparr>so_ws := demo_ws\<lparr>ws_m3u := Some []\<rparr>,
     so_world := (demo_world 0)\<lparr>w_fs := fs_empty\<rparr>\<rparr>"

lemma demo_paths: "ts_path (so_ws demo_recording) = ''/mnt/sdcard/DCIM/2024-01-02/00000/00000.ts''"
  "m3u_path (so_ws demo_recording) = ''/mnt/sdcard/DCIM/2024-01-02/00000/index.m3u8''"
  by code_simp+

lemma demo_cb_run: "fst (hls_cb demo_ops demo_cb [7, 7] 0 0 1000 demo_recording) = 0"
proof -
  have z: "fst (write_file_atomic (wfa_good sfx) (ts_path (so_ws demo_recording)) data fs) = 0"
    "fst (write_file_atomic (wfa_good sfx) (m3u_path (so_ws demo_recording)) data fs) = 0" for sfx data fs
    by (rule wfa_good_zero; simp add: demo_paths parent_dir_def)+
  show ?thesis
    using z unfolding hls_cb_def
    by (auto simp: Let_def demo_cb_def demo_recording_def demo_storage_def demo_ws_def prod_eq_iff split: prod.splits)
qed

lemma segment_before_playlist_witness:
  "durable (w_fs (so_world (snd (hls_cb demo_ops demo_cb [7, 7] 0 0 1000 demo_recording))))
     ''/mnt/sdcard/DCIM/2024-01-02/00000/00000.ts'' [7, 7]"
proof -
  obtain rc so' where run: "hls_cb demo_ops demo_cb [7, 7] 0 0 1000 demo_recording = (rc, so')" by fastforce
  have rc: "rc = 0" using demo_cb_run run by simp
  have ready: "ws_m3u (so_ws demo_recording) = Some []"
    "length (ws_segment_dir (so_ws demo_recording)) < SEGMENT_DIR_SIZE" "fs_wf (w_fs (so_world demo_recording))"
    "fs_dir (w_fs (so_world demo_recording)) (m3u_path (so_ws demo_recording))
       \<in> set (fs_disk (w_fs (so_world demo_recording)) (m3u_path (so_ws demo_recording)))"
    by (simp_all add: demo_recording_def demo_storage_def demo_ws_def SEGMENT_DIR_SIZE_def) (simp add: fs_empty_def)
  have "durable (w_fs (so_world so')) (ts_path (so_ws demo_recording)) [7, 7]"
    using segment_before_playlist [OF run ready] rc by blast
  then show ?thesis using run by (simp add: demo_paths)
qed

lemma open_today_day: "open_today mts ops e cfg so = (rc, so') \<Longrightarrow> ws_day_of_year (so_ws so') = snd (oe_today e)"
  by (auto simp: open_today_def Let_def hls_create_def event_db_close_def
      dest!: event_db_open_keeps split: prod.splits if_splits)

lemma ingest_same_day:
  assumes "snd (fe_today e) = ws_day_of_year (so_ws so)"
  shows "ws_day_of_year (so_ws (ingest_frame mts ops avtype e cfg f so)) = ws_day_of_year (so_ws so)"
  using assms by (simp add: ingest_frame_def Let_def)

lemma run_same_day:
  assumes "\<forall>k. snd (fe_today (fe k)) = ws_day_of_year (so_ws (wr_so w))"
  shows "ws_day_of_year (so_ws (wr_so (foldl (writer_body mts ops avtype fe cfg) w fs))) = ws_day_of_year (so_ws (wr_so w))"
  using assms by (induction fs arbitrary: w) (simp_all add: ingest_same_day)

definition demo_rollover :: "bool \<Rightarrow> rollover_env" where
  "demo_rollover ok = \<lparr>ro_flush = demo_cb, ro_realloc = True, ro_update = SqlOk,
     ro_open = (demo_open (''2024-01-03'', 2))\<lparr>oe_event := \<lparr>eo_open = ok, eo_segments = True, eo_details = True,
       eo_index = True\<rparr>\<rparr>, ro_ensure = SqlOk\<rparr>"

definition demo_frame :: "string \<times> int \<Rightarrow> int \<Rightarrow> frame_env" where
  "demo_frame today fps = \<lparr>fe_today = today, fe_rollover = demo_rollover False, fe_cb = demo_cb, fe_realloc = True,
     fe_fps = fps, fe_now = 5000, fe_motion = SqlOk, fe_upsert = SqlOk, fe_update = SqlOk,
     fe_cleanup = demo_cleanup SqlOk\<rparr>"

definition demo_key :: fq_frame where
  "demo_key = \<lparr>f_data = Some [1], f_len = 1, f_is_key = True, f_pts_us = 0\<rparr>"

definition demo_mod :: "(nat, string list) storage_mod" where
  "demo_mod = snd (storage_init toy_ts demo_ops 27 True demo_boot config_defaults demo_start)"

lemma demo_mod_init: "storage_init toy_ts demo_ops 27 True demo_boot config_defaults demo_start = (0, demo_mod)"
  using demo_init by (simp add: demo_mod_def prod_eq_iff)

lemma writer_boot_day:
  "writer_boot mts ops avtype e cfg so = (True, so') \<Longrightarrow> ws_day_of_year (so_ws so') = snd (oe_today (be_open e))"
  by (auto simp: writer_boot_def Let_def meta_db_init_def db_open_rw_def dest!: open_today_day split: prod.splits if_splits)

lemma demo_mod_day: "ws_day_of_year (so_ws (wr_so (sm_writer demo_mod))) = 1"
proof -
  have "writer_boot toy_ts demo_ops 27 demo_boot config_defaults (demo_start\<lparr>so_ws := ws_zero\<rparr>)
      = (True, wr_so (sm_writer demo_mod))"
    using storage_init_ok [OF demo_mod_init] by blast
  from writer_boot_day [OF this] show ?thesis by (simp add: demo_boot_def demo_open_def)
qed

lemma default_rates: "rates_valid config_defaults" "st_hls_duration_s (c_storage config_defaults) = 0"
  by (simp_all add: rates_valid_def config_defaults_def CFG_FPS_LOW_def CFG_FPS_HIGH_def CFG_HLS_DURATION_S_def)


lemma failed_rollover_crashes_witness:
  "so_fault (ingest_frame toy_ts demo_ops 27 (demo_frame (''2024-01-03'', 2) 30) config_defaults demo_key demo_storage)"
proof (rule failed_rollover_crashes)
  show "snd (fe_today (demo_frame (''2024-01-03'', 2) 30)) \<noteq> ws_day_of_year (so_ws demo_storage)"
    by (simp add: demo_frame_def demo_storage_def demo_ws_def)
  show "fst (rollover_day toy_ts demo_ops 27 (fe_rollover (demo_frame (''2024-01-03'', 2) 30)) config_defaults demo_storage) \<noteq> 0"
    by (auto simp: rollover_day_def open_today_def Let_def demo_frame_def demo_rollover_def event_db_open_def db_open_rw_def
        split: prod.splits if_splits)
qed (simp_all add: demo_ops_def demo_key_def)

text \<open>A configuration file that \<open>ms_config_load\<close> takes: \<open>ivs:\<close> with \<open>fps_low: 0\<close>.\<close>

definition zero_rate_file :: config_file where
  "zero_rate_file = Parsed (\<lambda>n. if n = 1 then Some (YScalar ''ivs'') else if n = 2 then Some (YMapping [(3, 4)])
     else if n = 3 then Some (YScalar ''fps_low'') else if n = 4 then Some (YScalar ''0'') else None)
     (Some (YMapping [(1, 2)]))"

lemma zero_rate: "ivs_fps_low (c_ivs (ms_config_load zero_rate_file)) = 0"
  "ivs_fps_high (c_ivs (ms_config_load zero_rate_file)) = 30"
proof -
  have "atoi ''0'' = 0" by code_simp
  then show "ivs_fps_low (c_ivs (ms_config_load zero_rate_file)) = 0"
    "ivs_fps_high (c_ivs (ms_config_load zero_rate_file)) = 30"
    by (simp_all add: ms_config_load_def zero_rate_file_def is_mapping_def apply_section_def map_get_def parse_ivs_def
        int_val_def str_val_def config_defaults_def CFG_FPS_HIGH_def Let_def)
qed

lemma bad_rates_crash_witness:
  "so_fault (ingest_frame toy_ts demo_ops 27 (demo_frame (demo_today, 1) 30) (ms_config_load zero_rate_file) demo_key
     demo_storage)"
  by (rule bad_rates_crash)
    (simp_all add: zero_rate demo_frame_def demo_storage_def demo_ws_def demo_key_def)


end
