(* ===== verification/Pipeline.thy ===== *)
theory Pipeline
  imports WebSock "HOL-Library.State_Monad"
begin

text \<open>
  Bringing the media hardware up and down, \<open>src/media.c\<close> lines 122 to 518: the capture device, the
  image processor, and the record, motion and preview pipelines. The Rockchip libraries are called,
  not modelled: each call is an entry of a log, with the arguments the code chooses, and its result
  is the next one of a sequence the environment gives. Constant pixel formats, memory types and
  compression modes are left out of the arguments.
\<close>

section \<open>Calls\<close>

definition VI_DEV_ID :: int where "VI_DEV_ID = 0"
definition VI_PIPE_ID :: int where "VI_PIPE_ID = 0"
definition VI_PHY_CHN_SELF :: int where "VI_PHY_CHN_SELF = 1"
definition VI_PHY_CHN_BYPATH :: int where "VI_PHY_CHN_BYPATH = 2"
definition VI_PHY_CHN_BYPATH_SAMPLING :: int where "VI_PHY_CHN_BYPATH_SAMPLING = 4"
definition IVS_DEV_ID :: int where "IVS_DEV_ID = 0"
definition IVS_CHN_ID :: int where "IVS_CHN_ID = 0"
definition VENC_DEV_ID :: int where "VENC_DEV_ID = 0"
definition VENC_CHN_H264 :: int where "VENC_CHN_H264 = 0"
definition VENC_CHN_MJPEG :: int where "VENC_CHN_MJPEG = 1"

datatype codec = RK_VIDEO_ID_AVC | RK_VIDEO_ID_MJPEG

record vi_chn_attr =
  va_buf_count :: nat
  va_max :: "u32 \<times> u32"
  va_size :: "u32 \<times> u32"
  va_depth :: nat
  va_src_fps :: int
  va_dst_fps :: int

record venc_chn_attr =
  vc_codec :: codec
  vc_profile :: nat
  vc_max :: "u32 \<times> u32"
  vc_pic :: "u32 \<times> u32"
  vc_vir :: "u32 \<times> u32"
  vc_buf_cnt :: nat
  vc_buf_size :: u32
  vc_gop :: u32
  vc_bitrate :: u32
  vc_fps_num :: u32
  vc_fps_den :: u32

record ivs_chn_attr =
  vs_pic :: "u32 \<times> u32"
  vs_md_interval :: int
  vs_md_sensibility :: u32

datatype venc_param =
    MotionDeblur bool | MotionDeblurStrength nat | DeBreathEffect bool nat
  | RcParamH264 nat nat nat nat nat | AntiRing nat | AntiLine nat | Lambda nat | Filter nat nat
  | ChnFrameRate bool int int int int | RcParamMjpeg u32 u32 | CbrAttr u32 u32 u32 u32

datatype venc_query = GetRcParam | GetAntiRing | GetAntiLine | GetLambda | GetFilter | GetChnAttr

datatype mpp_mod = RK_ID_VI | RK_ID_IVS | RK_ID_VENC

type_synonym mpp_chn = "mpp_mod \<times> int \<times> int"

datatype thread = ThrH264 | ThrMjpeg | ThrIvs | ThrOsd

datatype hw_call =
    SysInit | SysExit
  | ViGetDevAttr int | ViSetDevAttr int | ViGetDevIsEnable int | ViEnableDev int
  | ViSetDevBindPipe int int | ViDisableDev int
  | AiqEnumStaticMetas | AiqPreInitDevBufCnt | AiqInit | AiqPrepare | AiqStart | AiqStop | AiqDeinit
  | ViSetChnAttr int int vi_chn_attr | ViEnableChn int int | ViDisableChn int int
  | VencCreateChn int venc_chn_attr | VencDestroyChn int | VencSet int venc_param | VencGet int venc_query
  | VencStartRecvFrame int | VencStopRecvFrame int
  | IvsCreateChn int ivs_chn_attr | IvsGetMdAttr int | IvsSetMdAttr int int int int | IvsDestroyChn int
  | SysBind mpp_chn mpp_chn | SysUnBind mpp_chn mpp_chn
  | RgnCreate int int int | RgnAttachToChn int int int int | RgnDetachFromChn int int | RgnDestroy int
  | RgnSetBitMap int int int | CreateFont int | SetFontColor nat | DestroyFont
  | PthreadCreate thread | PthreadJoin thread | WebSockCall ws_call

text \<open>
  The module's static state, with the log of the calls and their results. The environment gives the
  results in order; \<open>RK_SUCCESS\<close> is 0, and so stands for a pointer that is not null.
\<close>

record media =
  md_log :: "(hw_call \<times> int) list"
  s_aiq_ctx :: bool
  s_producers_run :: bool
  s_h264_started :: bool
  s_mjpeg_started :: bool
  s_ivs_started :: bool
  s_osd_started :: bool
  s_osd_inited :: bool
  s_osd_w :: int
  s_osd_h :: int
  md_web :: web_sock

definition media_static :: media where
  "media_static = \<lparr>md_log = [], s_aiq_ctx = False, s_producers_run = False, s_h264_started = False,
     s_mjpeg_started = False, s_ivs_started = False, s_osd_started = False, s_osd_inited = False,
     s_osd_w = 0, s_osd_h = 0, md_web = web_sock_static\<rparr>"

record hw_env =
  hw_ret :: "nat \<Rightarrow> int"
  hw_not_config :: int
  hw_text_advance :: int
  hw_calloc :: bool
  hw_socket :: int
  hw_bind :: bool
  hw_listen :: bool

type_synonym 'a hw = "(media, 'a) state"

definition hw_do :: "hw_env \<Rightarrow> hw_call \<Rightarrow> int hw" where
  "hw_do e c = State (\<lambda>s. let r = hw_ret e (length (md_log s)) in (r, s\<lparr>md_log := md_log s @ [(c, r)]\<rparr>))"

definition hw_set :: "(media \<Rightarrow> media) \<Rightarrow> unit hw" where
  "hw_set f = State (\<lambda>s. ((), f s))"

text \<open>Calls whose results the code ignores.\<close>

fun hw_all :: "hw_env \<Rightarrow> hw_call list \<Rightarrow> unit hw" where
  "hw_all e [] = State_Monad.return ()"
| "hw_all e (c # cs) = do { r \<leftarrow> hw_do e c; hw_all e cs }"

section \<open>Capture device and image processor\<close>

definition vi_dev_init :: "hw_env \<Rightarrow> int hw" where
  "vi_dev_init e = do {
     r1 \<leftarrow> hw_do e (ViGetDevAttr VI_DEV_ID);
     r2 \<leftarrow> (if r1 = hw_not_config e then hw_do e (ViSetDevAttr VI_DEV_ID) else State_Monad.return 0);
     if r2 \<noteq> 0 then State_Monad.return (-1)
     else do {
       r3 \<leftarrow> hw_do e (ViGetDevIsEnable VI_DEV_ID);
       if r3 = 0 then State_Monad.return 0
       else do {
         r4 \<leftarrow> hw_do e (ViEnableDev VI_DEV_ID);
         if r4 \<noteq> 0 then State_Monad.return (-1)
         else do {
           r5 \<leftarrow> hw_do e (ViSetDevBindPipe VI_DEV_ID VI_PIPE_ID);
           State_Monad.return (if r5 \<noteq> 0 then -1 else 0) } } } }"

definition vi_dev_deinit :: "hw_env \<Rightarrow> unit hw" where
  "vi_dev_deinit e = hw_all e [ViDisableDev VI_DEV_ID]"

definition aiq_init :: "hw_env \<Rightarrow> int hw" where
  "aiq_init e = do {
     r1 \<leftarrow> hw_do e AiqEnumStaticMetas;
     if r1 \<noteq> 0 then State_Monad.return (-1)
     else do {
       hw_all e [AiqPreInitDevBufCnt];
       r2 \<leftarrow> hw_do e AiqInit;
       hw_set (\<lambda>s. s\<lparr>s_aiq_ctx := r2 = 0\<rparr>);
       if r2 \<noteq> 0 then State_Monad.return (-1)
       else do {
         r3 \<leftarrow> hw_do e AiqPrepare;
         if r3 \<noteq> 0 then do { hw_all e [AiqDeinit]; hw_set (\<lambda>s. s\<lparr>s_aiq_ctx := False\<rparr>); State_Monad.return (-1) }
         else do {
           r4 \<leftarrow> hw_do e AiqStart;
           if r4 \<noteq> 0 then do { hw_all e [AiqDeinit]; hw_set (\<lambda>s. s\<lparr>s_aiq_ctx := False\<rparr>); State_Monad.return (-1) }
           else State_Monad.return 0 } } } }"

definition aiq_stop :: "hw_env \<Rightarrow> unit hw" where
  "aiq_stop e = do {
     s \<leftarrow> State_Monad.get;
     if \<not> s_aiq_ctx s then State_Monad.return ()
     else do { hw_all e [AiqStop, AiqDeinit]; hw_set (\<lambda>s. s\<lparr>s_aiq_ctx := False\<rparr>) } }"

definition venc_set_framerate :: "hw_env \<Rightarrow> ms_config_t \<Rightarrow> int \<Rightarrow> int \<Rightarrow> int hw" where
  "venc_set_framerate e cfg chn fps = do {
     r1 \<leftarrow> hw_do e (VencGet chn GetChnAttr);
     if r1 \<noteq> 0 then State_Monad.return (-1)
     else do {
       r2 \<leftarrow> hw_do e (VencSet chn (CbrAttr (h264_bitrate_kbps (c_h264 cfg)) (word_of_int fps) 1
         (word_of_int (h264_gop (c_h264 cfg)))));
       State_Monad.return (if r2 \<noteq> 0 then -1 else 0) } }"

section \<open>The record pipeline\<close>

definition record_vi_attr :: "ms_config_t \<Rightarrow> vi_chn_attr" where
  "record_vi_attr cfg = (let h = c_h264 cfg; size = (h264_width h, h264_height h) in
     \<lparr>va_buf_count = 2, va_max = size, va_size = size, va_depth = 1, va_src_fps = h264_fps h, va_dst_fps = h264_fps h\<rparr>)"

definition record_venc_attr :: "ms_config_t \<Rightarrow> venc_chn_attr" where
  "record_venc_attr cfg = (let h = c_h264 cfg; size = (h264_width h, h264_height h) in
     \<lparr>vc_codec = RK_VIDEO_ID_AVC, vc_profile = 100, vc_max = size, vc_pic = size, vc_vir = size, vc_buf_cnt = 4,
      vc_buf_size = h264_width h * h264_height h * 3 div 2, vc_gop = word_of_int (h264_gop h),
      vc_bitrate = h264_bitrate_kbps h, vc_fps_num = word_of_int (h264_fps h), vc_fps_den = 1\<rparr>)"

text \<open>The encoder's tuning, in the order of the code.\<close>

definition record_tuning :: "hw_call list" where
  "record_tuning =
     [VencSet VENC_CHN_H264 (MotionDeblur True), VencSet VENC_CHN_H264 (MotionDeblurStrength 3),
      VencSet VENC_CHN_H264 (DeBreathEffect True 16),
      VencGet VENC_CHN_H264 GetRcParam, VencSet VENC_CHN_H264 (RcParamH264 10 26 28 51 51),
      VencGet VENC_CHN_H264 GetAntiRing, VencSet VENC_CHN_H264 (AntiRing 2),
      VencGet VENC_CHN_H264 GetAntiLine, VencSet VENC_CHN_H264 (AntiLine 2),
      VencGet VENC_CHN_H264 GetLambda, VencSet VENC_CHN_H264 (Lambda 4),
      VencGet VENC_CHN_H264 GetFilter, VencSet VENC_CHN_H264 (Filter 0 0),
      VencStartRecvFrame VENC_CHN_H264]"

definition record_pipeline_init :: "hw_env \<Rightarrow> ms_config_t \<Rightarrow> int hw" where
  "record_pipeline_init e cfg = do {
     r1 \<leftarrow> hw_do e (ViSetChnAttr VI_DEV_ID VENC_CHN_H264 (record_vi_attr cfg));
     r2 \<leftarrow> (if r1 \<noteq> 0 then State_Monad.return (-1) else hw_do e (ViEnableChn VI_DEV_ID VENC_CHN_H264));
     if r2 \<noteq> 0 then State_Monad.return (-1)
     else do {
       r3 \<leftarrow> hw_do e (VencCreateChn VENC_CHN_H264 (record_venc_attr cfg));
       if r3 \<noteq> 0 then State_Monad.return (-1)
       else do { hw_all e record_tuning; State_Monad.return 0 } } }"

definition record_pipeline_deinit :: "hw_env \<Rightarrow> unit hw" where
  "record_pipeline_deinit e = hw_all e [VencStopRecvFrame VENC_CHN_H264, VencDestroyChn VENC_CHN_H264,
     ViDisableChn VI_DEV_ID VENC_CHN_H264]"

section \<open>The motion pipeline\<close>

definition bypath_vi_attr :: "ms_config_t \<Rightarrow> vi_chn_attr" where
  "bypath_vi_attr cfg = (let h = c_h264 cfg; size = (h264_width h div 2, h264_height h div 2) in
     \<lparr>va_buf_count = 2, va_max = size, va_size = size, va_depth = 0,
      va_src_fps = ivs_fps (c_ivs cfg), va_dst_fps = ivs_fps (c_ivs cfg)\<rparr>)"

definition sampling_vi_attr :: "ms_config_t \<Rightarrow> vi_chn_attr" where
  "sampling_vi_attr cfg = (let i = c_ivs cfg; size = (ivs_width i, ivs_height i) in
     \<lparr>va_buf_count = 3, va_max = size, va_size = size, va_depth = 0, va_src_fps = ivs_fps i, va_dst_fps = ivs_fps i\<rparr>)"

definition motion_ivs_attr :: "ms_config_t \<Rightarrow> ivs_chn_attr" where
  "motion_ivs_attr cfg = \<lparr>vs_pic = (h264_width (c_h264 cfg), h264_height (c_h264 cfg)),
     vs_md_interval = ivs_md_interval (c_ivs cfg), vs_md_sensibility = word_of_int (ivs_md_sensibility (c_ivs cfg))\<rparr>"

definition motion_src :: mpp_chn where "motion_src = (RK_ID_VI, VI_PIPE_ID, VI_PHY_CHN_BYPATH_SAMPLING)"
definition motion_dst :: mpp_chn where "motion_dst = (RK_ID_IVS, IVS_DEV_ID, IVS_CHN_ID)"

definition motion_pipeline_init :: "hw_env \<Rightarrow> ms_config_t \<Rightarrow> int hw" where
  "motion_pipeline_init e cfg = do {
     r1 \<leftarrow> hw_do e (ViSetChnAttr VI_PIPE_ID VI_PHY_CHN_BYPATH (bypath_vi_attr cfg));
     r2 \<leftarrow> (if r1 \<noteq> 0 then State_Monad.return (-1) else hw_do e (ViEnableChn VI_PIPE_ID VI_PHY_CHN_BYPATH));
     if r2 \<noteq> 0 then State_Monad.return (-1)
     else do {
       r3 \<leftarrow> hw_do e (ViSetChnAttr VI_PIPE_ID VI_PHY_CHN_BYPATH_SAMPLING (sampling_vi_attr cfg));
       r4 \<leftarrow> (if r3 \<noteq> 0 then State_Monad.return (-1)
             else hw_do e (ViEnableChn VI_PIPE_ID VI_PHY_CHN_BYPATH_SAMPLING));
       if r4 \<noteq> 0 then do { hw_all e [ViDisableChn VI_PIPE_ID VI_PHY_CHN_BYPATH]; State_Monad.return (-1) }
       else do {
         r5 \<leftarrow> hw_do e (IvsCreateChn IVS_CHN_ID (motion_ivs_attr cfg));
         if r5 \<noteq> 0 then State_Monad.return (-1)
         else do {
           hw_all e [IvsGetMdAttr IVS_CHN_ID,
             IvsSetMdAttr IVS_CHN_ID (ivs_thresh_sad (c_ivs cfg)) (ivs_thresh_move (c_ivs cfg)) 0];
           r6 \<leftarrow> hw_do e (SysBind motion_src motion_dst);
           State_Monad.return (if r6 \<noteq> 0 then -1 else 0) } } } }"

definition motion_pipeline_deinit :: "hw_env \<Rightarrow> unit hw" where
  "motion_pipeline_deinit e = hw_all e [SysUnBind motion_src motion_dst, IvsDestroyChn IVS_CHN_ID,
     ViDisableChn VI_PIPE_ID VI_PHY_CHN_BYPATH_SAMPLING, ViDisableChn VI_PIPE_ID VI_PHY_CHN_BYPATH]"

section \<open>The preview pipeline\<close>

definition stream_vi_attr :: "ms_config_t \<Rightarrow> vi_chn_attr" where
  "stream_vi_attr cfg = (let m = c_mjpeg cfg; size = (mjpeg_width m, mjpeg_height m) in
     \<lparr>va_buf_count = 2, va_max = size, va_size = size, va_depth = 1,
      va_src_fps = h264_fps (c_h264 cfg), va_dst_fps = h264_fps (c_h264 cfg)\<rparr>)"

definition stream_venc_attr :: "ms_config_t \<Rightarrow> venc_chn_attr" where
  "stream_venc_attr cfg = (let m = c_mjpeg cfg; size = (mjpeg_width m, mjpeg_height m) in
     \<lparr>vc_codec = RK_VIDEO_ID_MJPEG, vc_profile = 0, vc_max = (0, 0), vc_pic = size, vc_vir = size, vc_buf_cnt = 3,
      vc_buf_size = mjpeg_width m * mjpeg_height m, vc_gop = 0, vc_bitrate = 0, vc_fps_num = 0, vc_fps_den = 0\<rparr>)"

definition stream_src :: mpp_chn where "stream_src = (RK_ID_VI, VI_PIPE_ID, VI_PHY_CHN_SELF)"
definition stream_dst :: mpp_chn where "stream_dst = (RK_ID_VENC, VENC_DEV_ID, VENC_CHN_MJPEG)"

definition stream_tuning :: "ms_config_t \<Rightarrow> hw_call list" where
  "stream_tuning cfg =
     [VencSet VENC_CHN_MJPEG (ChnFrameRate True (h264_fps (c_h264 cfg)) 1 (mjpeg_fps (c_mjpeg cfg)) 1),
      VencGet VENC_CHN_MJPEG GetRcParam,
      VencSet VENC_CHN_MJPEG (RcParamMjpeg (mjpeg_qfactor_max (c_mjpeg cfg)) (mjpeg_qfactor_min (c_mjpeg cfg)))]"

definition stream_pipeline_init :: "hw_env \<Rightarrow> ms_config_t \<Rightarrow> int hw" where
  "stream_pipeline_init e cfg = do {
     r1 \<leftarrow> hw_do e (ViSetChnAttr VI_PIPE_ID VI_PHY_CHN_SELF (stream_vi_attr cfg));
     r2 \<leftarrow> (if r1 \<noteq> 0 then State_Monad.return (-1) else hw_do e (ViEnableChn VI_PIPE_ID VI_PHY_CHN_SELF));
     if r2 \<noteq> 0 then State_Monad.return (-1)
     else do {
       hw_all e (stream_tuning cfg);
       r3 \<leftarrow> hw_do e (VencCreateChn VENC_CHN_MJPEG (stream_venc_attr cfg));
       if r3 \<noteq> 0 then State_Monad.return (-1)
       else do {
         hw_all e [VencStartRecvFrame VENC_CHN_MJPEG];
         r4 \<leftarrow> hw_do e (SysBind stream_src stream_dst);
         State_Monad.return (if r4 \<noteq> 0 then -1 else 0) } } }"

definition stream_pipeline_deinit :: "hw_env \<Rightarrow> unit hw" where
  "stream_pipeline_deinit e = hw_all e [SysUnBind stream_src stream_dst, VencStopRecvFrame VENC_CHN_MJPEG,
     VencDestroyChn VENC_CHN_MJPEG, ViDisableChn VI_PIPE_ID VI_PHY_CHN_SELF]"

end
