(* ===== verification/Osd.thy ===== *)
theory Osd
  imports Pipeline Calendar
begin

text \<open>
  The time overlay, \<open>src/media.c\<close> lines 676 to 869: the text, the two regions, their thread, set-up
  and teardown, with the macro of \<open>include/motionsense/utils.h\<close> that aligns its coordinates. The font
  library comes with the vendor's code: the advance of the rendered text is a parameter.
\<close>

section \<open>Alignment\<close>

text \<open>C's \<open>&\<close> and \<open>~\<close> of \<open>int\<close> are the bitwise operations on two's complement.\<close>

definition UPALIGNTO16 :: "int \<Rightarrow> int" where
  "UPALIGNTO16 x = and (x + 15) (not 15)"

lemma UPALIGNTO16_eq: "UPALIGNTO16 x = (x + 15) div 16 * 16"
proof -
  have "and a (not (mask 4)) = push_bit 4 (drop_bit 4 a)" for a :: int
    by (rule bit_eqI) (auto simp: bit_simps)
  from this [of "x + 15"] show ?thesis
    by (simp add: UPALIGNTO16_def mask_eq_exp_minus_1 push_bit_eq_mult drop_bit_eq_div)
qed

text \<open>The least multiple of 16 that is not smaller.\<close>

lemma UPALIGNTO16_up:
  "x \<le> UPALIGNTO16 x" "UPALIGNTO16 x < x + 16" "16 dvd UPALIGNTO16 x"
  unfolding UPALIGNTO16_eq by presburger+

definition OSD_RGN_H264 :: int where "OSD_RGN_H264 = 0"
definition OSD_RGN_MJPEG :: int where "OSD_RGN_MJPEG = 1"

section \<open>The text\<close>

text \<open>\<open>strftime\<close> with \<open>"%H:%M:%S  %Y-%m-%d"\<close>, and its conversion into a buffer of \<open>max_wch\<close> wide
  characters; a terminator outside of the buffer is \<open>None\<close>.\<close>

definition osd_time_string :: "tm \<Rightarrow> string" where
  "osd_time_string t = pad2 (tm_hour t) @ '':'' @ pad2 (tm_min t) @ '':'' @ pad2 (tm_sec t) @ ''  '' @
     date_string t"

definition osd_get_time_wch :: "bool \<Rightarrow> tm \<Rightarrow> nat \<Rightarrow> nat list \<Rightarrow> nat list option" where
  "osd_get_time_wch iconv_ok t max_wch wch =
     (if \<not> iconv_ok then Some wch
      else let buf = osd_time_string t; n = min (length buf) max_wch
           in if max_wch \<le> n then None
              else Some (map of_char (take n buf) @ [0] @ drop (n + 1) wch))"

section \<open>Regions\<close>

text \<open>The top left corner of a region of \<open>w\<close> by \<open>height\<close>.\<close>

definition osd_point :: "ms_config_t \<Rightarrow> int \<Rightarrow> int \<Rightarrow> int \<times> int" where
  "osd_point cfg w height =
     (let m = osd_margin (c_osd cfg);
          right = UPALIGNTO16 (sint (h264_width (c_h264 cfg)) - w - m);
          bottom = UPALIGNTO16 (sint (h264_height (c_h264 cfg)) - height - m)
      in case osd_position (c_osd cfg) of
           OSD_POS_TOP_LEFT \<Rightarrow> (UPALIGNTO16 m, UPALIGNTO16 m)
         | OSD_POS_TOP_RIGHT \<Rightarrow> (right, UPALIGNTO16 m)
         | OSD_POS_BOTTOM_LEFT \<Rightarrow> (UPALIGNTO16 m, bottom)
         | OSD_POS_BOTTOM_RIGHT \<Rightarrow> (right, bottom))"

definition osd_rgn_create :: "hw_env \<Rightarrow> ms_config_t \<Rightarrow> int \<Rightarrow> int \<Rightarrow> int \<Rightarrow> int \<Rightarrow> int hw" where
  "osd_rgn_create e cfg h venc_chn w height = do {
     r1 \<leftarrow> hw_do e (RgnCreate h w height);
     if r1 \<noteq> 0 then State_Monad.return (-1)
     else do {
       r2 \<leftarrow> hw_do e (RgnAttachToChn h venc_chn (fst (osd_point cfg w height)) (snd (osd_point cfg w height)));
       if r2 \<noteq> 0 then do { hw_all e [RgnDestroy h]; State_Monad.return (-1) }
       else State_Monad.return 0 } }"

definition osd_rgn_destroy :: "hw_env \<Rightarrow> int \<Rightarrow> int \<Rightarrow> unit hw" where
  "osd_rgn_destroy e h venc_chn = hw_all e [RgnDetachFromChn h venc_chn, RgnDestroy h]"

definition osd_upload :: "hw_env \<Rightarrow> int \<Rightarrow> unit hw" where
  "osd_upload e h = do { s \<leftarrow> State_Monad.get; hw_all e [RgnSetBitMap h (s_osd_w s) (s_osd_h s)] }"

text \<open>The thread's loop: the second each pass reads, and what it uploads.\<close>

fun osd_loop :: "hw_env \<Rightarrow> int \<Rightarrow> int list \<Rightarrow> unit hw" where
  "osd_loop e last_sec [] = State_Monad.return ()"
| "osd_loop e last_sec (sec # secs) =
     (if sec = last_sec then osd_loop e last_sec secs
      else do { osd_upload e OSD_RGN_H264; osd_upload e OSD_RGN_MJPEG; osd_loop e sec secs })"

definition osd_thread :: "hw_env \<Rightarrow> bool \<Rightarrow> int list \<Rightarrow> unit hw" where
  "osd_thread e malloc_ok secs = (if malloc_ok then osd_loop e (-1) secs else State_Monad.return ())"

section \<open>Set-up and teardown\<close>

definition osd_init :: "hw_env \<Rightarrow> ms_config_t \<Rightarrow> int hw" where
  "osd_init e cfg = do {
     r1 \<leftarrow> hw_do e (CreateFont (osd_font_size (c_osd cfg)));
     if r1 \<noteq> 0 then State_Monad.return (-1)
     else do {
       hw_all e [SetFontColor 16777215];
       hw_set (\<lambda>s. s\<lparr>s_osd_w := UPALIGNTO16 (hw_text_advance e),
                     s_osd_h := UPALIGNTO16 (osd_font_size (c_osd cfg))\<rparr>);
       s \<leftarrow> State_Monad.get;
       r2 \<leftarrow> osd_rgn_create e cfg OSD_RGN_H264 VENC_CHN_H264 (s_osd_w s) (s_osd_h s);
       if r2 \<noteq> 0 then State_Monad.return (-1)
       else do {
         r3 \<leftarrow> osd_rgn_create e cfg OSD_RGN_MJPEG VENC_CHN_MJPEG (s_osd_w s) (s_osd_h s);
         if r3 \<noteq> 0 then do { osd_rgn_destroy e OSD_RGN_H264 VENC_CHN_H264; State_Monad.return (-1) }
         else do {
           (if hw_calloc e then do { osd_upload e OSD_RGN_H264; osd_upload e OSD_RGN_MJPEG }
            else State_Monad.return ());
           State_Monad.return 0 } } } }"

definition osd_deinit :: "hw_env \<Rightarrow> unit hw" where
  "osd_deinit e = do {
     osd_rgn_destroy e OSD_RGN_H264 VENC_CHN_H264;
     osd_rgn_destroy e OSD_RGN_MJPEG VENC_CHN_MJPEG;
     hw_all e [DestroyFont] }"

end
