(* ===== verification/Daemon.thy ===== *)
theory Daemon
  imports Osd WriterProps CaptureProps
begin

text \<open>
  The daemon as a whole: \<open>media_init\<close>, \<open>media_stop\<close> and \<open>media_deinit\<close> of \<open>src/media.c\<close> and \<open>main\<close>
  of \<open>src/main.c\<close>, over the models of the capture queue, the writer, the preview and the pipelines.
\<close>

section \<open>Media\<close>

definition thread_started :: "thread \<Rightarrow> bool \<Rightarrow> media \<Rightarrow> media" where
  "thread_started t b s = (case t of
      ThrH264 \<Rightarrow> s\<lparr>s_h264_started := b\<rparr> | ThrMjpeg \<Rightarrow> s\<lparr>s_mjpeg_started := b\<rparr>
    | ThrIvs \<Rightarrow> s\<lparr>s_ivs_started := b\<rparr> | ThrOsd \<Rightarrow> s\<lparr>s_osd_started := b\<rparr>)"

definition is_started :: "thread \<Rightarrow> media \<Rightarrow> bool" where
  "is_started t s = (case t of
      ThrH264 \<Rightarrow> s_h264_started s | ThrMjpeg \<Rightarrow> s_mjpeg_started s
    | ThrIvs \<Rightarrow> s_ivs_started s | ThrOsd \<Rightarrow> s_osd_started s)"

definition start_thread :: "hw_env \<Rightarrow> thread \<Rightarrow> int hw" where
  "start_thread e t = do {
     r \<leftarrow> hw_do e (PthreadCreate t);
     if r \<noteq> 0 then State_Monad.return (-1)
     else do { hw_set (thread_started t True); State_Monad.return 0 } }"

definition join_thread :: "hw_env \<Rightarrow> thread \<Rightarrow> unit hw" where
  "join_thread e t = do {
     s \<leftarrow> State_Monad.get;
     if is_started t s then do { hw_all e [PthreadJoin t]; hw_set (thread_started t False) }
     else State_Monad.return () }"

definition web_do :: "(web_sock \<Rightarrow> web_sock \<times> ws_call list) \<Rightarrow> unit hw" where
  "web_do f = State (\<lambda>s. case f (md_web s) of (ws, calls) \<Rightarrow>
     ((), s\<lparr>md_web := ws, md_log := md_log s @ map (\<lambda>c. (WebSockCall c, 0)) calls\<rparr>))"

text \<open>The labels of \<open>media_init\<close>, each falling through to the next.\<close>

definition fail_sys :: "hw_env \<Rightarrow> int hw" where
  "fail_sys e = do { hw_all e [SysExit]; State_Monad.return (-1) }"

definition fail_vi :: "hw_env \<Rightarrow> int hw" where
  "fail_vi e = do { vi_dev_deinit e; fail_sys e }"

definition fail_aiq :: "hw_env \<Rightarrow> int hw" where
  "fail_aiq e = do { aiq_stop e; fail_vi e }"

definition fail_pipe0 :: "hw_env \<Rightarrow> int hw" where
  "fail_pipe0 e = do { record_pipeline_deinit e; fail_aiq e }"

definition fail_pipe1 :: "hw_env \<Rightarrow> int hw" where
  "fail_pipe1 e = do { stream_pipeline_deinit e; fail_pipe0 e }"

definition fail_threads :: "hw_env \<Rightarrow> int hw" where
  "fail_threads e = do {
     hw_set (\<lambda>s. s\<lparr>s_producers_run := False\<rparr>);
     join_thread e ThrH264; join_thread e ThrMjpeg; join_thread e ThrIvs;
     motion_pipeline_deinit e; fail_pipe1 e }"

definition start_osd :: "hw_env \<Rightarrow> ms_config_t \<Rightarrow> unit hw" where
  "start_osd e cfg = do {
     r \<leftarrow> osd_init e cfg;
     if r \<noteq> 0 then State_Monad.return ()
     else do {
       hw_set (\<lambda>s. s\<lparr>s_osd_inited := True\<rparr>);
       r' \<leftarrow> start_thread e ThrOsd;
       State_Monad.return () } }"

definition start_producers :: "hw_env \<Rightarrow> int hw" where
  "start_producers e = do {
     r1 \<leftarrow> start_thread e ThrH264;
     if r1 \<noteq> 0 then fail_threads e
     else do {
       r2 \<leftarrow> start_thread e ThrMjpeg;
       if r2 \<noteq> 0 then fail_threads e
       else do {
         r3 \<leftarrow> start_thread e ThrIvs;
         if r3 \<noteq> 0 then fail_threads e else State_Monad.return 0 } } }"

definition media_start :: "hw_env \<Rightarrow> ms_config_t \<Rightarrow> int hw" where
  "media_start e cfg = do {
     r \<leftarrow> venc_set_framerate e cfg VENC_CHN_H264 (if ivs_fps_high (c_ivs cfg) < 1 then 1 else ivs_fps_high (c_ivs cfg));
     hw_set (\<lambda>s. s\<lparr>s_producers_run := True\<rparr>);
     web_do (web_sock_srv_init (hw_socket e) (hw_bind e) (hw_listen e));
     start_osd e cfg;
     start_producers e }"

definition media_init :: "hw_env \<Rightarrow> ms_config_t \<Rightarrow> int hw" where
  "media_init e cfg = do {
     r0 \<leftarrow> hw_do e SysInit;
     if r0 \<noteq> 0 then State_Monad.return (-1)
     else do {
       r1 \<leftarrow> vi_dev_init e;
       if r1 \<noteq> 0 then fail_sys e
       else do {
         r2 \<leftarrow> aiq_init e;
         if r2 \<noteq> 0 then fail_vi e
         else do {
           r3 \<leftarrow> record_pipeline_init e cfg;
           if r3 \<noteq> 0 then fail_aiq e
           else do {
             r4 \<leftarrow> stream_pipeline_init e cfg;
             if r4 \<noteq> 0 then fail_pipe0 e
             else do {
               r5 \<leftarrow> motion_pipeline_init e cfg;
               if r5 \<noteq> 0 then fail_pipe1 e
               else media_start e cfg } } } } } }"

definition media_stop :: "hw_env \<Rightarrow> unit hw" where
  "media_stop e = do {
     s \<leftarrow> State_Monad.get;
     if \<not> s_producers_run s then State_Monad.return ()
     else do {
       hw_set (\<lambda>s. s\<lparr>s_producers_run := False\<rparr>);
       hw_all e [VencStopRecvFrame VENC_CHN_H264, VencStopRecvFrame VENC_CHN_MJPEG];
       join_thread e ThrOsd; join_thread e ThrH264; join_thread e ThrMjpeg; join_thread e ThrIvs;
       web_do web_sock_stop } }"

definition media_deinit :: "hw_env \<Rightarrow> unit hw" where
  "media_deinit e = do {
     media_stop e;
     s \<leftarrow> State_Monad.get;
     (if s_osd_inited s then do { osd_deinit e; hw_set (\<lambda>s. s\<lparr>s_osd_inited := False\<rparr>) }
      else State_Monad.return ());
     motion_pipeline_deinit e; stream_pipeline_deinit e; record_pipeline_deinit e;
     aiq_stop e; vi_dev_deinit e; hw_all e [SysExit] }"

section \<open>main\<close>

text \<open>
  What a run of the daemon meets, from start to exit: the outcomes the modules take, the events on
  the queue while the threads are up, the seconds the overlay reads and the pictures of the preview.
\<close>

record daemon_env =
  de_calloc_q :: bool
  de_calloc_slots :: bool
  de_create :: bool
  de_boot :: boot_env
  de_frames :: "nat \<Rightarrow> frame_env"
  de_stop :: stop_env
  de_hw :: hw_env
  de_events :: "fq_event list"
  de_osd_malloc :: bool
  de_secs :: "int list"
  de_mjpeg_malloc :: bool
  de_pictures :: "mjpeg_input list"

record ('ts, 'pl) daemon =
  dm_ctx :: app_ctx_t
  dm_storage :: "('ts, 'pl) storage_mod"
  dm_media :: media
  dm_freed :: "bytes list"

text \<open>
  \<open>main\<close> after \<open>ms_config_load\<close>: the exit status and the state it leaves. \<open>fuel\<close> is for the drain
  of \<open>storage_stop\<close>.
\<close>

definition daemon_main ::
  "'ts mpeg_ts \<Rightarrow> 'pl m3u8_ops \<Rightarrow> int \<Rightarrow> daemon_env \<Rightarrow> ms_config_t \<Rightarrow> nat \<Rightarrow> ('ts, 'pl) storage
     \<Rightarrow> (int \<times> ('ts, 'pl) daemon) option" where
  "daemon_main mts ops avtype e cfg fuel so0 =
     (case app_ctx_init (de_calloc_q e) (de_calloc_slots e) of (rc1, ctx) \<Rightarrow>
        let off = \<lparr>sm_started = False, sm_writer = \<lparr>wr_so = so0, wr_frames = 0, wr_freed = []\<rparr>\<rparr>
        in if rc1 \<noteq> 0 then Some (1, \<lparr>dm_ctx = ctx, dm_storage = off, dm_media = media_static, dm_freed = []\<rparr>)
        else case storage_init mts ops avtype (de_create e) (de_boot e) cfg so0 of (rc2, m) \<Rightarrow>
          if rc2 \<noteq> 0
          then (case app_ctx_deinit ctx of (ctx', freed) \<Rightarrow>
                  Some (1, \<lparr>dm_ctx = ctx', dm_storage = m, dm_media = media_static, dm_freed = freed\<rparr>))
          else case run_state (media_init (de_hw e) cfg) media_static of (rc3, md) \<Rightarrow>
            case writer_run (writer_body mts ops avtype (de_frames e) cfg) CFG_FQ_CAPACITY (de_events e) (sm_writer m) of
              (t, w) \<Rightarrow>
                let m1 = m\<lparr>sm_writer := w\<rparr>
                in if rc3 \<noteq> 0
                then (case storage_deinit mts ops avtype (de_frames e) (de_stop e) cfg fuel (t_q t) m1 of
                        None \<Rightarrow> None
                      | Some (q', m2) \<Rightarrow> (case app_ctx_deinit (ctx\<lparr>ctx_vq := Some q'\<rparr>) of (ctx', freed) \<Rightarrow>
                          Some (1, \<lparr>dm_ctx = ctx', dm_storage = m2, dm_media = md, dm_freed = freed\<rparr>)))
                else
                  let md1 = snd (run_state (osd_thread (de_hw e) (de_osd_malloc e) (de_secs e)) md);
                      md2 = md1\<lparr>md_web := fst (mjpeg_thread (de_mjpeg_malloc e) (de_pictures e) (md_web md1))\<rparr>;
                      md3 = snd (run_state (media_stop (de_hw e)) md2)
                  in (case storage_stop mts ops avtype (de_frames e) (de_stop e) cfg fuel (t_q t) m1 of
                        None \<Rightarrow> None
                      | Some (q1, m2) \<Rightarrow>
                          let md4 = snd (run_state (media_deinit (de_hw e)) md3)
                          in (case storage_deinit mts ops avtype (de_frames e) (de_stop e) cfg fuel q1 m2 of
                                None \<Rightarrow> None
                              | Some (q2, m3) \<Rightarrow> (case app_ctx_deinit (ctx\<lparr>ctx_vq := Some q2\<rparr>) of (ctx', freed) \<Rightarrow>
                                  Some (0, \<lparr>dm_ctx = ctx', dm_storage = m3, dm_media = md4, dm_freed = freed\<rparr>)))))"

end
