(* ===== verification/Resources.thy ===== *)
theory Resources
  imports Daemon
begin

text \<open>
  What the media module holds: resources acquired and released by the logged calls, the contract of a
  stage of the pipeline as a locale, and its interpretations on the stages of \<open>media.c\<close>.
\<close>

section \<open>What the log holds\<close>

datatype resource =
    Sys | Dev | Aiq | ViChn int | VencChn int | Ivs int | Binding mpp_chn
  | Rgn int | RgnAttachment int | Font | Thread thread

fun acquires :: "hw_call \<Rightarrow> resource option" where
  "acquires SysInit = Some Sys"
| "acquires (ViEnableDev d) = Some Dev"
| "acquires AiqInit = Some Aiq"
| "acquires (ViEnableChn d c) = Some (ViChn c)"
| "acquires (VencCreateChn c a) = Some (VencChn c)"
| "acquires (IvsCreateChn c a) = Some (Ivs c)"
| "acquires (SysBind a b) = Some (Binding a)"
| "acquires (RgnCreate h w v) = Some (Rgn h)"
| "acquires (RgnAttachToChn h c x y) = Some (RgnAttachment h)"
| "acquires (CreateFont n) = Some Font"
| "acquires (PthreadCreate t) = Some (Thread t)"
| "acquires c = None"

fun releases :: "hw_call \<Rightarrow> resource set" where
  "releases SysExit = {Sys}"
| "releases (ViDisableDev d) = {Dev}"
| "releases AiqDeinit = {Aiq}"
| "releases (ViDisableChn d c) = {ViChn c}"
| "releases (VencDestroyChn c) = {VencChn c}"
| "releases (IvsDestroyChn c) = {Ivs c}"
| "releases (SysUnBind a b) = {Binding a}"
| "releases (RgnDestroy h) = {Rgn h}"
| "releases (RgnDetachFromChn h c) = {RgnAttachment h}"
| "releases DestroyFont = {Font}"
| "releases (PthreadJoin t) = {Thread t}"
| "releases c = {}"

definition held_step :: "resource set \<Rightarrow> hw_call \<times> int \<Rightarrow> resource set" where
  "held_step H cr = (case cr of (c, r) \<Rightarrow>
     (case acquires c of Some x \<Rightarrow> if r = 0 then insert x H else H | None \<Rightarrow> H - releases c))"

definition held :: "media \<Rightarrow> resource set" where
  "held s = foldl held_step {} (md_log s)"

text \<open>The fields of the state that the pipelines leave alone, and the handle of the image processor.\<close>

definition ctl :: "media \<Rightarrow> (thread \<Rightarrow> bool) \<times> bool \<times> bool \<times> web_sock" where
  "ctl s = ((\<lambda>t. is_started t s), s_producers_run s, s_osd_inited s, md_web s)"

definition aiq_known :: "media \<Rightarrow> bool" where
  "aiq_known s \<longleftrightarrow> s_aiq_ctx s = (Aiq \<in> held s)"

named_theorems hw_simps \<open>running the calls\<close>

lemma run_hw_do [hw_simps]:
  "run_state (hw_do e c) s = (hw_ret e (length (md_log s)), s\<lparr>md_log := md_log s @ [(c, hw_ret e (length (md_log s)))]\<rparr>)"
  by (simp add: hw_do_def Let_def)

lemma run_hw_set [hw_simps]: "run_state (hw_set f) s = ((), f s)"
  by (simp add: hw_set_def)

lemma run_if [hw_simps]: "run_state (if b then m else n) s = (if b then run_state m s else run_state n s)"
  by simp

lemma held_log [hw_simps]:
  "held (s\<lparr>md_log := md_log s @ xs\<rparr>) = foldl held_step (held s) xs"
  "held (s\<lparr>md_log := (md_log s @ xs) @ ys\<rparr>) = foldl held_step (held s) (xs @ ys)"
  by (simp_all add: held_def)

section \<open>Stages\<close>

text \<open>
  The contract \<open>media_init\<close> relies on: bringing a stage up acquires at most the stage's resources,
  whatever fails, taking it down releases exactly those, and both leave the control state alone.
\<close>

locale stage =
  fixes up :: "int hw" and down :: "unit hw" and res :: "resource set"
  assumes up_bound: "aiq_known s \<Longrightarrow> held s \<inter> res = {} \<Longrightarrow> run_state up s = (r, s') \<Longrightarrow>
      held s' \<subseteq> held s \<union> res \<and> ctl s' = ctl s \<and> aiq_known s'"
    and down_frees: "aiq_known s \<Longrightarrow> run_state down s = (u, s') \<Longrightarrow>
      held s' = held s - res \<and> ctl s' = ctl s \<and> aiq_known s'"
begin

lemma up_down:
  assumes "aiq_known s" and "held s \<inter> res = {}" and "run_state up s = (r, s1)" and "run_state down s1 = (u, s2)"
  shows "held s2 \<subseteq> held s \<and> ctl s2 = ctl s \<and> aiq_known s2"
proof -
  note U = up_bound [OF assms(1-3)]
  note D = down_frees [OF U [THEN conjunct2, THEN conjunct2] assms(4)]
  show ?thesis using U D by auto
qed

end

lemmas held_simps = held_def held_step_def aiq_known_def ctl_def is_started_def

lemma record_up:
  assumes "aiq_known s" and "run_state (record_pipeline_init e cfg) s = (r, s')"
  shows "held s' \<subseteq> held s \<union> {ViChn VENC_CHN_H264, VencChn VENC_CHN_H264} \<and> ctl s' = ctl s \<and> aiq_known s'"
  using assms
  by (auto simp: record_pipeline_init_def record_tuning_def hw_simps held_simps Let_def split: if_splits)

lemma record_down:
  assumes "aiq_known s" and "run_state (record_pipeline_deinit e) s = (u, s')"
  shows "held s' = held s - {ViChn VENC_CHN_H264, VencChn VENC_CHN_H264} \<and> ctl s' = ctl s \<and> aiq_known s'"
  using assms
  by (auto simp: record_pipeline_deinit_def hw_simps held_simps)

section \<open>The stages of media.c\<close>

lemma vi_dev_up:
  assumes "aiq_known s" and "run_state (vi_dev_init e) s = (r, s')"
  shows "held s' \<subseteq> held s \<union> {Dev} \<and> ctl s' = ctl s \<and> aiq_known s'"
  using assms
  by (auto simp: vi_dev_init_def hw_simps held_simps split: if_splits)

lemma vi_dev_down:
  assumes "aiq_known s" and "run_state (vi_dev_deinit e) s = (u, s')"
  shows "held s' = held s - {Dev} \<and> ctl s' = ctl s \<and> aiq_known s'"
  using assms by (auto simp: vi_dev_deinit_def hw_simps held_simps)

lemma aiq_up:
  assumes "aiq_known s" and "held s \<inter> {Aiq} = {}" and "run_state (aiq_init e) s = (r, s')"
  shows "held s' \<subseteq> held s \<union> {Aiq} \<and> ctl s' = ctl s \<and> aiq_known s'"
  using assms
  by (auto simp: aiq_init_def hw_simps held_simps split: if_splits)

lemma aiq_down:
  assumes "aiq_known s" and "run_state (aiq_stop e) s = (u, s')"
  shows "held s' = held s - {Aiq} \<and> ctl s' = ctl s \<and> aiq_known s'"
  using assms
  by (auto simp: aiq_stop_def hw_simps held_simps split: if_splits)

lemma stream_up:
  assumes "aiq_known s" and "run_state (stream_pipeline_init e cfg) s = (r, s')"
  shows "held s' \<subseteq> held s \<union> {ViChn VI_PHY_CHN_SELF, VencChn VENC_CHN_MJPEG, Binding stream_src} \<and>
    ctl s' = ctl s \<and> aiq_known s'"
  using assms
  by (auto simp: stream_pipeline_init_def stream_tuning_def hw_simps held_simps split: if_splits)

lemma stream_down:
  assumes "aiq_known s" and "run_state (stream_pipeline_deinit e) s = (u, s')"
  shows "held s' = held s - {ViChn VI_PHY_CHN_SELF, VencChn VENC_CHN_MJPEG, Binding stream_src} \<and>
    ctl s' = ctl s \<and> aiq_known s'"
  using assms by (auto simp: stream_pipeline_deinit_def hw_simps held_simps)

lemma motion_up:
  assumes "aiq_known s" and "run_state (motion_pipeline_init e cfg) s = (r, s')"
  shows "held s' \<subseteq> held s \<union> {ViChn VI_PHY_CHN_BYPATH, ViChn VI_PHY_CHN_BYPATH_SAMPLING, Ivs IVS_CHN_ID, Binding motion_src} \<and>
    ctl s' = ctl s \<and> aiq_known s'"
  using assms
  by (auto simp: motion_pipeline_init_def hw_simps held_simps split: if_splits)

lemma motion_down:
  assumes "aiq_known s" and "run_state (motion_pipeline_deinit e) s = (u, s')"
  shows "held s' = held s - {ViChn VI_PHY_CHN_BYPATH, ViChn VI_PHY_CHN_BYPATH_SAMPLING, Ivs IVS_CHN_ID, Binding motion_src} \<and>
    ctl s' = ctl s \<and> aiq_known s'"
  using assms by (auto simp: motion_pipeline_deinit_def hw_simps held_simps)

abbreviation osd_res :: "resource set" where
  "osd_res \<equiv> {Rgn OSD_RGN_H264, Rgn OSD_RGN_MJPEG, RgnAttachment OSD_RGN_H264, RgnAttachment OSD_RGN_MJPEG, Font}"

lemma osd_rgn_create_run:
  assumes "run_state (osd_rgn_create e cfg h c w v) s = (r, s')"
  shows "held s' \<subseteq> held s \<union> {Rgn h, RgnAttachment h} \<and> ctl s' = ctl s \<and> s_aiq_ctx s' = s_aiq_ctx s \<and>
    (r = 0 \<longrightarrow> held s' = held s \<union> {Rgn h, RgnAttachment h})"
  using assms
  by (auto simp: osd_rgn_create_def hw_simps held_simps split: if_splits)

lemma osd_rgn_destroy_run:
  assumes "run_state (osd_rgn_destroy e h c) s = (u, s')"
  shows "held s' = held s - {Rgn h, RgnAttachment h} \<and> ctl s' = ctl s \<and> s_aiq_ctx s' = s_aiq_ctx s"
  using assms by (auto simp: osd_rgn_destroy_def hw_simps held_simps)

lemma osd_upload_run:
  assumes "run_state (osd_upload e h) s = (u, s')"
  shows "held s' = held s \<and> ctl s' = ctl s \<and> s_aiq_ctx s' = s_aiq_ctx s"
  using assms by (auto simp: osd_upload_def hw_simps held_simps)

lemma osd_init_run:
  assumes "aiq_known s" and "run_state (osd_init e cfg) s = (r, s')"
  shows "held s' \<subseteq> held s \<union> osd_res \<and> ctl s' = ctl s \<and> aiq_known s' \<and> (r = 0 \<longrightarrow> osd_res \<subseteq> held s')"
  using assms
  by (auto simp: osd_init_def osd_rgn_create_def osd_rgn_destroy_def osd_upload_def hw_simps held_simps split: if_splits)

lemma osd_up:
  assumes "aiq_known s" and "run_state (osd_init e cfg) s = (r, s')"
  shows "held s' \<subseteq> held s \<union> osd_res \<and> ctl s' = ctl s \<and> aiq_known s'"
  using osd_init_run [OF assms] by (elim conjE) (intro conjI)

lemma osd_down:
  assumes "aiq_known s" and "run_state (osd_deinit e) s = (u, s')"
  shows "held s' = held s - osd_res \<and> ctl s' = ctl s \<and> aiq_known s'"
  using assms by (auto simp: osd_deinit_def osd_rgn_destroy_def hw_simps held_simps)

interpretation record_stage: stage "record_pipeline_init e cfg" "record_pipeline_deinit e"
  "{ViChn VENC_CHN_H264, VencChn VENC_CHN_H264}" for e cfg
  by unfold_locales (rule record_up, assumption+, rule record_down, assumption+)

interpretation device_stage: stage "vi_dev_init e" "vi_dev_deinit e" "{Dev}" for e
  by unfold_locales (rule vi_dev_up, assumption+, rule vi_dev_down, assumption+)

interpretation aiq_stage: stage "aiq_init e" "aiq_stop e" "{Aiq}" for e
  by unfold_locales (rule aiq_up, assumption+, rule aiq_down)

interpretation stream_stage: stage "stream_pipeline_init e cfg" "stream_pipeline_deinit e"
  "{ViChn VI_PHY_CHN_SELF, VencChn VENC_CHN_MJPEG, Binding stream_src}" for e cfg
  by unfold_locales (rule stream_up, assumption+, rule stream_down, assumption+)

interpretation motion_stage: stage "motion_pipeline_init e cfg" "motion_pipeline_deinit e"
  "{ViChn VI_PHY_CHN_BYPATH, ViChn VI_PHY_CHN_BYPATH_SAMPLING, Ivs IVS_CHN_ID, Binding motion_src}" for e cfg
  by unfold_locales (rule motion_up, assumption+, rule motion_down, assumption+)

interpretation osd_stage: stage "osd_init e cfg" "osd_deinit e" osd_res for e cfg
  by unfold_locales (rule osd_up, assumption+, rule osd_down, assumption+)

end
