(* ===== verification/OsdProps.thy ===== *)
theory OsdProps
  imports Resources
begin

text \<open>
  The overlay: where its regions lie in the picture, and the text it shows.
\<close>

section \<open>Regions\<close>

lemma osd_point_inside:
  assumes "15 \<le> osd_margin (c_osd cfg)"
    and "w + 2 * osd_margin (c_osd cfg) \<le> sint (h264_width (c_h264 cfg))"
    and "h + 2 * osd_margin (c_osd cfg) \<le> sint (h264_height (c_h264 cfg))"
    and "osd_point cfg w h = (x, y)"
  shows "0 \<le> x \<and> x + w \<le> sint (h264_width (c_h264 cfg)) \<and> 0 \<le> y \<and> y + h \<le> sint (h264_height (c_h264 cfg)) \<and>
    16 dvd x \<and> 16 dvd y"
proof -
  let ?m = "osd_margin (c_osd cfg)" and ?up = UPALIGNTO16
  let ?W = "sint (h264_width (c_h264 cfg))" and ?H = "sint (h264_height (c_h264 cfg))"
  note up = UPALIGNTO16_up
  have "x = ?up ?m \<or> x = ?up (?W - w - ?m)" and "y = ?up ?m \<or> y = ?up (?H - h - ?m)"
    using assms(4) by (auto simp: osd_point_def Let_def split: osd_position_t.splits)
  then show ?thesis
    using assms(1-3) up [of ?m] up [of "?W - w - ?m"] up [of "?H - h - ?m"] by auto
qed

text \<open>The calls of a computation: what it adds to the log.\<close>

definition calls_of :: "'a hw \<Rightarrow> media \<Rightarrow> hw_call set" where
  "calls_of m s = set (map fst (drop (length (md_log s)) (md_log (snd (run_state m s)))))"

lemma osd_attached:
  assumes "RgnAttachToChn h c x y \<in> calls_of (osd_init e cfg) s"
  shows "osd_point cfg (UPALIGNTO16 (hw_text_advance e)) (UPALIGNTO16 (osd_font_size (c_osd cfg))) = (x, y)"
  using assms
  by (auto simp: calls_of_def osd_init_def osd_rgn_create_def osd_rgn_destroy_def osd_upload_def hw_simps split: if_splits)

lemma osd_created:
  assumes "RgnCreate h w v \<in> calls_of (osd_init e cfg) s"
  shows "w = UPALIGNTO16 (hw_text_advance e) \<and> v = UPALIGNTO16 (osd_font_size (c_osd cfg))"
  using assms
  by (auto simp: calls_of_def osd_init_def osd_rgn_create_def osd_rgn_destroy_def osd_upload_def hw_simps split: if_splits)

text \<open>
C28: With a margin of at least 15 (the default is 16) and a text that leaves room for the margins,
every overlay region that \<open>osd_init\<close> creates and attaches lies inside the recorded picture, at coordinates that are multiples of 16: aligning the corner upwards eats
at most 15 pixels of the margin.
\<close>

theorem osd_regions_inside:
  assumes "15 \<le> osd_margin (c_osd cfg)"
    and "UPALIGNTO16 (hw_text_advance e) + 2 * osd_margin (c_osd cfg) \<le> sint (h264_width (c_h264 cfg))"
    and "UPALIGNTO16 (osd_font_size (c_osd cfg)) + 2 * osd_margin (c_osd cfg) \<le> sint (h264_height (c_h264 cfg))"
    and "RgnCreate h w v \<in> calls_of (osd_init e cfg) s" and "RgnAttachToChn h c x y \<in> calls_of (osd_init e cfg) s"
  shows "0 \<le> x \<and> x + w \<le> sint (h264_width (c_h264 cfg)) \<and> 0 \<le> y \<and> y + v \<le> sint (h264_height (c_h264 cfg)) \<and>
    16 dvd x \<and> 16 dvd y"
  using osd_point_inside [OF assms(1-3) osd_attached [OF assms(5)]] osd_created [OF assms(4)] by simp

definition demo_hw :: hw_env where
  "demo_hw = \<lparr>hw_ret = \<lambda>n. 0, hw_not_config = 7, hw_text_advance = 380,
     hw_calloc = True, hw_socket = 3, hw_bind = True, hw_listen = True\<rparr>"

lemma osd_regions_inside_witness:
  "(0::int) \<le> 1520 \<and> 1520 + 384 \<le> sint (h264_width (c_h264 config_defaults)) \<and> (0::int) \<le> 1024 \<and>
    1024 + 48 \<le> sint (h264_height (c_h264 config_defaults)) \<and> (16::int) dvd 1520 \<and> (16::int) dvd 1024"
proof (rule osd_regions_inside [where e = demo_hw and h = OSD_RGN_H264 and c = VENC_CHN_H264 and s = media_static])
  let ?calls = "calls_of (osd_init demo_hw config_defaults) media_static"
  have *: "osd_point config_defaults 384 48 = (1520, 1024)"
    by (simp add: osd_point_def UPALIGNTO16_eq config_defaults_def CFG_OSD_MARGIN_def CFG_VI_W_def CFG_VI_H_def)
  show "RgnCreate OSD_RGN_H264 384 48 \<in> ?calls"
    by (simp add: calls_of_def osd_init_def osd_rgn_create_def osd_upload_def hw_simps demo_hw_def config_defaults_def UPALIGNTO16_eq
        CFG_OSD_FONT_SIZE_def media_static_def)
  have "UPALIGNTO16 (hw_text_advance demo_hw) = 384"
    "UPALIGNTO16 (osd_font_size (c_osd config_defaults)) = 48" "hw_ret demo_hw n = 0" "hw_calloc demo_hw" for n
    by (simp_all add: UPALIGNTO16_eq demo_hw_def config_defaults_def CFG_OSD_FONT_SIZE_def)
  with * show "RgnAttachToChn OSD_RGN_H264 VENC_CHN_H264 1520 1024 \<in> ?calls"
    by (simp add: calls_of_def osd_init_def osd_rgn_create_def osd_upload_def hw_simps media_static_def)
qed (simp_all add: UPALIGNTO16_eq demo_hw_def config_defaults_def CFG_OSD_MARGIN_def CFG_OSD_FONT_SIZE_def CFG_VI_W_def CFG_VI_H_def)

section \<open>The text\<close>

text \<open>A four-digit year gives twenty characters; the buffer of \<open>MAX_WCH_BYTE\<close> holds them and the end.\<close>

lemma osd_time_string_length:
  assumes "tm_hour t < 24" "tm_min t < 60" "tm_sec t < 61" "tm_mon t < 12" "tm_mday t < 32"
    and "length (show_int (tm_year t + 1900)) = 4"
  shows "length (osd_time_string t) = 20"
  using assms by (simp add: osd_time_string_def date_string_def pad2_length)

lemma osd_text_fits:
  assumes "length (osd_time_string t) < n"
  shows "osd_get_time_wch True t n wch = Some (map of_char (osd_time_string t) @ [0] @ drop (length (osd_time_string t) + 1) wch)"
  using assms by (simp add: osd_get_time_wch_def Let_def)

end
