(* ===== verification/DaemonProps.thy ===== *)
theory DaemonProps
  imports Resources
begin

text \<open>
  The life of the daemon: what is released at its end and what is not, and the order in which the
  modules go down.
\<close>

section \<open>Threads and sockets\<close>

lemma fail_sys_rc: "run_state (fail_sys e) s = (r, s') \<Longrightarrow> r = -1"
  by (auto simp: fail_sys_def hw_simps)

lemma fail_vi_rc: "run_state (fail_vi e) s = (r, s') \<Longrightarrow> r = -1"
  by (auto simp: fail_vi_def dest: fail_sys_rc split: prod.splits)

lemma fail_aiq_rc: "run_state (fail_aiq e) s = (r, s') \<Longrightarrow> r = -1"
  by (auto simp: fail_aiq_def dest: fail_vi_rc split: prod.splits)

lemma fail_pipe0_rc: "run_state (fail_pipe0 e) s = (r, s') \<Longrightarrow> r = -1"
  by (auto simp: fail_pipe0_def dest: fail_aiq_rc split: prod.splits)

lemma fail_pipe1_rc: "run_state (fail_pipe1 e) s = (r, s') \<Longrightarrow> r = -1"
  by (auto simp: fail_pipe1_def dest: fail_pipe0_rc split: prod.splits)

lemma fail_threads_rc: "run_state (fail_threads e) s = (r, s') \<Longrightarrow> r = -1"
  by (auto simp: fail_threads_def dest: fail_pipe1_rc split: prod.splits)

lemmas fail_rcs = fail_sys_rc fail_vi_rc fail_aiq_rc fail_pipe0_rc fail_pipe1_rc fail_threads_rc

lemma is_started_set [simp]:
  "is_started t (thread_started t' b s) = (if t = t' then b else is_started t s)"
  by (cases t; cases t') (simp_all add: is_started_def thread_started_def)

lemma thread_started_fields [simp]:
  "held (thread_started t b s) = held s" "s_aiq_ctx (thread_started t b s) = s_aiq_ctx s"
  "s_producers_run (thread_started t b s) = s_producers_run s"
  "s_osd_inited (thread_started t b s) = s_osd_inited s" "md_web (thread_started t b s) = md_web s"
  "md_log (thread_started t b s) = md_log s"
  by (cases t; simp add: thread_started_def held_def)+

lemma is_started_log [simp]: "is_started t (s\<lparr>md_log := l\<rparr>) = is_started t s"
  "is_started t (s\<lparr>s_producers_run := b\<rparr>) = is_started t s" "is_started t (s\<lparr>s_osd_inited := b\<rparr>) = is_started t s"
  "is_started t (s\<lparr>md_web := w\<rparr>) = is_started t s"
  by (cases t; simp add: is_started_def)+

lemma held_fields [simp]: "held (s\<lparr>s_producers_run := b\<rparr>) = held s" "held (s\<lparr>s_osd_inited := b\<rparr>) = held s"
  "held (s\<lparr>md_web := w\<rparr>) = held s"
  by (simp_all add: held_def)

text \<open>A thread that runs is known to run.\<close>

definition threads_known :: "media \<Rightarrow> bool" where
  "threads_known s \<longleftrightarrow> (\<forall>t. Thread t \<in> held s \<longrightarrow> is_started t s)"

lemma start_thread_run:
  assumes "run_state (start_thread e t) s = (r, s')" and "threads_known s" and "aiq_known s"
  shows "threads_known s' \<and> aiq_known s' \<and> held s' \<subseteq> insert (Thread t) (held s) \<and>
    held s \<subseteq> held s' \<and> s_producers_run s' = s_producers_run s \<and> s_osd_inited s' = s_osd_inited s \<and> md_web s' = md_web s"
  using assms
  by (auto simp: start_thread_def hw_simps threads_known_def aiq_known_def held_step_def split: if_splits)

lemma join_thread_run:
  assumes "run_state (join_thread e t) s = (u, s')" and "threads_known s" and "aiq_known s"
  shows "threads_known s' \<and> aiq_known s' \<and> held s' = held s - {Thread t} \<and>
    s_producers_run s' = s_producers_run s \<and> s_osd_inited s' = s_osd_inited s \<and> md_web s' = md_web s"
  using assms
  by (auto simp: join_thread_def hw_simps threads_known_def aiq_known_def held_step_def split: if_splits)

lemma web_calls_held: "foldl held_step H (map (\<lambda>c. (WebSockCall c, 0)) cs) = H"
  by (induction cs) (simp_all add: held_step_def)

lemma web_do_run:
  assumes "run_state (web_do f) s = (u, s')"
  shows "held s' = held s \<and> s_aiq_ctx s' = s_aiq_ctx s \<and> (\<forall>t. is_started t s' = is_started t s) \<and>
    s_producers_run s' = s_producers_run s \<and> s_osd_inited s' = s_osd_inited s \<and> md_web s' = fst (f (md_web s))"
  using assms
  by (auto simp: web_do_def held_def web_calls_held split: prod.splits)

section \<open>From start-up to teardown\<close>

definition pipe_res :: "resource set" where
  "pipe_res = {Sys, Dev, Aiq, ViChn VENC_CHN_H264, VencChn VENC_CHN_H264, ViChn VI_PHY_CHN_SELF, VencChn VENC_CHN_MJPEG,
     Binding stream_src, ViChn VI_PHY_CHN_BYPATH, ViChn VI_PHY_CHN_BYPATH_SAMPLING, Ivs IVS_CHN_ID, Binding motion_src}"

definition media_res :: "media \<Rightarrow> resource set" where
  "media_res s = pipe_res \<union> Thread ` {t. is_started t s} \<union> (if s_osd_inited s then osd_res else {Font})"

text \<open>The state between \<open>media_init\<close> and the end of \<open>media_deinit\<close>.\<close>

definition media_ok :: "media \<Rightarrow> bool" where
  "media_ok s \<longleftrightarrow> aiq_known s \<and> held s \<subseteq> media_res s"

lemma media_res_cong:
  "(\<And>t. is_started t s' = is_started t s) \<Longrightarrow> s_osd_inited s' = s_osd_inited s \<Longrightarrow> media_res s' = media_res s"
  by (simp add: media_res_def)

lemma media_res_thread: "media_res (thread_started t True s) = insert (Thread t) (media_res s)"
  by (auto simp: media_res_def)

lemma media_res_osd: "\<not> s_osd_inited s \<Longrightarrow> media_res (s\<lparr>s_osd_inited := True\<rparr>) = media_res s \<union> osd_res"
  by (auto simp: media_res_def)

lemma media_res_font: "Font \<in> media_res s" and media_res_pipe: "pipe_res \<subseteq> media_res s"
  by (auto simp: media_res_def)

lemma ctl_eq:
  assumes "ctl s' = ctl s"
  shows "is_started t s' = is_started t s" "s_producers_run s' = s_producers_run s" "s_osd_inited s' = s_osd_inited s"
    "md_web s' = md_web s" "media_res s' = media_res s"
proof -
  show t: "is_started t s' = is_started t s" for t using assms by (auto simp: ctl_def dest: fun_cong)
  show "s_producers_run s' = s_producers_run s" "md_web s' = md_web s" and o: "s_osd_inited s' = s_osd_inited s"
    using assms by (simp_all add: ctl_def)
  show "media_res s' = media_res s" by (rule media_res_cong [OF t o])
qed

lemma media_ok_ctl:
  assumes "media_ok s" and "aiq_known s'" and "ctl s' = ctl s" and "held s' \<subseteq> held s \<union> pipe_res"
  shows "media_ok s'"
  using assms media_res_pipe [of s] unfolding media_ok_def ctl_eq(5) [OF assms(3)] by blast

lemma osd_failed:
  assumes "run_state (osd_init e cfg) s = (r, s')" and "r \<noteq> 0"
  shows "held s' \<subseteq> held s \<union> {Font}"
  using assms
  by (auto simp: osd_init_def osd_rgn_create_def osd_rgn_destroy_def osd_upload_def hw_simps held_def held_step_def
      split: if_splits)

lemma start_thread_ok:
  assumes "run_state (start_thread e t) s = (r, s')" and "media_ok s"
  shows "media_ok s' \<and> s_producers_run s' = s_producers_run s \<and> s_osd_inited s' = s_osd_inited s \<and> md_web s' = md_web s"
proof -
  let ?s1 = "s\<lparr>md_log := md_log s @ [(PthreadCreate t, hw_ret e (length (md_log s)))]\<rparr>"
  have "media_res ?s1 = media_res s" by (rule media_res_cong) simp_all
  then show ?thesis
    using assms
    by (auto simp: start_thread_def hw_simps media_ok_def aiq_known_def held_step_def media_res_thread split: if_splits)
qed

lemma start_osd_ok:
  assumes "run_state (start_osd e cfg) s = (u, s')" and "media_ok s" and "\<not> s_osd_inited s"
  shows "media_ok s' \<and> s_producers_run s' = s_producers_run s"
proof -
  obtain r s1 where o: "run_state (osd_init e cfg) s = (r, s1)" by fastforce
  have a: "aiq_known s" using assms(2) by (simp add: media_ok_def)
  note U = osd_up [OF a o]
  show ?thesis
  proof (cases "r = 0")
    case False
    then have "s' = s1" using assms(1) o by (simp add: start_osd_def)
    then show ?thesis
      using U osd_failed [OF o False] assms(2) media_res_font [of s] ctl_eq(2,5) [of s1 s] by (auto simp: media_ok_def)
  next
    case True
    let ?s2 = "s1\<lparr>s_osd_inited := True\<rparr>"
    have "media_res ?s2 = media_res s \<union> osd_res"
      using U media_res_osd [of s1] ctl_eq(3,5) [of s1 s] assms(3) by simp
    then have "media_ok ?s2" using U assms(2) by (auto simp: media_ok_def aiq_known_def)
    moreover obtain r' where "run_state (start_thread e ThrOsd) ?s2 = (r', s')"
      using assms(1) o True by (auto simp: start_osd_def hw_simps split: prod.splits)
    ultimately show ?thesis using start_thread_ok [of e ThrOsd ?s2 r' s'] U ctl_eq(2) [of s1 s] by simp
  qed
qed

lemma start_producers_ok:
  assumes "run_state (start_producers e) s = (0, s')" and "media_ok s"
  shows "media_ok s' \<and> s_producers_run s' = s_producers_run s"
proof -
  obtain r1 s1 where t1: "run_state (start_thread e ThrH264) s = (r1, s1)" by fastforce
  obtain r2 s2 where t2: "run_state (start_thread e ThrMjpeg) s1 = (r2, s2)" by fastforce
  obtain r3 s3 where t3: "run_state (start_thread e ThrIvs) s2 = (r3, s3)" by fastforce
  have "s' = s3"
    using assms(1) t1 t2 t3 fail_threads_rc by (fastforce simp: start_producers_def hw_simps split: if_splits)
  then show ?thesis
    using start_thread_ok [OF t1] start_thread_ok [OF t2] start_thread_ok [OF t3] assms(2) by simp
qed

lemma venc_set_framerate_run:
  assumes "run_state (venc_set_framerate e cfg c fps) s = (r, s')"
  shows "held s' = held s \<and> ctl s' = ctl s \<and> s_aiq_ctx s' = s_aiq_ctx s"
  using assms by (auto simp: venc_set_framerate_def hw_simps held_simps split: if_splits)

lemma media_start_ok:
  assumes "run_state (media_start e cfg) s = (0, s')" and "media_ok s" and "\<not> s_osd_inited s"
  shows "media_ok s' \<and> s_producers_run s'"
proof -
  let ?fps = "if ivs_fps_high (c_ivs cfg) < 1 then 1 else ivs_fps_high (c_ivs cfg)"
  obtain r s1 where v: "run_state (venc_set_framerate e cfg VENC_CHN_H264 ?fps) s = (r, s1)" by fastforce
  let ?s1 = "s1\<lparr>s_producers_run := True\<rparr>"
  obtain u s2 where w: "run_state (web_do (web_sock_srv_init (hw_socket e) (hw_bind e) (hw_listen e))) ?s1 = (u, s2)"
    by (metis surj_pair)
  obtain u' s3 where o: "run_state (start_osd e cfg) s2 = (u', s3)" by (metis surj_pair)
  have p: "run_state (start_producers e) s3 = (0, s')"
    using assms(1) v w o by (simp add: media_start_def hw_simps)
  note V = venc_set_framerate_run [OF v]
  note W = web_do_run [OF w]
  have "media_ok s2 \<and> \<not> s_osd_inited s2 \<and> s_producers_run s2"
    using V W assms(2,3) media_res_cong [of s2 s] ctl_eq [of s1 s] by (simp add: media_ok_def aiq_known_def)
  then show ?thesis using start_osd_ok [OF o] start_producers_ok [OF p] by simp
qed

lemma media_static_ok: "media_ok media_static" "\<not> s_osd_inited media_static" "held media_static = {}"
  by (simp_all add: media_ok_def aiq_known_def held_def media_static_def)

lemma stages_in_pipe:
  "{Dev} \<subseteq> pipe_res" "{Aiq} \<subseteq> pipe_res" "{ViChn VENC_CHN_H264, VencChn VENC_CHN_H264} \<subseteq> pipe_res"
  "{ViChn VI_PHY_CHN_SELF, VencChn VENC_CHN_MJPEG, Binding stream_src} \<subseteq> pipe_res"
  "{ViChn VI_PHY_CHN_BYPATH, ViChn VI_PHY_CHN_BYPATH_SAMPLING, Ivs IVS_CHN_ID, Binding motion_src} \<subseteq> pipe_res"
  by (auto simp: pipe_res_def)

lemma stage_ok:
  assumes "media_ok s" and "held s' \<subseteq> held s \<union> R \<and> ctl s' = ctl s \<and> aiq_known s'" and "R \<subseteq> pipe_res"
  shows "media_ok s'" "s_osd_inited s' = s_osd_inited s"
proof -
  have "held s' \<subseteq> held s \<union> pipe_res" using assms(2,3) by blast
  then show "media_ok s'" using media_ok_ctl [OF assms(1)] assms(2) by blast
  show "s_osd_inited s' = s_osd_inited s" using assms(2) ctl_eq(3) by blast
qed

text \<open>The labels of \<open>media_init\<close>, each the teardown of a stage followed by the next label.\<close>

lemma fail_sys_run:
  "aiq_known s \<Longrightarrow> run_state (fail_sys e) s = (r, s') \<Longrightarrow> held s' = held s - {Sys} \<and> ctl s' = ctl s \<and> aiq_known s'"
  by (auto simp: fail_sys_def hw_simps held_simps)

lemma then_fails:
  assumes "stage up down res" and "\<And>s r s'. aiq_known s \<Longrightarrow> run_state rest s = (r, s') \<Longrightarrow>
      held s' = held s - R \<and> ctl s' = ctl s \<and> aiq_known s'"
    and "aiq_known s" and "run_state (do { u \<leftarrow> down; rest }) s = (r, s')"
  shows "held s' = held s - (res \<union> R) \<and> ctl s' = ctl s \<and> aiq_known s'"
proof -
  obtain u s1 where d: "run_state down s = (u, s1)" by (metis surj_pair)
  then have "run_state rest s1 = (r, s')" using assms(4) by simp
  with stage.down_frees [OF assms(1,3) d] assms(2) [of s1 r s'] show ?thesis by auto
qed

abbreviation record_res :: "resource set" where "record_res \<equiv> {ViChn VENC_CHN_H264, VencChn VENC_CHN_H264}"
abbreviation stream_res :: "resource set" where
  "stream_res \<equiv> {ViChn VI_PHY_CHN_SELF, VencChn VENC_CHN_MJPEG, Binding stream_src}"
abbreviation motion_res :: "resource set" where
  "motion_res \<equiv> {ViChn VI_PHY_CHN_BYPATH, ViChn VI_PHY_CHN_BYPATH_SAMPLING, Ivs IVS_CHN_ID, Binding motion_src}"

lemma fail_vi_run:
  "aiq_known s \<Longrightarrow> run_state (fail_vi e) s = (r, s') \<Longrightarrow> held s' = held s - ({Dev} \<union> {Sys}) \<and> ctl s' = ctl s \<and> aiq_known s'"
  unfolding fail_vi_def by (rule then_fails [OF device_stage.stage_axioms fail_sys_run])

lemma fail_aiq_run:
  "aiq_known s \<Longrightarrow> run_state (fail_aiq e) s = (r, s') \<Longrightarrow>
   held s' = held s - ({Aiq} \<union> ({Dev} \<union> {Sys})) \<and> ctl s' = ctl s \<and> aiq_known s'"
  unfolding fail_aiq_def by (rule then_fails [OF aiq_stage.stage_axioms fail_vi_run])

lemma fail_pipe0_run:
  "aiq_known s \<Longrightarrow> run_state (fail_pipe0 e) s = (r, s') \<Longrightarrow>
   held s' = held s - (record_res \<union> ({Aiq} \<union> ({Dev} \<union> {Sys}))) \<and> ctl s' = ctl s \<and> aiq_known s'"
  unfolding fail_pipe0_def by (rule then_fails [OF record_stage.stage_axioms fail_aiq_run])

lemma fail_pipe1_run:
  "aiq_known s \<Longrightarrow> run_state (fail_pipe1 e) s = (r, s') \<Longrightarrow>
   held s' = held s - (stream_res \<union> (record_res \<union> ({Aiq} \<union> ({Dev} \<union> {Sys})))) \<and> ctl s' = ctl s \<and> aiq_known s'"
  unfolding fail_pipe1_def by (rule then_fails [OF stream_stage.stage_axioms fail_pipe0_run])

text \<open>The states between the stages, whatever their results.\<close>

lemma media_stages:
  assumes "run_state (hw_do e SysInit) media_static = (r0, s0)" and "run_state (vi_dev_init e) s0 = (r1, s1)"
    and "run_state (aiq_init e) s1 = (r2, s2)" and "run_state (record_pipeline_init e cfg) s2 = (r3, s3)"
    and "run_state (stream_pipeline_init e cfg) s3 = (r4, s4)" and "run_state (motion_pipeline_init e cfg) s4 = (r5, s5)"
  shows "list_all (\<lambda>s. media_ok s \<and> aiq_known s \<and> ctl s = ctl media_static) [s0, s1, s2, s3, s4, s5]"
proof -
  have h0: "held s0 \<subseteq> {Sys}" "ctl s0 = ctl media_static" "aiq_known s0"
    using assms(1) media_static_ok(1,3)
    by (auto simp: hw_simps held_step_def ctl_def media_ok_def aiq_known_def split: if_splits)
  have m0: "media_ok s0"
    using stage_ok [OF media_static_ok(1), of s0 "{Sys}"] h0 by (auto simp: pipe_res_def)
  note U1 = vi_dev_up [OF h0(3) assms(2)]
  have "held s1 \<inter> {Aiq} = {}" using U1 h0(1) by auto
  note U2 = aiq_up [OF U1 [THEN conjunct2, THEN conjunct2] this assms(3)]
  note U3 = record_up [OF U2 [THEN conjunct2, THEN conjunct2] assms(4)]
  note U4 = stream_up [OF U3 [THEN conjunct2, THEN conjunct2] assms(5)]
  note U5 = motion_up [OF U4 [THEN conjunct2, THEN conjunct2] assms(6)]
  note m1 = stage_ok(1) [OF m0 U1 stages_in_pipe(1)]
  note m2 = stage_ok(1) [OF m1 U2 stages_in_pipe(2)]
  note m3 = stage_ok(1) [OF m2 U3 stages_in_pipe(3)]
  note m4 = stage_ok(1) [OF m3 U4 stages_in_pipe(4)]
  note m5 = stage_ok(1) [OF m4 U5 stages_in_pipe(5)]
  show ?thesis using h0 m0 U1 U2 U3 U4 U5 m1 m2 m3 m4 m5 by simp
qed

text \<open>\<open>media_init\<close> fails in a stage and leaves the control state alone, or goes on to start the threads.\<close>

lemma media_init_cases:
  assumes "run_state (media_init e cfg) media_static = (r, s)"
  shows "r = -1 \<and> ctl s = ctl media_static \<or>
    (\<exists>s5. run_state (media_start e cfg) s5 = (r, s) \<and> media_ok s5 \<and> ctl s5 = ctl media_static)"
proof -
  obtain r0 s0 where 0: "run_state (hw_do e SysInit) media_static = (r0, s0)" by (metis surj_pair)
  obtain r1 s1 where 1: "run_state (vi_dev_init e) s0 = (r1, s1)" by (metis surj_pair)
  obtain r2 s2 where 2: "run_state (aiq_init e) s1 = (r2, s2)" by (metis surj_pair)
  obtain r3 s3 where 3: "run_state (record_pipeline_init e cfg) s2 = (r3, s3)" by (metis surj_pair)
  obtain r4 s4 where 4: "run_state (stream_pipeline_init e cfg) s3 = (r4, s4)" by (metis surj_pair)
  obtain r5 s5 where 5: "run_state (motion_pipeline_init e cfg) s4 = (r5, s5)" by (metis surj_pair)
  have c: "ctl s0 = ctl media_static" "ctl s1 = ctl media_static" "ctl s2 = ctl media_static"
    "ctl s3 = ctl media_static" "ctl s4 = ctl media_static" "ctl s5 = ctl media_static" "media_ok s5"
    and a: "aiq_known s1" "aiq_known s2" "aiq_known s3" "aiq_known s4" "aiq_known s5"
    using media_stages [OF 0 1 2 3 4 5] by simp_all
  consider "r = -1" "s = s0" | "run_state (fail_sys e) s1 = (r, s)" | "run_state (fail_vi e) s2 = (r, s)"
    | "run_state (fail_aiq e) s3 = (r, s)" | "run_state (fail_pipe0 e) s4 = (r, s)"
    | "run_state (fail_pipe1 e) s5 = (r, s)" | "run_state (media_start e cfg) s5 = (r, s)"
    using assms 0 1 2 3 4 5 by (auto simp: media_init_def split: if_splits)
  then show ?thesis
  proof cases
    case 1 then show ?thesis using c by simp
  next
    case 2 then show ?thesis using fail_sys_run [OF a(1)] fail_sys_rc c by metis
  next
    case 3 then show ?thesis using fail_vi_run [OF a(2)] fail_vi_rc c by metis
  next
    case 4 then show ?thesis using fail_aiq_run [OF a(3)] fail_aiq_rc c by metis
  next
    case 5 then show ?thesis using fail_pipe0_run [OF a(4)] fail_pipe0_rc c by metis
  next
    case 6 then show ?thesis using fail_pipe1_run [OF a(5)] fail_pipe1_rc c by metis
  next
    case 7 then show ?thesis using c by blast
  qed
qed

lemma media_init_ok:
  assumes "run_state (media_init e cfg) media_static = (0, s)"
  shows "media_ok s \<and> s_producers_run s"
proof -
  obtain s5 where "run_state (media_start e cfg) s5 = (0, s)" "media_ok s5" "ctl s5 = ctl media_static"
    using media_init_cases [OF assms] by auto
  then show ?thesis using media_start_ok [of e cfg s5 s] ctl_eq(3) [of s5 media_static] media_static_ok(2) by simp
qed

lemma join_thread_ok:
  assumes "run_state (join_thread e t) s = (u, s')" and "media_ok s"
  shows "media_ok s' \<and> \<not> is_started t s' \<and> (\<forall>t'. is_started t' s' \<longrightarrow> is_started t' s) \<and>
    s_producers_run s' = s_producers_run s \<and> s_osd_inited s' = s_osd_inited s \<and> md_web s' = md_web s"
proof (cases "is_started t s")
  case False
  then show ?thesis using assms by (simp add: join_thread_def)
next
  case True
  have s': "s' = thread_started t False (s\<lparr>md_log := md_log s @ [(PthreadJoin t, hw_ret e (length (md_log s)))]\<rparr>)"
    using assms(1) True by (simp add: join_thread_def hw_simps)
  have "held s' = held s - {Thread t}" by (simp add: s' hw_simps held_step_def)
  moreover have "media_res s - {Thread t} \<subseteq> media_res s'" by (auto simp: media_res_def s')
  ultimately have "held s' \<subseteq> media_res s'" using assms(2) by (auto simp: media_ok_def)
  moreover have "aiq_known s'" using assms(2) by (simp add: media_ok_def aiq_known_def s' hw_simps held_step_def)
  ultimately show ?thesis by (simp add: media_ok_def s')
qed

lemma media_stop_ok:
  assumes "run_state (media_stop e) s = (u, s')" and "media_ok s" and "s_producers_run s"
  shows "media_ok s' \<and> (\<forall>t. \<not> is_started t s') \<and> \<not> s_producers_run s' \<and> s_osd_inited s' = s_osd_inited s \<and>
    s_web_sock (md_web s') < 0 \<and> s_web_srv_fd (md_web s') < 0"
proof -
  let ?s0 = "s\<lparr>s_producers_run := False\<rparr>"
  obtain v0 s0 where 0: "run_state (hw_all e [VencStopRecvFrame VENC_CHN_H264, VencStopRecvFrame VENC_CHN_MJPEG]) ?s0
      = (v0, s0)" by (metis surj_pair)
  obtain v1 s1 where 1: "run_state (join_thread e ThrOsd) s0 = (v1, s1)" by (metis surj_pair)
  obtain v2 s2 where 2: "run_state (join_thread e ThrH264) s1 = (v2, s2)" by (metis surj_pair)
  obtain v3 s3 where 3: "run_state (join_thread e ThrMjpeg) s2 = (v3, s3)" by (metis surj_pair)
  obtain v4 s4 where 4: "run_state (join_thread e ThrIvs) s3 = (v4, s4)" by (metis surj_pair)
  have w: "run_state (web_do web_sock_stop) s4 = (u, s')"
    using assms(1,3) 0 1 2 3 4 by (simp add: media_stop_def run_hw_set del: hw_all.simps)
  have h: "held s0 = held s" "aiq_known s0 = aiq_known s" "media_res s0 = media_res s" "s_osd_inited s0 = s_osd_inited s"
      "\<not> s_producers_run s0"
    using 0 by (auto simp: hw_simps held_def held_step_def aiq_known_def intro!: media_res_cong)
  have "media_ok s0" using h assms(2) by (simp add: media_ok_def)
  note J1 = join_thread_ok [OF 1 this]
  note J2 = join_thread_ok [OF 2 J1 [THEN conjunct1]]
  note J3 = join_thread_ok [OF 3 J2 [THEN conjunct1]]
  note J4 = join_thread_ok [OF 4 J3 [THEN conjunct1]]
  note W = web_do_run [OF w]
  have none: "\<not> is_started t s4" for t using J1 J2 J3 J4 by (cases t) blast+
  have "media_res s' = media_res s4" by (rule media_res_cong) (use W in blast)+
  then have "media_ok s'" using W J4 by (simp add: media_ok_def aiq_known_def)
  moreover have "s_web_sock (md_web s') < 0 \<and> s_web_srv_fd (md_web s') < 0"
    using W by (auto simp: web_sock_stop_def Let_def)
  ultimately show ?thesis using none W J1 J2 J3 J4 h by simp
qed

lemma media_deinit_ok:
  assumes "run_state (media_deinit e) s = (u, s')" and "media_ok s" and "\<forall>t. \<not> is_started t s" and "\<not> s_producers_run s"
  shows "held s' \<subseteq> (if s_osd_inited s then {} else {Font}) \<and> md_web s' = md_web s"
proof -
  obtain v0 s0 where 0: "run_state (if s_osd_inited s then do { osd_deinit e; hw_set (\<lambda>s. s\<lparr>s_osd_inited := False\<rparr>) }
      else State_Monad.return ()) s = (v0, s0)" by (metis surj_pair)
  obtain v1 s1 where 1: "run_state (motion_pipeline_deinit e) s0 = (v1, s1)" by (metis surj_pair)
  obtain v2 s2 where 2: "run_state (stream_pipeline_deinit e) s1 = (v2, s2)" by (metis surj_pair)
  obtain v3 s3 where 3: "run_state (record_pipeline_deinit e) s2 = (v3, s3)" by (metis surj_pair)
  obtain v4 s4 where 4: "run_state (aiq_stop e) s3 = (v4, s4)" by (metis surj_pair)
  obtain v5 s5 where 5: "run_state (vi_dev_deinit e) s4 = (v5, s5)" by (metis surj_pair)
  have stop: "run_state (media_stop e) s = ((), s)" using assms(4) by (simp add: media_stop_def)
  have 6: "run_state (hw_all e [SysExit]) s5 = (u, s')"
    using assms(1) stop 0 1 2 3 4 5 by (simp add: media_deinit_def)
  have a0: "aiq_known s0 \<and> held s0 \<subseteq> pipe_res \<union> (if s_osd_inited s then {} else {Font}) \<and> md_web s0 = md_web s"
  proof (cases "s_osd_inited s")
    case False
    then show ?thesis using 0 assms(2,3) by (auto simp: media_ok_def media_res_def)
  next
    case True
    obtain w r where d: "run_state (osd_deinit e) s = (w, r)" by (metis surj_pair)
    have "aiq_known s" using assms(2) by (simp add: media_ok_def)
    note D = osd_stage.down_frees [OF this d]
    have "s0 = r\<lparr>s_osd_inited := False\<rparr>" using 0 d True by (simp add: run_hw_set)
    moreover have "held s \<subseteq> pipe_res \<union> osd_res" using assms(2,3) True by (auto simp: media_ok_def media_res_def)
    ultimately show ?thesis using D True ctl_eq(4) [of r s] by (auto simp: aiq_known_def)
  qed
  note D1 = motion_stage.down_frees [OF a0 [THEN conjunct1] 1]
  note D2 = stream_stage.down_frees [OF D1 [THEN conjunct2, THEN conjunct2] 2]
  note D3 = record_stage.down_frees [OF D2 [THEN conjunct2, THEN conjunct2] 3]
  note D4 = aiq_stage.down_frees [OF D3 [THEN conjunct2, THEN conjunct2] 4]
  note D5 = device_stage.down_frees [OF D4 [THEN conjunct2, THEN conjunct2] 5]
  have "held s5 \<subseteq> (held s0 - pipe_res) \<union> {Sys}" using D1 D2 D3 D4 D5 by (auto simp: pipe_res_def)
  then have "held s5 \<subseteq> insert Sys (if s_osd_inited s then {} else {Font})" using a0 by auto
  moreover have "held s' = held s5 - {Sys}" "md_web s' = md_web s5"
    using 6 by (auto simp: hw_simps held_def held_step_def)
  moreover have "md_web s5 = md_web s"
    using a0 D1 D2 D3 D4 D5 ctl_eq(4) [of s1 s0] ctl_eq(4) [of s2 s1] ctl_eq(4) [of s3 s2] ctl_eq(4) [of s4 s3]
      ctl_eq(4) [of s5 s4] by simp
  ultimately show ?thesis by auto
qed

lemma osd_thread_run:
  assumes "run_state (osd_thread e b secs) s = (u, s')"
  shows "held s' = held s \<and> ctl s' = ctl s \<and> s_aiq_ctx s' = s_aiq_ctx s"
proof -
  have "held s' = held s \<and> ctl s' = ctl s \<and> s_aiq_ctx s' = s_aiq_ctx s" if "run_state (osd_loop e k secs) s = (u, s')" for k s u s'
    using that
  proof (induction secs arbitrary: k s)
    case (Cons sec secs)
    show ?case
    proof (cases "sec = k")
      case False
      obtain v1 s1 where 1: "run_state (osd_upload e OSD_RGN_H264) s = (v1, s1)" by (metis surj_pair)
      obtain v2 s2 where 2: "run_state (osd_upload e OSD_RGN_MJPEG) s1 = (v2, s2)" by (metis surj_pair)
      have "run_state (osd_loop e sec secs) s2 = (u, s')" using Cons.prems False 1 2 by simp
      from Cons.IH [OF this] osd_upload_run [OF 1] osd_upload_run [OF 2] show ?thesis by simp
    qed (use Cons in simp)
  qed simp
  with assms show ?thesis by (simp add: osd_thread_def split: if_splits)
qed

lemma media_releases_all:
  assumes "run_state (media_init e cfg) media_static = (0, s1)"
    and "run_state (osd_thread e b secs) s1 = (u, s2)"
    and "run_state (media_stop e) (s2\<lparr>md_web := ws\<rparr>) = (u', s3)" and "run_state (media_deinit e) s3 = (u'', s4)"
  shows "(\<forall>t. Thread t \<notin> held s3) \<and> held s4 \<subseteq> (if s_osd_inited s1 then {} else {Font}) \<and>
    s_web_sock (md_web s4) < 0 \<and> s_web_srv_fd (md_web s4) < 0"
proof -
  note I = media_init_ok [OF assms(1)]
  note T = osd_thread_run [OF assms(2)]
  let ?s2 = "s2\<lparr>md_web := ws\<rparr>"
  have "media_res ?s2 = media_res s1" by (rule media_res_cong) (use T ctl_eq(1,3) [of s2 s1] in simp_all)
  then have ok: "media_ok ?s2" "s_producers_run ?s2" "s_osd_inited ?s2 = s_osd_inited s1"
    using I T ctl_eq(2,3) [of s2 s1] by (simp_all add: media_ok_def aiq_known_def)
  note S = media_stop_ok [OF assms(3) ok(1,2)]
  have "Thread t \<notin> held s3" for t
    using S by (auto simp: media_ok_def media_res_def pipe_res_def split: if_splits)
  moreover have "held s4 \<subseteq> (if s_osd_inited s3 then {} else {Font}) \<and> md_web s4 = md_web s3"
    using media_deinit_ok [OF assms(4)] S by blast
  ultimately show ?thesis using S ok(3) by simp
qed

end
