(* ===== verification/DaemonRuns.thy ===== *)
theory DaemonRuns
  imports DaemonProps OsdProps
begin

text \<open>
  Whole runs of the daemon: a start-up that fails after the overlay came up, a start-up in which every
  call succeeds, and the run of \<open>main\<close> from start to exit.
\<close>

section \<open>A start-up that fails\<close>

text \<open>What the overlay's thread and regions look like to the teardown.\<close>

definition osd_runs :: "media \<Rightarrow> bool" where
  "osd_runs s \<longleftrightarrow> aiq_known s \<and> insert (Thread ThrOsd) osd_res \<subseteq> held s \<and> is_started ThrOsd s \<and> s_osd_inited s"

lemma osd_runs_keep:
  assumes "osd_runs s" and "held s' = held s - R \<and> ctl s' = ctl s \<and> aiq_known s'"
    and "R \<inter> insert (Thread ThrOsd) osd_res = {}"
  shows "osd_runs s'"
  using assms(1,2) assms(3) ctl_eq(1,3) [of s' s] unfolding osd_runs_def by blast

lemma start_thread_keeps_osd:
  assumes "run_state (start_thread e t) s = (r, s')" and "t \<noteq> ThrOsd"
  shows "(is_started ThrOsd s' = is_started ThrOsd s) \<and> (aiq_known s \<longrightarrow> aiq_known s') \<and> (osd_runs s \<longrightarrow> osd_runs s') \<and> md_web s' = md_web s"
  using assms
  by (auto simp: start_thread_def hw_simps osd_runs_def aiq_known_def held_step_def split: if_splits)

lemma join_thread_keeps_osd:
  assumes "run_state (join_thread e t) s = (u, s')" and "t \<noteq> ThrOsd"
  shows "(is_started ThrOsd s' = is_started ThrOsd s) \<and> (aiq_known s \<longrightarrow> aiq_known s') \<and> (osd_runs s \<longrightarrow> osd_runs s') \<and>
    s_producers_run s' = s_producers_run s \<and> md_web s' = md_web s"
  using assms
  by (auto simp: join_thread_def hw_simps osd_runs_def aiq_known_def held_step_def split: if_splits)

lemma fail_threads_keeps_osd:
  assumes "run_state (fail_threads e) s = (r, s')" and "osd_runs s"
  shows "osd_runs s' \<and> \<not> s_producers_run s' \<and> md_web s' = md_web s"
proof -
  let ?s0 = "s\<lparr>s_producers_run := False\<rparr>"
  obtain v1 s1 where 1: "run_state (join_thread e ThrH264) ?s0 = (v1, s1)" by (metis surj_pair)
  obtain v2 s2 where 2: "run_state (join_thread e ThrMjpeg) s1 = (v2, s2)" by (metis surj_pair)
  obtain v3 s3 where 3: "run_state (join_thread e ThrIvs) s2 = (v3, s3)" by (metis surj_pair)
  obtain v4 s4 where 4: "run_state (motion_pipeline_deinit e) s3 = (v4, s4)" by (metis surj_pair)
  have 5: "run_state (fail_pipe1 e) s4 = (r, s')"
    using assms(1) 1 2 3 4 by (simp add: fail_threads_def hw_simps)
  have "osd_runs ?s0" using assms(2) by (simp add: osd_runs_def aiq_known_def)
  then have o3: "osd_runs s3" "\<not> s_producers_run s3" "md_web s3 = md_web s"
    using join_thread_keeps_osd [OF 1] join_thread_keeps_osd [OF 2] join_thread_keeps_osd [OF 3] by auto
  have a3: "aiq_known s3" using o3 by (simp add: osd_runs_def)
  note D = motion_stage.down_frees [OF a3 4]
  have o4: "osd_runs s4" by (rule osd_runs_keep [OF o3(1) D]) auto
  note F = fail_pipe1_run [OF D [THEN conjunct2, THEN conjunct2] 5]
  have "osd_runs s'" by (rule osd_runs_keep [OF o4 F]) auto
  then show ?thesis using o3 D F ctl_eq(2,4) [of s' s4] ctl_eq(2,4) [of s4 s3] by simp
qed

lemma start_producers_keeps_osd:
  assumes "run_state (start_producers e) s = (r, s')" and "r \<noteq> 0" and "osd_runs s"
  shows "osd_runs s' \<and> \<not> s_producers_run s' \<and> md_web s' = md_web s"
proof -
  obtain r1 s1 where 1: "run_state (start_thread e ThrH264) s = (r1, s1)" by (metis surj_pair)
  obtain r2 s2 where 2: "run_state (start_thread e ThrMjpeg) s1 = (r2, s2)" by (metis surj_pair)
  obtain r3 s3 where 3: "run_state (start_thread e ThrIvs) s2 = (r3, s3)" by (metis surj_pair)
  have o: "osd_runs s1" "osd_runs s2" "osd_runs s3" "md_web s1 = md_web s" "md_web s2 = md_web s" "md_web s3 = md_web s"
    using start_thread_keeps_osd [OF 1] start_thread_keeps_osd [OF 2] start_thread_keeps_osd [OF 3] assms(3) by auto
  show ?thesis
    using assms(1,2) 1 2 3 o fail_threads_keeps_osd by (fastforce simp: start_producers_def split: if_splits)
qed

text \<open>Nothing but \<open>start_osd\<close> makes the overlay's thread.\<close>

lemma fail_threads_osd_flag:
  assumes "run_state (fail_threads e) s = (r, s')" and "aiq_known s"
  shows "is_started ThrOsd s' = is_started ThrOsd s"
proof -
  let ?s0 = "s\<lparr>s_producers_run := False\<rparr>"
  obtain v1 s1 where 1: "run_state (join_thread e ThrH264) ?s0 = (v1, s1)" by (metis surj_pair)
  obtain v2 s2 where 2: "run_state (join_thread e ThrMjpeg) s1 = (v2, s2)" by (metis surj_pair)
  obtain v3 s3 where 3: "run_state (join_thread e ThrIvs) s2 = (v3, s3)" by (metis surj_pair)
  obtain v4 s4 where 4: "run_state (motion_pipeline_deinit e) s3 = (v4, s4)" by (metis surj_pair)
  have 5: "run_state (fail_pipe1 e) s4 = (r, s')"
    using assms(1) 1 2 3 4 by (simp add: fail_threads_def hw_simps)
  have "aiq_known ?s0" using assms(2) by (simp add: aiq_known_def)
  then have a3: "aiq_known s3" "is_started ThrOsd s3 = is_started ThrOsd s"
    using join_thread_keeps_osd [OF 1] join_thread_keeps_osd [OF 2] join_thread_keeps_osd [OF 3] by auto
  note D = motion_stage.down_frees [OF a3(1) 4]
  note F = fail_pipe1_run [OF D [THEN conjunct2, THEN conjunct2] 5]
  show ?thesis using a3 D F ctl_eq(1) [of s' s4] ctl_eq(1) [of s4 s3] by simp
qed

lemma start_producers_osd_flag:
  assumes "run_state (start_producers e) s = (r, s')" and "aiq_known s"
  shows "is_started ThrOsd s' = is_started ThrOsd s"
proof -
  obtain r1 s1 where 1: "run_state (start_thread e ThrH264) s = (r1, s1)" by (metis surj_pair)
  obtain r2 s2 where 2: "run_state (start_thread e ThrMjpeg) s1 = (r2, s2)" by (metis surj_pair)
  obtain r3 s3 where 3: "run_state (start_thread e ThrIvs) s2 = (r3, s3)" by (metis surj_pair)
  have o: "aiq_known s1" "aiq_known s2" "aiq_known s3" "is_started ThrOsd s1 = is_started ThrOsd s"
    "is_started ThrOsd s2 = is_started ThrOsd s" "is_started ThrOsd s3 = is_started ThrOsd s"
    using start_thread_keeps_osd [OF 1] start_thread_keeps_osd [OF 2] start_thread_keeps_osd [OF 3] assms(2) by auto
  consider "run_state (fail_threads e) s1 = (r, s')" | "run_state (fail_threads e) s2 = (r, s')"
    | "run_state (fail_threads e) s3 = (r, s')" | "s' = s3"
    using assms(1) 1 2 3 by (auto simp: start_producers_def split: if_splits)
  then show ?thesis
    by cases (use o fail_threads_osd_flag in \<open>simp_all add: fail_threads_osd_flag\<close>)
qed

lemma start_osd_runs:
  assumes "run_state (start_osd e cfg) s = (u, s')" and "aiq_known s" and "\<not> is_started ThrOsd s"
  shows "(is_started ThrOsd s' \<longrightarrow> osd_runs s') \<and> aiq_known s' \<and> md_web s' = md_web s"
proof -
  obtain r s1 where o: "run_state (osd_init e cfg) s = (r, s1)" by (metis surj_pair)
  note I = osd_init_run [OF assms(2) o]
  show ?thesis
  proof (cases "r = 0")
    case False
    then have "s' = s1" using assms(1) o by (simp add: start_osd_def)
    then show ?thesis using I assms(3) ctl_eq(1,4) [of s1 s] by simp
  next
    case True
    define s2 where "s2 = s1\<lparr>s_osd_inited := True\<rparr>"
    obtain r' where 2: "run_state (start_thread e ThrOsd) s2 = (r', s')"
      using assms(1) o True by (auto simp: start_osd_def hw_simps s2_def split: prod.splits)
    have "aiq_known s2" "osd_res \<subseteq> held s2" "\<not> is_started ThrOsd s2" "md_web s2 = md_web s" "s_osd_inited s2"
      using I True assms(3) ctl_eq(1,4) [of s1 s] by (auto simp: aiq_known_def s2_def)
    then show ?thesis
      using 2 by (auto simp: start_thread_def hw_simps osd_runs_def aiq_known_def held_step_def split: if_splits)
  qed
qed

lemma media_start_leaks:
  assumes "run_state (media_start e cfg) s = (r, s')" and "r \<noteq> 0" and "aiq_known s" and "\<not> is_started ThrOsd s"
    and "is_started ThrOsd s'"
  shows "osd_runs s' \<and> \<not> s_producers_run s' \<and>
    md_web s' = fst (web_sock_srv_init (hw_socket e) (hw_bind e) (hw_listen e) (md_web s))"
proof -
  let ?fps = "if ivs_fps_high (c_ivs cfg) < 1 then 1 else ivs_fps_high (c_ivs cfg)"
  obtain r1 s1 where v: "run_state (venc_set_framerate e cfg VENC_CHN_H264 ?fps) s = (r1, s1)" by fastforce
  let ?s1 = "s1\<lparr>s_producers_run := True\<rparr>"
  obtain u s2 where w: "run_state (web_do (web_sock_srv_init (hw_socket e) (hw_bind e) (hw_listen e))) ?s1 = (u, s2)"
    by (metis surj_pair)
  obtain u' s3 where o: "run_state (start_osd e cfg) s2 = (u', s3)" by (metis surj_pair)
  have p: "run_state (start_producers e) s3 = (r, s')"
    using assms(1) v w o by (simp add: media_start_def hw_simps)
  note V = venc_set_framerate_run [OF v]
  note W = web_do_run [OF w]
  have 2: "aiq_known s2" "\<not> is_started ThrOsd s2"
    using V W assms(3,4) ctl_eq(1) [of s1 s] by (simp_all add: aiq_known_def)
  note O = start_osd_runs [OF o 2]
  have "is_started ThrOsd s3" using start_producers_osd_flag [OF p] O assms(5) by simp
  then show ?thesis using start_producers_keeps_osd [OF p assms(2)] O W V ctl_eq(4) [of s1 s] by simp
qed

text \<open>
C31: When the overlay's thread was started and a later producer thread cannot be, \<open>media_init\<close> fails,
takes the pipelines down and returns with the overlay still up: its thread is not joined, its regions,
their attachments and the font are still held, and so is whatever socket \<open>web_sock_srv_init\<close> opened.
\<open>media_stop\<close> would not clean up either, because it returns at once.
\<close>

theorem failed_start_leaks_osd:
  assumes "run_state (media_init e cfg) media_static = (r, s)" and "r \<noteq> 0" and "s_osd_started s"
  shows "insert (Thread ThrOsd) osd_res \<subseteq> held s \<and> run_state (media_stop e) s = ((), s) \<and>
    md_web s = fst (web_sock_srv_init (hw_socket e) (hw_bind e) (hw_listen e) web_sock_static)"
proof -
  have st: "is_started ThrOsd s" "\<not> is_started ThrOsd media_static" "md_web media_static = web_sock_static"
    using assms(3) by (simp_all add: is_started_def media_static_def)
  obtain s5 where s5: "run_state (media_start e cfg) s5 = (r, s)" "media_ok s5" "ctl s5 = ctl media_static"
    using media_init_cases [OF assms(1)] st(1,2) ctl_eq(1) [of s media_static ThrOsd] by blast
  have "aiq_known s5" "\<not> is_started ThrOsd s5" "md_web s5 = web_sock_static"
    using s5(2,3) st(2,3) ctl_eq(1,4) [of s5 media_static] by (simp_all add: media_ok_def)
  from media_start_leaks [OF s5(1) assms(2) this(1,2) st(1)] this(3) show ?thesis
    by (simp add: osd_runs_def media_stop_def)
qed

section \<open>A start-up that succeeds\<close>

text \<open>A run in which every call before the \<open>k\<close>-th succeeds and finds the device enabled.\<close>

definition good_until :: "hw_env \<Rightarrow> nat \<Rightarrow> bool" where
  "good_until e k \<longleftrightarrow> (\<forall>n<k. hw_ret e n = 0) \<and> hw_not_config e \<noteq> 0"

definition logged :: "media \<Rightarrow> nat" where
  "logged s = length (md_log s)"

lemma good_stages:
  assumes "good_until e k"
  shows "logged s + 1 \<le> k \<Longrightarrow> \<exists>s'. run_state (hw_do e c) s = (0, s') \<and> logged s' = logged s + 1"
    and "logged s + 2 \<le> k \<Longrightarrow> \<exists>s'. run_state (vi_dev_init e) s = (0, s') \<and> logged s' = logged s + 2"
    and "logged s + 5 \<le> k \<Longrightarrow> \<exists>s'. run_state (aiq_init e) s = (0, s') \<and> logged s' = logged s + 5"
    and "logged s + 17 \<le> k \<Longrightarrow> \<exists>s'. run_state (record_pipeline_init e cfg) s = (0, s') \<and> logged s' = logged s + 17"
    and "logged s + 8 \<le> k \<Longrightarrow> \<exists>s'. run_state (stream_pipeline_init e cfg) s = (0, s') \<and> logged s' = logged s + 8"
    and "logged s + 8 \<le> k \<Longrightarrow> \<exists>s'. run_state (motion_pipeline_init e cfg) s = (0, s') \<and> logged s' = logged s + 8"
    and "logged s + 2 \<le> k \<Longrightarrow> \<exists>r s'. run_state (venc_set_framerate e cfg chn fps) s = (r, s') \<and> logged s' = logged s + 2"
    and "logged s + 8 \<le> k \<Longrightarrow> hw_calloc e \<Longrightarrow> \<exists>s'. run_state (osd_init e cfg) s = (0, s') \<and> logged s' = logged s + 8"
    and "logged s + 1 \<le> k \<Longrightarrow> \<exists>s'. run_state (start_thread e t) s = (0, s') \<and> logged s' = logged s + 1 \<and> is_started t s'"
proof -
  note Z = assms [unfolded good_until_def]
  note D = hw_simps logged_def
  show "logged s + 1 \<le> k \<Longrightarrow> \<exists>s'. run_state (hw_do e c) s = (0, s') \<and> logged s' = logged s + 1"
    using Z by (simp add: D)
  show "logged s + 2 \<le> k \<Longrightarrow> \<exists>s'. run_state (vi_dev_init e) s = (0, s') \<and> logged s' = logged s + 2"
    using Z by (simp add: vi_dev_init_def D)
  show "logged s + 5 \<le> k \<Longrightarrow> \<exists>s'. run_state (aiq_init e) s = (0, s') \<and> logged s' = logged s + 5"
    using Z by (simp add: aiq_init_def D)
  show "logged s + 17 \<le> k \<Longrightarrow> \<exists>s'. run_state (record_pipeline_init e cfg) s = (0, s') \<and> logged s' = logged s + 17"
    using Z by (simp add: record_pipeline_init_def record_tuning_def D)
  show "logged s + 8 \<le> k \<Longrightarrow> \<exists>s'. run_state (stream_pipeline_init e cfg) s = (0, s') \<and> logged s' = logged s + 8"
    using Z by (simp add: stream_pipeline_init_def stream_tuning_def D)
  show "logged s + 8 \<le> k \<Longrightarrow> \<exists>s'. run_state (motion_pipeline_init e cfg) s = (0, s') \<and> logged s' = logged s + 8"
    using Z by (simp add: motion_pipeline_init_def D)
  show "logged s + 2 \<le> k \<Longrightarrow> \<exists>r s'. run_state (venc_set_framerate e cfg chn fps) s = (r, s') \<and> logged s' = logged s + 2"
    using Z by (simp add: venc_set_framerate_def D)
  show "logged s + 8 \<le> k \<Longrightarrow> hw_calloc e \<Longrightarrow> \<exists>s'. run_state (osd_init e cfg) s = (0, s') \<and> logged s' = logged s + 8"
    using Z by (simp add: osd_init_def osd_rgn_create_def osd_upload_def D)
  show "logged s + 1 \<le> k \<Longrightarrow> \<exists>s'. run_state (start_thread e t) s = (0, s') \<and> logged s' = logged s + 1 \<and> is_started t s'"
    using Z by (simp add: start_thread_def D)
qed

lemma media_init_good:
  assumes "good_until e k" and "41 \<le> k"
  shows "\<exists>s5. run_state (media_init e cfg) media_static = run_state (media_start e cfg) s5 \<and> logged s5 = 41 \<and>
    media_ok s5 \<and> ctl s5 = ctl media_static"
proof -
  note g = good_stages [OF assms(1)]
  have "logged media_static = 0" by (simp add: logged_def media_static_def)
  then obtain s0 where 0: "run_state (hw_do e SysInit) media_static = (0, s0)" "logged s0 = 1"
    using g(1) [of media_static SysInit] assms(2) by auto
  obtain s1 where 1: "run_state (vi_dev_init e) s0 = (0, s1)" "logged s1 = 3" using g(2) [of s0] 0 assms(2) by auto
  obtain s2 where 2: "run_state (aiq_init e) s1 = (0, s2)" "logged s2 = 8" using g(3) [of s1] 1 assms(2) by auto
  obtain s3 where 3: "run_state (record_pipeline_init e cfg) s2 = (0, s3)" "logged s3 = 25"
    using g(4) [of s2 cfg] 2 assms(2) by auto
  obtain s4 where 4: "run_state (stream_pipeline_init e cfg) s3 = (0, s4)" "logged s4 = 33"
    using g(5) [of s3 cfg] 3 assms(2) by auto
  obtain s5 where 5: "run_state (motion_pipeline_init e cfg) s4 = (0, s5)" "logged s5 = 41"
    using g(6) [of s4 cfg] 4 assms(2) by auto
  have "run_state (media_init e cfg) media_static = run_state (media_start e cfg) s5"
    using 0 1 2 3 4 5 by (simp add: media_init_def)
  then show ?thesis using media_stages [OF 0(1) 1(1) 2(1) 3(1) 4(1) 5(1)] 5(2) by auto
qed

lemma static_flags: "\<not> is_started t media_static" "md_web media_static = web_sock_static"
  by (cases t) (simp_all add: is_started_def media_static_def)

lemma media_start_good:
  assumes "good_until e k" and "53 \<le> k" and "hw_calloc e" "0 \<le> hw_socket e" "hw_bind e" "hw_listen e"
    and "logged s = 41" and "media_ok s" and "ctl s = ctl media_static"
  shows "\<exists>s3. run_state (media_start e cfg) s = run_state (start_producers e) s3 \<and> logged s3 = 53 \<and>
    is_started ThrOsd s3 \<and> aiq_known s3"
proof -
  note g = good_stages [OF assms(1)]
  let ?fps = "if ivs_fps_high (c_ivs cfg) < 1 then 1 else ivs_fps_high (c_ivs cfg)"
  obtain r s1 where v: "run_state (venc_set_framerate e cfg VENC_CHN_H264 ?fps) s = (r, s1)" "logged s1 = 43"
    using g(7) [of s cfg VENC_CHN_H264 ?fps] assms(2,7) by auto
  let ?s1 = "s1\<lparr>s_producers_run := True\<rparr>"
  obtain u s2 where w: "run_state (web_do (web_sock_srv_init (hw_socket e) (hw_bind e) (hw_listen e))) ?s1 = (u, s2)"
    by (metis surj_pair)
  note V = venc_set_framerate_run [OF v(1)]
  note W = web_do_run [OF w]
  have l2: "logged s2 = 44"
    using w v(2) assms(4-6) by (auto simp: web_do_def web_sock_srv_init_def logged_def Let_def)
  have k2: "aiq_known s2" "\<not> is_started ThrOsd s2"
    using V W assms(8,9) ctl_eq(1) [of s1 s ThrOsd] ctl_eq(1) [of s media_static ThrOsd] static_flags
    by (simp_all add: media_ok_def aiq_known_def)
  obtain s2' where o: "run_state (osd_init e cfg) s2 = (0, s2')" "logged s2' = 52"
    using g(8) [of s2 cfg] l2 assms(2,3) by auto
  let ?s2' = "s2'\<lparr>s_osd_inited := True\<rparr>"
  obtain s3 where t: "run_state (start_thread e ThrOsd) ?s2' = (0, s3)" "logged s3 = 53" "is_started ThrOsd s3"
    using g(9) [of ?s2' ThrOsd] o(2) assms(2) by (auto simp: logged_def)
  have so: "run_state (start_osd e cfg) s2 = ((), s3)" using o t by (simp add: start_osd_def hw_simps)
  have "run_state (media_start e cfg) s = run_state (start_producers e) s3"
    using v w so by (simp add: media_start_def hw_simps)
  then show ?thesis using t start_osd_runs [OF so k2] by blast
qed

definition demo_fail :: hw_env where
  "demo_fail = \<lparr>hw_ret = \<lambda>n. if n = 53 then 1 else 0, hw_not_config = 7,
     hw_text_advance = 380, hw_calloc = True, hw_socket = 3, hw_bind = True, hw_listen = True\<rparr>"

lemma failed_start_leaks_osd_witness:
  "\<exists>r s. run_state (media_init demo_fail config_defaults) media_static = (r, s) \<and> r \<noteq> 0 \<and>
    Thread ThrOsd \<in> held s \<and> s_web_srv_fd (md_web s) = 3"
proof -
  have g: "good_until demo_fail 53" by (simp add: good_until_def demo_fail_def)
  obtain s5 where s5: "run_state (media_init demo_fail config_defaults) media_static
      = run_state (media_start demo_fail config_defaults) s5" "logged s5 = 41" "media_ok s5" "ctl s5 = ctl media_static"
    using media_init_good [OF g, of config_defaults] by auto
  have h: "hw_calloc demo_fail" "0 \<le> hw_socket demo_fail" "hw_bind demo_fail" "hw_listen demo_fail"
    by (simp_all add: demo_fail_def)
  obtain s3 where s: "run_state (media_init demo_fail config_defaults) media_static = run_state (start_producers demo_fail) s3"
      "logged s3 = 53" "is_started ThrOsd s3" "aiq_known s3"
    using s5(1) media_start_good [OF g order_refl h s5(2-4), of config_defaults] by auto
  obtain s1 where t: "run_state (start_thread demo_fail ThrH264) s3 = (-1, s1)"
    using s(2) by (simp add: start_thread_def hw_simps logged_def demo_fail_def)
  obtain r s' where f: "run_state (fail_threads demo_fail) s1 = (r, s')" by (metis surj_pair)
  have "is_started ThrOsd s1" "aiq_known s1" using start_thread_keeps_osd [OF t] s(3,4) by auto
  then have st: "s_osd_started s'" using fail_threads_osd_flag [OF f] by (simp add: is_started_def)
  have i: "run_state (media_init demo_fail config_defaults) media_static = (r, s')"
    using s(1) t f by (simp add: start_producers_def)
  have r: "r \<noteq> 0" using fail_threads_rc [OF f] by simp
  show ?thesis
    using failed_start_leaks_osd [OF i r st] i r
    by (auto simp: demo_fail_def web_sock_srv_init_def web_sock_static_def Let_def)
qed

section \<open>main\<close>

lemma queue_depth_bound: "fq_depth (t_q (run_fq CFG_FQ_CAPACITY evs)) \<le> 64"
proof -
  have "0 < CFG_FQ_CAPACITY" by (simp add: CFG_FQ_CAPACITY_def)
  from run_fq_inv [OF this, of evs] run_fq_capacity [OF this, of evs] show ?thesis
    by (simp add: fq_inv_def fq_depth_def CFG_FQ_CAPACITY_def)
qed

text \<open>What \<open>storage_stop\<close> and then \<open>storage_deinit\<close> leave of the writer and of the queue.\<close>

lemma storage_stop_run:
  assumes "sm_started m" and "fq_inv q" and "fq_depth q < fuel"
  shows "\<exists>q'. storage_stop mts ops avtype fe xe cfg fuel q m = Some (q',
      m\<lparr>sm_started := False, sm_writer := (foldl (writer_body mts ops avtype fe cfg) (sm_writer m) (fq_items q))
         \<lparr>wr_so := writer_close mts ops avtype xe
            (wr_so (foldl (writer_body mts ops avtype fe cfg) (sm_writer m) (fq_items q)))\<rparr>\<rparr>) \<and>
    fq_inv q' \<and> fq_items q' = []"
proof -
  let ?q = "the (fq_close (Some q))"
  have "fq_inv ?q" "fq_items ?q = fq_items q" using assms(2) by (simp_all add: fq_close_def)
  moreover have "length (fq_items ?q) < fuel" using calculation(2) assms(3) by (simp add: fq_depth_def)
  ultimately obtain q' where "drain fq_take (writer_body mts ops avtype fe cfg) fuel ?q (sm_writer m)
      = Some (foldl (writer_body mts ops avtype fe cfg) (sm_writer m) (fq_items q), q')" "fq_inv q'" "fq_items q' = []"
    using fqs.drain_all [of ?q fuel "writer_body mts ops avtype fe cfg" "sm_writer m"] by auto
  then show ?thesis using assms(1) by (auto simp: storage_stop_def)
qed

lemma storage_stopped: "\<not> sm_started m \<Longrightarrow> storage_stop mts ops avtype fe xe cfg fuel q m = Some (q, m)"
  by (simp add: storage_stop_def)

lemma storage_deinit_run:
  "storage_stop mts ops avtype fe xe cfg fuel q m = Some (q', m') \<Longrightarrow>
   \<exists>m''. storage_deinit mts ops avtype fe xe cfg fuel q m = Some (q', m'') \<and> sm_started m'' = sm_started m' \<and>
     wr_freed (sm_writer m'') = wr_freed (sm_writer m') \<and> wr_frames (sm_writer m'') = wr_frames (sm_writer m') \<and>
     \<not> ws_meta_db (so_ws (wr_so (sm_writer m'')))"
  by (simp add: storage_deinit_def Let_def)

lemma fq_destroy_empty: "fq_inv q \<Longrightarrow> fq_items q = [] \<Longrightarrow> fq_destroy (Some q) = []"
  using fq_destroy_blocks [of q] by simp

text \<open>The three start-up calls of \<open>main\<close>.\<close>

definition modules_start ::
  "'ts mpeg_ts \<Rightarrow> 'pl m3u8_ops \<Rightarrow> int \<Rightarrow> daemon_env \<Rightarrow> ms_config_t \<Rightarrow> ('ts, 'pl) storage \<Rightarrow> bool" where
  "modules_start mts ops avtype e cfg so0 \<longleftrightarrow>
     fst (app_ctx_init (de_calloc_q e) (de_calloc_slots e)) = 0 \<and>
     fst (storage_init mts ops avtype (de_create e) (de_boot e) cfg so0) = 0 \<and>
     fst (run_state (media_init (de_hw e) cfg) media_static) = 0"

text \<open>What a \<open>main\<close> that came up leaves behind when it returns.\<close>

definition ended_clean :: "daemon_env \<Rightarrow> ('ts, 'pl) daemon \<Rightarrow> bool" where
  "ended_clean e d \<longleftrightarrow>
     (let t = run_fq CFG_FQ_CAPACITY (de_events e)
      in of_nat (length (t_offered t)) = of_nat (wr_frames (sm_writer (dm_storage d)) + t_late t) + fq_dropped (t_q t) \<and>
         mset (t_alloc t) = mset (t_freed t) + mset (wr_freed (sm_writer (dm_storage d))) \<and> dm_freed d = [] \<and>
         held (dm_media d) \<subseteq> {Font} \<and> s_web_sock (md_web (dm_media d)) < 0 \<and> s_web_srv_fd (md_web (dm_media d)) < 0)"

text \<open>The writer's part: what its thread and the drain at the stop leave.\<close>

lemma writer_stops:
  assumes "storage_init mts ops avtype create_ok b cfg so0 = (0, m)" and "64 < fuel"
    and "t = run_fq CFG_FQ_CAPACITY evs" and "w = foldl (writer_body mts ops avtype fe cfg) (sm_writer m) (t_out t)"
  shows "\<exists>q1 m2. storage_stop mts ops avtype fe xe cfg fuel (t_q t) (m\<lparr>sm_writer := w\<rparr>) = Some (q1, m2) \<and>
    fq_destroy (Some q1) = [] \<and> \<not> sm_started m2 \<and>
    of_nat (length (t_offered t)) = of_nat (wr_frames (sm_writer m2) + t_late t) + fq_dropped (t_q t) \<and>
    mset (t_alloc t) = mset (t_freed t) + mset (wr_freed (sm_writer m2))"
proof -
  let ?body = "writer_body mts ops avtype fe cfg"
  note I = storage_init_ok [OF assms(1)]
  have cap: "0 < CFG_FQ_CAPACITY" by (simp add: CFG_FQ_CAPACITY_def)
  have q: "fq_inv (t_q t)" "fq_depth (t_q t) < fuel"
    using run_fq_inv [OF cap] queue_depth_bound [of evs] assms(2,3) by auto
  have "sm_started (m\<lparr>sm_writer := w\<rparr>)" using I by simp
  from storage_stop_run [OF this q, of mts ops avtype fe xe cfg] obtain q1 m2 where
    s: "storage_stop mts ops avtype fe xe cfg fuel (t_q t) (m\<lparr>sm_writer := w\<rparr>) = Some (q1, m2)"
      "fq_inv q1" "fq_items q1 = []" "\<not> sm_started m2"
      "wr_freed (sm_writer m2) = wr_freed (foldl ?body w (fq_items (t_q t)))"
      "wr_frames (sm_writer m2) = wr_frames (foldl ?body w (fq_items (t_q t)))" by auto
  have "wr_freed (sm_writer m2) = map frame_block (t_out t @ fq_items (t_q t))"
    "wr_frames (sm_writer m2) = length (t_out t) + fq_depth (t_q t)"
    using I by (simp_all add: s(5,6) assms(4) writer_body_freed fq_depth_def)
  with run_fq_accounted [OF cap, of evs] have
    "of_nat (length (t_offered t)) = of_nat (wr_frames (sm_writer m2) + t_late t) + fq_dropped (t_q t)"
    "mset (t_alloc t) = mset (t_freed t) + mset (wr_freed (sm_writer m2))"
    using fq_blocks_items [OF q(1)]
    by (simp_all add: assms(3) accounted_def fq_depth_def fq_dropped_def ac_simps)
  then show ?thesis using s fq_destroy_empty [OF s(2,3)] by blast
qed

text \<open>The media module's part, once it is up: its threads, the stop and the release.\<close>

lemma media_session_ends:
  assumes "run_state (media_init (de_hw e) cfg) media_static = (0, md)"
  shows "\<exists>u1 md1 u3 md3 u4 md4. run_state (osd_thread (de_hw e) (de_osd_malloc e) (de_secs e)) md = (u1, md1) \<and>
    run_state (media_stop (de_hw e))
      (md1\<lparr>md_web := fst (mjpeg_thread (de_mjpeg_malloc e) (de_pictures e) (md_web md1))\<rparr>) = (u3, md3) \<and>
    run_state (media_deinit (de_hw e)) md3 = (u4, md4) \<and>
    held md4 \<subseteq> {Font} \<and> s_web_sock (md_web md4) < 0 \<and> s_web_srv_fd (md_web md4) < 0"
proof -
  obtain u1 md1 where o: "run_state (osd_thread (de_hw e) (de_osd_malloc e) (de_secs e)) md = (u1, md1)" by (metis surj_pair)
  obtain u3 md3 where st: "run_state (media_stop (de_hw e))
      (md1\<lparr>md_web := fst (mjpeg_thread (de_mjpeg_malloc e) (de_pictures e) (md_web md1))\<rparr>) = (u3, md3)" by (metis surj_pair)
  obtain u4 md4 where de: "run_state (media_deinit (de_hw e)) md3 = (u4, md4)" by (metis surj_pair)
  from media_releases_all [OF assms o st de] show ?thesis using o st de by (auto split: if_splits)
qed

text \<open>\<open>main\<close> where a module does not come up, one by one, and where all do.\<close>

lemma main_without_storage:
  assumes "app_ctx_init (de_calloc_q e) (de_calloc_slots e) = (rc1, ctx)"
    and "storage_init mts ops avtype (de_create e) (de_boot e) cfg so0 = (rc2, m)" and "rc1 \<noteq> 0 \<or> rc2 \<noteq> 0"
  shows "\<exists>rc d. daemon_main mts ops avtype e cfg fuel so0 = Some (rc, d) \<and> rc \<noteq> 0 \<and> ctx_vq (dm_ctx d) = None \<and>
    \<not> sm_started (dm_storage d)"
proof (cases "rc1 = 0")
  case False
  then have "ctx_vq ctx = None" using assms(1) by (auto simp: app_ctx_init_def Let_def split: if_splits)
  then show ?thesis using False assms(1) by (simp add: daemon_main_def Let_def)
next
  case True
  then have "\<not> sm_started m" using assms(2,3) by (auto simp: storage_init_def Let_def split: if_splits prod.splits)
  then show ?thesis using True assms by (simp add: daemon_main_def Let_def app_ctx_deinit_def split: option.split)
qed

lemma main_with_storage:
  assumes "app_ctx_init (de_calloc_q e) (de_calloc_slots e) = (0, ctx)"
    and "storage_init mts ops avtype (de_create e) (de_boot e) cfg so0 = (0, m)"
    and "run_state (media_init (de_hw e) cfg) media_static = (rc3, md)" and "64 < fuel"
  shows "\<exists>rc d. daemon_main mts ops avtype e cfg fuel so0 = Some (rc, d) \<and> ctx_vq (dm_ctx d) = None \<and>
    \<not> sm_started (dm_storage d) \<and> (rc = 0 \<longleftrightarrow> rc3 = 0) \<and> (rc = 0 \<longrightarrow> ended_clean e d)"
proof -
  let ?t = "run_fq CFG_FQ_CAPACITY (de_events e)" and ?body = "writer_body mts ops avtype (de_frames e) cfg"
  let ?m1 = "m\<lparr>sm_writer := foldl ?body (sm_writer m) (t_out ?t)\<rparr>"
  have run: "writer_run ?body CFG_FQ_CAPACITY (de_events e) (sm_writer m) = (?t, sm_writer ?m1)" by (simp add: writer_run_out)
  from writer_stops [OF assms(2,4) refl refl, where evs = "de_events e" and fe = "de_frames e" and xe = "de_stop e"] obtain q1 m2 where
    s: "storage_stop mts ops avtype (de_frames e) (de_stop e) cfg fuel (t_q ?t) ?m1 = Some (q1, m2)"
      "fq_destroy (Some q1) = []" "\<not> sm_started m2"
      "of_nat (length (t_offered ?t)) = of_nat (wr_frames (sm_writer m2) + t_late ?t) + fq_dropped (t_q ?t)"
      "mset (t_alloc ?t) = mset (t_freed ?t) + mset (wr_freed (sm_writer m2))" by blast
  show ?thesis
  proof (cases "rc3 = 0")
    case False
    then show ?thesis using storage_deinit_run [OF s(1)] s(3) assms(1,2,3) run
      by (auto simp: daemon_main_def Let_def app_ctx_deinit_def split: prod.splits)
  next
    case True
    obtain u1 md1 u3 md3 u4 md4 where
      M: "run_state (osd_thread (de_hw e) (de_osd_malloc e) (de_secs e)) md = (u1, md1)"
        "run_state (media_stop (de_hw e))
          (md1\<lparr>md_web := fst (mjpeg_thread (de_mjpeg_malloc e) (de_pictures e) (md_web md1))\<rparr>) = (u3, md3)"
        "run_state (media_deinit (de_hw e)) md3 = (u4, md4)"
        "held md4 \<subseteq> {Font}" "s_web_sock (md_web md4) < 0" "s_web_srv_fd (md_web md4) < 0"
      using media_session_ends [OF assms(3) [unfolded True]] by blast
    obtain m3 where d: "storage_deinit mts ops avtype (de_frames e) (de_stop e) cfg fuel q1 m2 = Some (q1, m3)"
        "\<not> sm_started m3" "wr_freed (sm_writer m3) = wr_freed (sm_writer m2)" "wr_frames (sm_writer m3) = wr_frames (sm_writer m2)"
      using storage_deinit_run [OF storage_stopped [OF s(3), of mts ops avtype "de_frames e" "de_stop e" cfg fuel q1]] s(3) by auto
    have "daemon_main mts ops avtype e cfg fuel so0
        = Some (0, \<lparr>dm_ctx = ctx\<lparr>ctx_vq := None\<rparr>, dm_storage = m3, dm_media = md4, dm_freed = []\<rparr>)"
      using assms(1,2,3) True run M(1-3) s(1,2) d(1) by (simp add: daemon_main_def Let_def app_ctx_deinit_def)
    then show ?thesis using True M(4-6) s(4,5) d(2-4) by (simp add: ended_clean_def Let_def)
  qed
qed


text \<open>A run in which the three modules come up, two frames are pushed and one is recorded before the stop.\<close>

definition demo_daemon :: daemon_env where
  "demo_daemon = \<lparr>de_calloc_q = True, de_calloc_slots = True, de_create = True, de_boot = demo_boot,
     de_frames = \<lambda>k. demo_frame (demo_today, 1) 30,
     de_stop = \<lparr>xe_flush = demo_cb, xe_realloc = True, xe_update = SqlOk\<rparr>, de_hw = demo_hw,
     de_events = [EvPush [1] True 0, EvPop, EvPush [2] False 33000], de_osd_malloc = True, de_secs = [1, 1, 2],
     de_mjpeg_malloc = True, de_pictures = []\<rparr>"

lemma demo_hw_starts: "fst (run_state (media_init demo_hw cfg) media_static) = 0"
proof -
  have g: "good_until demo_hw 56" by (simp add: good_until_def demo_hw_def)
  have h: "hw_calloc demo_hw" "0 \<le> hw_socket demo_hw" "hw_bind demo_hw" "hw_listen demo_hw"
    by (simp_all add: demo_hw_def)
  obtain s5 where s5: "run_state (media_init demo_hw cfg) media_static = run_state (media_start demo_hw cfg) s5"
      "logged s5 = 41" "media_ok s5" "ctl s5 = ctl media_static"
    using media_init_good [OF g, of cfg] by auto
  obtain s3 where s3: "run_state (media_start demo_hw cfg) s5 = run_state (start_producers demo_hw) s3" "logged s3 = 53"
    using media_start_good [OF g _ h s5(2-4), of cfg] by auto
  obtain t1 where t1: "run_state (start_thread demo_hw ThrH264) s3 = (0, t1)" "logged t1 = 54"
    using good_stages(9) [OF g, of s3 ThrH264] s3(2) by auto
  obtain t2 where t2: "run_state (start_thread demo_hw ThrMjpeg) t1 = (0, t2)" "logged t2 = 55"
    using good_stages(9) [OF g, of t1 ThrMjpeg] t1(2) by auto
  obtain t3 where t3: "run_state (start_thread demo_hw ThrIvs) t2 = (0, t3)"
    using good_stages(9) [OF g, of t2 ThrIvs] t2(2) by auto
  show ?thesis using s5(1) s3(1) t1 t2 t3 by (simp add: start_producers_def)
qed


end
