(* ===== verification/Recording.thy ===== *)
theory Recording
  imports WriterProps
begin

text \<open>
  The recording as the writer keeps it on a working card: the segments stored so far and the playlist
  that names them, the group of pictures still open, and that a frame extends them, whatever happens
  to the databases and to other days.
\<close>

section \<open>Segments on the card\<close>

text \<open>What the playlist is after a list of segments: the next number, the last time, the playlist.\<close>

fun pl_step :: "'pl m3u8_ops \<Rightarrow> int \<times> int \<times> 'pl \<Rightarrow> segment \<Rightarrow> int \<times> int \<times> 'pl" where
  "pl_step ops (i, prev, pl) (data, pts, dts, dur) =
     (i + 1, dts, pl_add ops pl (pad5 i @ ''.ts'') pts dur (0 \<le> prev \<and> prev + c_quot (pl_hls_duration ops) 2 < dts))"

definition playlist_after :: "'pl m3u8_ops \<Rightarrow> int \<Rightarrow> 'pl \<Rightarrow> segment list \<Rightarrow> 'pl" where
  "playlist_after ops prev pl segs = snd (snd (foldl (pl_step ops) (0, prev, pl) segs))"

lemma pl_step_count: "fst (foldl (pl_step ops) (i, prev, pl) segs) = i + int (length segs)"
proof (induction segs arbitrary: i prev pl)
  case (Cons s segs)
  then show ?case by (cases s) simp
qed simp

text \<open>The segments are in their files, in order, and the playlist names them.\<close>

definition on_card :: "'pl m3u8_ops \<Rightarrow> string \<Rightarrow> int \<Rightarrow> 'pl \<Rightarrow> segment list \<Rightarrow> fs \<Rightarrow> bool" where
  "on_card ops dir prev pl segs fs \<longleftrightarrow>
     (\<forall>i < length segs. committed fs (ts_file dir (int i)) (fst (segs ! i))) \<and>
     (segs \<noteq> [] \<longrightarrow> committed fs (playlist_file dir) (pl_playlist ops (playlist_after ops prev pl segs)))"

definition stored :: "'pl m3u8_ops \<Rightarrow> string \<Rightarrow> int \<Rightarrow> 'pl \<Rightarrow> segment list \<Rightarrow> ('ts, 'pl) storage \<Rightarrow> bool" where
  "stored ops dir prev pl segs so \<longleftrightarrow> seg_dir_ok dir \<and> ws_segment_dir (so_ws so) = dir \<and>
     ws_m3u (so_ws so) = Some (playlist_after ops prev pl segs) \<and> ws_ts_idx (so_ws so) = int (length segs) \<and>
     so_last_dts so = fst (snd (foldl (pl_step ops) (0, prev, pl) segs)) \<and>
     on_card ops dir prev pl segs (w_fs (so_world so))"

text \<open>Both writes of a call of \<open>hls_cb\<close> succeed.\<close>

definition cb_works :: "hls_cb_env \<Rightarrow> bool" where
  "cb_works e \<longleftrightarrow> wfa_works (he_ts e) \<and> wfa_works (he_m3u e)"

lemma replace_works:
  assumes "wfa_works e" and "length p < 160" and "parent_dir p \<noteq> None"
  obtains fs' where "replace_file e p data fs = (0, fs')" and "fs' = hd (snd (write_file_atomic e p data fs))"
    and "fst (write_file_atomic e p data fs) = 0"
  using wfa_works_zero [OF assms, of data fs] that by (cases "write_file_atomic e p data fs") (simp add: replace_file_def)

definition cb_done :: "int \<Rightarrow> int \<Rightarrow> 'pl \<Rightarrow> fs \<Rightarrow> ('ts, 'pl) storage \<Rightarrow> ('ts, 'pl) storage" where
  "cb_done i dts pl fs so = so\<lparr>so_last_dts := dts,
     so_ws := (so_ws so)\<lparr>ws_ts_idx := i, ws_m3u := Some pl, ws_ts_since_cleanup := ws_ts_since_cleanup (so_ws so) + 1\<rparr>,
     so_world := (so_world so)\<lparr>w_fs := fs\<rparr>\<rparr>"

text \<open>A segment's file and then its playlist go to the card beside those of the earlier segments.\<close>

lemma on_card_snoc:
  assumes "on_card ops dir prev pl segs fs"
    and "replace_file e1 (ts_file dir (int (length segs))) (fst x) fs = (0, fs1)"
    and "replace_file e2 (playlist_file dir) (pl_playlist ops (playlist_after ops prev pl (segs @ [x]))) fs1 = (0, fs2)"
  shows "on_card ops dir prev pl (segs @ [x]) fs2"
proof -
  note last_file = card.put_in_turn [OF assms(2,3) ts_playlist_apart(1) [OF of_nat_0_le_iff]]
  have "committed fs2 (ts_file dir (int k)) (fst (segs ! k))" if "k < length segs" for k
  proof -
    have "committed fs (ts_file dir (int k)) (fst (segs ! k))" using assms(1) that by (simp add: on_card_def)
    then have "committed fs1 (ts_file dir (int k)) (fst (segs ! k))"
      by (rule card.committed_same) (rule card.put_same [OF assms(2) ts_files_apart], use that in simp_all)
    then show ?thesis
      by (rule card.committed_same) (rule card.put_same [OF assms(3) ts_playlist_apart(1)], simp)
  qed
  then show ?thesis using last_file by (auto simp: on_card_def nth_append less_Suc_eq)
qed

lemma hls_cb_works:
  assumes "stored ops dir prev pl segs so" and "cb_works e" and "length segs < 10 ^ 11"
  shows "\<exists>so'. hls_cb ops e data pts dts dur so = (0, so') \<and> stored ops dir prev pl (segs @ [(data, pts, dts, dur)]) so' \<and>
    (\<exists>i pl' fs'. so' = cb_done i dts pl' fs' so)"
proof -
  let ?i = "int (length segs)" and ?fs = "w_fs (so_world so)"
  define acc where "acc = foldl (pl_step ops) (0, prev, pl) segs"
  define prev' where "prev' = fst (snd acc)"
  define pl1 where "pl1 = playlist_after ops prev pl segs"
  define pl' where "pl' = playlist_after ops prev pl (segs @ [(data, pts, dts, dur)])"
  have acc: "acc = (?i, prev', pl1)"
    using pl_step_count [of ops 0 prev pl segs] by (simp add: acc_def prev'_def playlist_after_def prod_eq_iff pl1_def)
  have step: "foldl (pl_step ops) (0, prev, pl) (segs @ [x]) = pl_step ops acc x" for x
    by (simp add: acc_def)
  have S: "seg_dir_ok dir" "ws_segment_dir (so_ws so) = dir" "ws_m3u (so_ws so) = Some pl1"
      "ws_ts_idx (so_ws so) = ?i" "so_last_dts so = prev'" "on_card ops dir prev pl segs ?fs"
    using assms(1) by (simp_all add: stored_def acc_def prev'_def pl1_def)
  have i: "0 \<le> ?i" "?i < 10 ^ 11" using assms(3) by simp_all
  note N = seg_files_writable [OF S(1) i]
  have paths: "ts_path (so_ws so) = ts_file dir ?i" "m3u_path (so_ws so) = playlist_file dir"
    using ts_path_file [of "so_ws so"] m3u_path_file [of "so_ws so"] S i by simp_all
  have W: "wfa_works (he_ts e)" "wfa_works (he_m3u e)" using assms(2) by (simp_all add: cb_works_def)
  obtain fs1 where f1: "replace_file (he_ts e) (ts_file dir ?i) data ?fs = (0, fs1)"
      "fs1 = hd (snd (write_file_atomic (he_ts e) (ts_file dir ?i) data ?fs))"
      "fst (write_file_atomic (he_ts e) (ts_file dir ?i) data ?fs) = 0"
    using replace_works [OF W(1) N(1,2)] by metis
  obtain fs2 where f2: "replace_file (he_m3u e) (playlist_file dir) (pl_playlist ops pl') fs1 = (0, fs2)"
      "fs2 = hd (snd (write_file_atomic (he_m3u e) (playlist_file dir) (pl_playlist ops pl') fs1))"
      "fst (write_file_atomic (he_m3u e) (playlist_file dir) (pl_playlist ops pl') fs1) = 0"
    using replace_works [OF W(2) N(3,4)] by metis
  have last: "foldl (pl_step ops) (0, prev, pl) (segs @ [(data, pts, dts, dur)]) = (?i + 1, dts, pl')"
    unfolding pl'_def playlist_after_def step acc by simp
  have pl': "pl' = pl_add ops pl1 (pad5 ?i @ ''.ts'') pts dur
      (0 \<le> prev' \<and> prev' + c_quot (pl_hls_duration ops) 2 < dts)"
    unfolding pl'_def playlist_after_def step acc by simp
  have name: "c_trunc TS_NAME_SIZE (pad5 ?i @ ''.ts'') = pad5 ?i @ ''.ts''"
    using pad5_length [OF i] unfolding c_trunc_def TS_NAME_SIZE_def by (intro take_all) simp
  have run: "hls_cb ops e data pts dts dur so = (0, cb_done (?i + 1) dts pl' fs2 so)"
    using f1(2,3) f2(2,3) S paths name
    by (auto simp: hls_cb_def Let_def cb_done_def pl' prod_eq_iff split: prod.splits)
  have "on_card ops dir prev pl (segs @ [(data, pts, dts, dur)]) fs2"
    by (rule on_card_snoc [OF S(6)]) (use f1(1) f2(1) in \<open>simp_all add: pl'_def\<close>)
  then have "stored ops dir prev pl (segs @ [(data, pts, dts, dur)]) (cb_done (?i + 1) dts pl' fs2 so)"
    using S last unfolding stored_def by (simp add: cb_done_def pl'_def)
  then show ?thesis using run by blast
qed

section \<open>What a frame leaves alone\<close>

lemma map_count_dates [simp]:
  "map mr_date (map (\<lambda>r. if P r then r\<lparr>mr_motion_count := n\<rparr> else r) rs) = map mr_date rs"
  by (induction rs) auto

lemma meta_count_inv:
  "meta_inv db \<Longrightarrow> meta_inv (db\<lparr>md_rows := map (\<lambda>r. if P r then r\<lparr>mr_motion_count := n\<rparr> else r) (md_rows db)\<rparr>)"
  unfolding meta_inv_def by (simp del: map_map) auto

lemma meta_count_known:
  "meta_known (db\<lparr>md_rows := map (\<lambda>r. if P r then r\<lparr>mr_motion_count := n\<rparr> else r) (md_rows db)\<rparr>) = meta_known db"
  unfolding meta_known_def set_map [symmetric] by (simp del: map_map set_map)

lemma upsert_safe:
  assumes "day_safe t w" and "date_ok (ws_date ws)"
  shows "day_safe t (meta_db_upsert_motion_count sql ws n w)"
proof (cases "ws_meta_db ws \<and> sql = SqlOk")
  case True
  note inv = assms(1)[unfolded day_safe_def]
  show ?thesis
  proof (cases "meta_has (ws_date ws) (w_meta w)")
    case has: True
    let ?db = "(w_meta w)\<lparr>md_rows := map (\<lambda>r. if mr_date r = ws_date ws then r\<lparr>mr_motion_count := n\<rparr> else r) (md_rows (w_meta w))\<rparr>"
    have "meta_pending ?db = meta_pending (w_meta w)"
      by (simp add: meta_pending_def pending_dates_def pending_counts)
    then have "day_safe t (w\<lparr>w_meta := ?db\<rparr>)"
      using inv meta_count_inv [of "w_meta w"] by (simp add: day_safe_def dates_ok_def meta_count_known)
    then show ?thesis using True has by (simp add: meta_db_upsert_motion_count_def)
  next
    case False
    let ?db = "meta_insert (ws_date ws) n 0 (w_meta w)"
    have "meta_inv ?db" "meta_known ?db = insert (ws_date ws) (meta_known (w_meta w))"
        "meta_pending ?db = meta_pending (w_meta w)"
      using inv False by (auto simp: meta_inv_def meta_insert_def meta_has_def meta_simps)
    then show ?thesis
      using True False inv assms(2) by (simp add: meta_db_upsert_motion_count_def day_safe_def dates_ok_def)
  qed
qed (use assms(1) in \<open>auto simp: meta_db_upsert_motion_count_def\<close>)

lemma rows_fs [simp]:
  "w_fs (meta_db_upsert_motion_count sql ws n w) = w_fs w"
  "w_fs (event_db_add_motion sql ws i n w) = w_fs w" "w_meta (event_db_add_motion sql ws i n w) = w_meta w"
  "w_fs (event_db_update_total_frames sql ws w) = w_fs w" "w_meta (event_db_update_total_frames sql ws w) = w_meta w"
  by (simp_all add: meta_db_upsert_motion_count_def event_db_add_motion_def event_db_update_total_frames_def Let_def
      split: option.splits)

lemma day_safe_meta: "w_meta w' = w_meta w \<Longrightarrow> day_safe t w' = day_safe t w"
  by (simp add: day_safe_def)

text \<open>Besides the segmenter, a frame keeps the day, its files and the playlist.\<close>

definition quiet :: "('ts, 'pl) storage \<Rightarrow> ('ts, 'pl) storage \<Rightarrow> bool" where
  "quiet so so' \<longleftrightarrow> ws_date (so_ws so') = ws_date (so_ws so) \<and> ws_segment_dir (so_ws so') = ws_segment_dir (so_ws so) \<and>
     ws_hls (so_ws so') = ws_hls (so_ws so) \<and> ws_m3u (so_ws so') = ws_m3u (so_ws so) \<and>
     ws_ts_idx (so_ws so') = ws_ts_idx (so_ws so) \<and> ws_seen_keyframe (so_ws so') = ws_seen_keyframe (so_ws so) \<and>
     so_last_dts so' = so_last_dts so \<and> day_safe (ws_date (so_ws so)) (so_world so') \<and>
     same_but {p. \<not> under (day_path (ws_date (so_ws so))) p} (w_fs (so_world so)) (w_fs (so_world so'))"

lemma quiet_trans: "quiet a b \<Longrightarrow> quiet b c \<Longrightarrow> quiet a c"
  using same_but_trans [of "{p. \<not> under (day_path (ws_date (so_ws a))) p}" "w_fs (so_world a)" "w_fs (so_world b)"
      "{p. \<not> under (day_path (ws_date (so_ws a))) p}" "w_fs (so_world c)"]
  by (simp add: quiet_def)

lemma quiet_motion:
  assumes "date_ok (ws_date (so_ws so))" and "day_safe (ws_date (so_ws so)) (so_world so)"
  shows "quiet so (note_motion e cfg so)"
  using assms upsert_safe
  by (auto simp: quiet_def note_motion_def on_world_def Let_def intro!: upsert_safe) (simp add: day_safe_def)

lemma quiet_frame:
  assumes "date_ok (ws_date (so_ws so))" and "day_safe (ws_date (so_ws so)) (so_world so)"
  shows "quiet so (note_frame e cfg so)"
proof -
  define so1 where "so1 = so\<lparr>so_ws := (so_ws so)\<lparr>ws_last_fps := fe_fps e\<rparr>\<rparr>"
  have so1: "quiet so so1" using assms(2) by (simp add: quiet_def so1_def)
  have m: "quiet so1 (note_motion e cfg so1)" using quiet_motion [of so1] assms by (simp add: so1_def)
  have w: "quiet so2 (on_world (event_db_update_total_frames sql) so2)" "quiet so2 (storage_fault so2)"
    if "quiet so so2" for so2 sql
    using that by (simp_all add: quiet_def on_world_def storage_fault_def day_safe_def)
  note q = quiet_trans [OF so1 m]
  show ?thesis
    using so1 q w(1) [OF so1] w(1) [OF q] w(2) [OF q]
    by (auto simp: note_frame_def so1_def [symmetric] Let_def intro: quiet_trans split: option.splits)
qed

lemma quiet_cleanup:
  assumes "date_ok (ws_date (so_ws so))" and "day_safe (ws_date (so_ws so)) (so_world so)"
    and "\<forall>i. env_walk_ok (ce_tasks1 e i) \<and> env_walk_ok (ce_tasks2 e i)"
  shows "quiet so (check_and_cleanup e cfg so)"
  using check_and_cleanup_keeps [of e cfg so] cleanup_spared [OF assms(2,1,3), of cfg]
  by (auto simp: quiet_def spared_def)

lemma committed_same_but:
  "committed fs p c \<Longrightarrow> same_but P fs fs' \<Longrightarrow> p \<notin> P \<Longrightarrow> committed fs' p c"
  by (simp add: committed_def same_but_def)

text \<open>The segment directory of a day.\<close>

definition day_dir :: "string \<Rightarrow> string \<Rightarrow> bool" where
  "day_dir date dir \<longleftrightarrow> date_ok date \<and> (\<exists>r. dir = day_path date @ CHR ''/'' # r)"

lemma day_dir_under: "day_dir date dir \<Longrightarrow> under (day_path date) (dir @ r)"
  by (auto simp: day_dir_def under_append)

lemma stored_quiet:
  assumes "stored ops dir prev pl segs so" and "quiet so so'" and "day_dir (ws_date (so_ws so)) dir"
  shows "stored ops dir prev pl segs so'"
proof -
  have "committed (w_fs (so_world so')) (dir @ r) c" if "committed (w_fs (so_world so)) (dir @ r) c" for r c
    using committed_same_but [OF that, of "{p. \<not> under (day_path (ws_date (so_ws so))) p}" "w_fs (so_world so')"]
      assms(2) day_dir_under [OF assms(3), of r] by (simp add: quiet_def)
  then show ?thesis
    using assms(1,2) by (auto simp: stored_def quiet_def on_card_def ts_file_def playlist_file_def)
qed

section \<open>Frames into segments\<close>

definition seg_of :: "fq_frame \<Rightarrow> seg_frame" where
  "seg_of f = \<lparr>sf_data = the (f_data f), sf_key = f_is_key f, sf_ms = c_quot (f_pts_us f) 1000\<rparr>"

lemma seg_of_key [simp]: "sf_key (seg_of f) = f_is_key f"
  by (simp add: seg_of_def)

text \<open>A frame as \<open>fq_push\<close> queues it: all of its data.\<close>

definition frame_full :: "fq_frame \<Rightarrow> bool" where
  "frame_full f \<longleftrightarrow> (\<exists>d. f_data f = Some d \<and> f_len f = length d)"

text \<open>No day rollover, no failure of the card or of an allocation; SQL calls may fail.\<close>

definition frame_works :: "int \<Rightarrow> frame_env \<Rightarrow> bool" where
  "frame_works day e \<longleftrightarrow> snd (fe_today e) = day \<and> cb_works (fe_cb e) \<and> fe_realloc e \<and>
     (\<forall>i. env_walk_ok (ce_tasks1 (fe_cleanup e) i) \<and> env_walk_ok (ce_tasks2 (fe_cleanup e) i))"

text \<open>The writer has stored \<open>segs\<close> and holds the frames \<open>cur\<close> of the open segment.\<close>

definition recording ::
  "'ts mpeg_ts \<Rightarrow> 'pl m3u8_ops \<Rightarrow> int \<Rightarrow> string \<Rightarrow> int \<Rightarrow> 'pl \<Rightarrow> segment list \<Rightarrow> 'ts \<Rightarrow> seg_frame list
     \<Rightarrow> ('ts, 'pl) storage \<Rightarrow> bool" where
  "recording mts ops v dir prev pl segs ts cur so \<longleftrightarrow> stored ops dir prev pl segs so \<and>
     (\<exists>hls. ws_hls (so_ws so) = Some hls \<and> open_segment mts v ts cur hls) \<and> ws_seen_keyframe (so_ws so) \<and>
     day_dir (ws_date (so_ws so)) dir \<and> day_safe (ws_date (so_ws so)) (so_world so)"

lemma recording_quiet:
  "recording mts ops v dir prev pl segs ts cur so \<Longrightarrow> quiet so so' \<Longrightarrow> recording mts ops v dir prev pl segs ts cur so'"
  using stored_quiet [of ops dir prev pl segs so so'] by (auto simp: recording_def quiet_def)

text \<open>The bookkeeping around the segmenter.\<close>

lemma ingest_quiet:
  assumes "snd (fe_today e) = ws_day_of_year (so_ws so)" and "ws_seen_keyframe (so_ws so) \<or> f_is_key f"
    and "so2 = writer_input mts ops (fe_cb e) (fe_realloc e) avtype (f_data f) (f_len f) (c_quot (f_pts_us f) 1000) (f_is_key f)
      (so\<lparr>so_ws := (so_ws so)\<lparr>ws_seen_keyframe := True, ws_pts_ms := c_quot (f_pts_us f) 1000\<rparr>\<rparr>)"
    and "date_ok (ws_date (so_ws so2))" and "day_safe (ws_date (so_ws so2)) (so_world so2)"
    and "\<forall>i. env_walk_ok (ce_tasks1 (fe_cleanup e) i) \<and> env_walk_ok (ce_tasks2 (fe_cleanup e) i)"
  shows "quiet so2 (ingest_frame mts ops avtype e cfg f so)"
proof -
  define so3 where "so3 = so2\<lparr>so_ws := (so_ws so2)\<lparr>ws_frame_count := ws_frame_count (so_ws so2) + 1\<rparr>\<rparr>"
  have 3: "quiet so2 so3" using assms(5) by (simp add: quiet_def so3_def)
  have 4: "quiet so3 (note_frame e cfg so3)" using quiet_frame [of so3] assms(4,5) by (simp add: so3_def)
  have "ws_date (so_ws (note_frame e cfg so3)) = ws_date (so_ws so2)"
      "day_safe (ws_date (so_ws so2)) (so_world (note_frame e cfg so3))"
    using 3 4 by (simp_all add: quiet_def)
  then have 5: "quiet (note_frame e cfg so3) (check_and_cleanup (fe_cleanup e) cfg (note_frame e cfg so3))"
    using quiet_cleanup [OF _ _ assms(6), of "note_frame e cfg so3"] assms(4) by simp
  have "ingest_frame mts ops avtype e cfg f so = check_and_cleanup (fe_cleanup e) cfg (note_frame e cfg so3)"
    using assms(1,2) by (auto simp: ingest_frame_def Let_def so3_def assms(3))
  then show ?thesis using quiet_trans [OF quiet_trans [OF 3 4] 5] by simp
qed

text \<open>What an input of the segmenter leaves, given what it does with the handler.\<close>

lemma writer_input_run:
  assumes "ws_hls (so_ws so) = Some hls"
    and "hls_media_input mts (hls_cb ops e) r avtype data n ms ms key hls so = Some (rc, hls', so')"
  shows "writer_input mts ops e r avtype data n ms key so = so'\<lparr>so_ws := (so_ws so')\<lparr>ws_hls := Some hls'\<rparr>\<rparr>"
  using assms by (simp add: writer_input_def)

lemma stored_hls [simp]:
  "stored ops dir prev pl segs (so\<lparr>so_ws := (so_ws so)\<lparr>ws_hls := h\<rparr>\<rparr>) = stored ops dir prev pl segs so"
  "stored ops dir prev pl segs (so\<lparr>so_ws := (so_ws so)\<lparr>ws_seen_keyframe := b, ws_pts_ms := p\<rparr>\<rparr>) = stored ops dir prev pl segs so"
  "stored ops dir prev pl segs (so\<lparr>so_ws := (so_ws so)\<lparr>ws_seen_keyframe := b, ws_pts_ms := p, ws_hls := h\<rparr>\<rparr>) = stored ops dir prev pl segs so"
  by (simp_all add: stored_def)

text \<open>A frame that goes to the segmenter, given what the segmenter does with it.\<close>

definition marked :: "fq_frame \<Rightarrow> ('ts, 'pl) storage \<Rightarrow> ('ts, 'pl) storage" where
  "marked f so = so\<lparr>so_ws := (so_ws so)\<lparr>ws_seen_keyframe := True, ws_pts_ms := sf_ms (seg_of f)\<rparr>\<rparr>"

lemma marked_fields [simp]:
  "ws_hls (so_ws (marked f so)) = ws_hls (so_ws so)" "ws_seen_keyframe (so_ws (marked f so))"
  "ws_date (so_ws (marked f so)) = ws_date (so_ws so)" "so_world (marked f so) = so_world so"
  "stored ops dir prev pl segs (marked f so) = stored ops dir prev pl segs so"
  by (simp_all add: marked_def)

lemma ingest_run:
  assumes "frame_full f" and "frame_works (ws_day_of_year (so_ws so)) e" and "ws_seen_keyframe (so_ws so) \<or> f_is_key f"
    and "ws_hls (so_ws so) = Some hls"
    and "hls_media_input mts (hls_cb ops (fe_cb e)) True avtype (Some (sf_data (seg_of f))) (length (sf_data (seg_of f)))
        (sf_ms (seg_of f)) (sf_ms (seg_of f)) (sf_key (seg_of f)) hls (marked f so) = Some (rc, hls', so1)"
    and "stored ops dir prev pl segs so1" and "open_segment mts v ts cur hls'" and "ws_seen_keyframe (so_ws so1)"
    and "ws_date (so_ws so1) = ws_date (so_ws so)" and "w_meta (so_world so1) = w_meta (so_world so)"
    and "day_dir (ws_date (so_ws so)) dir" and "day_safe (ws_date (so_ws so)) (so_world so)"
  shows "recording mts ops v dir prev pl segs ts cur (ingest_frame mts ops avtype e cfg f so)"
proof -
  note E = assms(2)[unfolded frame_works_def]
  define so2 where "so2 = so1\<lparr>so_ws := (so_ws so1)\<lparr>ws_hls := Some hls'\<rparr>\<rparr>"
  have "so2 = writer_input mts ops (fe_cb e) True avtype (Some (sf_data (seg_of f))) (length (sf_data (seg_of f)))
      (sf_ms (seg_of f)) (sf_key (seg_of f)) (marked f so)"
    using writer_input_run [OF _ assms(5)] assms(4) by (simp add: so2_def)
  then have run: "so2 = writer_input mts ops (fe_cb e) (fe_realloc e) avtype (f_data f) (f_len f) (c_quot (f_pts_us f) 1000)
      (f_is_key f) (so\<lparr>so_ws := (so_ws so)\<lparr>ws_seen_keyframe := True, ws_pts_ms := c_quot (f_pts_us f) 1000\<rparr>\<rparr>)"
    using assms(1) E by (auto simp: seg_of_def marked_def frame_full_def)
  have two: "recording mts ops v dir prev pl segs ts cur so2"
    using assms(6-12) by (simp add: recording_def so2_def day_safe_def)
  then have "date_ok (ws_date (so_ws so2))" "day_safe (ws_date (so_ws so2)) (so_world so2)"
    by (simp_all add: recording_def day_dir_def)
  then have "quiet so2 (ingest_frame mts ops avtype e cfg f so)"
    using ingest_quiet [OF _ assms(3) run, where cfg = cfg] E by simp
  then show ?thesis by (rule recording_quiet [OF two])
qed

text \<open>A frame within a group of pictures.\<close>

lemma ingest_same_gop:
  assumes "recording mts ops v dir prev pl segs ts cur so" and "frame_works (ws_day_of_year (so_ws so)) e"
    and "frame_full f" and "gen_ok mts avtype v frames" and "set (cur @ [seg_of f]) \<subseteq> set frames"
    and "length cur < length frames" and "\<not> f_is_key f" and "sf_ms (last cur) \<le> sf_ms (seg_of f)"
  shows "recording mts ops v dir prev pl segs ts (cur @ [seg_of f]) (ingest_frame mts ops avtype e cfg f so)"
proof -
  note R = assms(1)[unfolded recording_def]
  obtain hls where hls: "ws_hls (so_ws so) = Some hls" "open_segment mts v ts cur hls" using R by blast
  have "\<not> sf_key (seg_of f)" using assms(7) by simp
  from hls_feed_same_gop [OF assms(4) hls(2) assms(5,6) this assms(8), of "hls_cb ops (fe_cb e)" "marked f so"]
  show ?thesis using ingest_run [OF assms(3,2) _ hls(1)] R by auto
qed

text \<open>A keyframe: the open group is stored, the next one starts.\<close>

lemma ingest_new_gop:
  assumes "recording mts ops v dir prev pl segs ts cur so" and "frame_works (ws_day_of_year (so_ws so)) e"
    and "frame_full f" and "gen_ok mts avtype v frames" and "seg_of f \<in> set frames"
    and "f_is_key f" and "sf_ms (last cur) \<le> sf_ms (seg_of f)" and "gop_packets mts v ts cur = (ts1, b)"
    and "length segs < 10 ^ 11"
  shows "recording mts ops v dir prev pl
    (segs @ [(b, sf_ms (hd cur), sf_ms (hd cur), seg_duration cur (sf_ms (seg_of f)))]) (ts_reset mts ts1) [seg_of f]
    (ingest_frame mts ops avtype e cfg f so)"
proof -
  note R = assms(1)[unfolded recording_def]
  let ?dur = "seg_duration cur (sf_ms (seg_of f))"
  obtain hls where hls: "ws_hls (so_ws so) = Some hls" "open_segment mts v ts cur hls" using R by blast
  have "stored ops dir prev pl segs (marked f so)" "cb_works (fe_cb e)" using R assms(2) by (simp_all add: frame_works_def)
  from hls_cb_works [OF this assms(9), of b "sf_ms (hd cur)" "sf_ms (hd cur)" ?dur] obtain so1 i pl' fs' where
    cb: "hls_cb ops (fe_cb e) b (sf_ms (hd cur)) (sf_ms (hd cur)) ?dur (marked f so) = (0, so1)"
      "stored ops dir prev pl (segs @ [(b, sf_ms (hd cur), sf_ms (hd cur), ?dur)]) so1"
      "so1 = cb_done i (sf_ms (hd cur)) pl' fs' (marked f so)"
    by blast
  have one: "ws_seen_keyframe (so_ws so1)" "ws_date (so_ws so1) = ws_date (so_ws so)" "w_meta (so_world so1) = w_meta (so_world so)"
    by (simp_all add: cb(3) cb_done_def)
  have "sf_key (seg_of f)" using assms(6) by simp
  from hls_roll_segment [where handler = "hls_cb ops (fe_cb e)" and s = "marked f so" and s' = so1,
      OF assms(4) hls(2) assms(5) this assms(7,8) cb(1)]
  show ?thesis using ingest_run [OF assms(3,2) _ hls(1) _ cb(2) _ one] R by auto
qed

text \<open>Before the first keyframe: frames are skipped; the keyframe opens the first segment.\<close>

definition waiting ::
  "'ts mpeg_ts \<Rightarrow> 'pl m3u8_ops \<Rightarrow> string \<Rightarrow> int \<Rightarrow> 'pl \<Rightarrow> ('ts, 'pl) storage \<Rightarrow> bool" where
  "waiting mts ops dir prev pl so \<longleftrightarrow> stored ops dir prev pl [] so \<and> \<not> ws_seen_keyframe (so_ws so) \<and>
     (\<exists>hls. ws_hls (so_ws so) = Some hls \<and> hls_media_create mts True 0 = Some hls) \<and>
     day_dir (ws_date (so_ws so)) dir \<and> day_safe (ws_date (so_ws so)) (so_world so)"

lemma ingest_skips:
  assumes "waiting mts ops dir prev pl so" and "frame_works (ws_day_of_year (so_ws so)) e" and "\<not> f_is_key f"
  shows "ingest_frame mts ops avtype e cfg f so = so"
  using assms by (simp add: waiting_def frame_works_def ingest_frame_def Let_def)

lemma ingest_first_key:
  assumes "waiting mts ops dir prev pl so" and "frame_works (ws_day_of_year (so_ws so)) e"
    and "frame_full f" and "gen_ok mts avtype v frames" and "seg_of f \<in> set frames" and "f_is_key f"
    and "ts_create mts = Some ts0" and "ts_add_stream mts ts0 avtype = (ts, v)"
  shows "recording mts ops v dir prev pl [] ts [seg_of f] (ingest_frame mts ops avtype e cfg f so)"
proof -
  note R = assms(1)[unfolded waiting_def]
  obtain hls where hls: "ws_hls (so_ws so) = Some hls" "hls_media_create mts True 0 = Some hls" using R by blast
  from hls_first_frame [OF assms(4,5) hls(2) assms(7,8), of "hls_cb ops (fe_cb e)" "marked f so"]
  show ?thesis using ingest_run [OF assms(3,2) _ hls(1)] R assms(6) by auto
qed

end
