(* ===== verification/RecordingRuns.thy ===== *)
theory RecordingRuns
  imports Recording "HOL-Library.Sublist"
begin

text \<open>
  Whole recordings: from the boot over the frames the queue hands over, in the order of their pushes, to
  the flush of the last segment.
\<close>

section \<open>From the first frame to the flush\<close>

lemma record_frames:
  assumes "gen_ok mts avtype v frames" and "\<forall>k. frame_works day (fe k)"
    and "recording mts ops v dir prev pl segs ts cur (wr_so w)" and "ws_day_of_year (so_ws (wr_so w)) = day"
    and "set (cur @ map seg_of fs) \<subseteq> set frames" and "length cur + length fs \<le> length frames" and "cur \<noteq> []"
    and "sorted (map sf_ms (last cur # map seg_of fs))" and "\<forall>f\<in>set fs. frame_full f"
    and "length segs + length fs < 10 ^ 11"
  shows "\<exists>segs' ts' cur'. recording mts ops v dir prev pl segs' ts' cur' (wr_so (foldl (writer_body mts ops avtype fe cfg) w fs)) \<and>
    segs' @ stored_segments mts v ts' [cur'] = segs @ stored_segments mts v ts (gop_split cur (map seg_of fs)) \<and>
    length segs' < 10 ^ 11"
  using assms(3-10)
proof (induction fs arbitrary: w segs ts cur)
  case Nil
  then show ?case by auto
next
  case (Cons f fs)
  let ?w = "writer_body mts ops avtype fe cfg w f"
  have day: "ws_day_of_year (so_ws (wr_so ?w)) = day" and e: "frame_works (ws_day_of_year (so_ws (wr_so w))) (fe (wr_frames w))"
    using Cons.prems(2) assms(2) by (simp_all add: ingest_same_day frame_works_def)
  have ff: "frame_full f" "\<forall>f\<in>set fs. frame_full f" using Cons.prems(7) by simp_all
  have ms: "sf_ms (last cur) \<le> sf_ms (seg_of f)" "sorted (map sf_ms (map seg_of fs))"
      "\<forall>g\<in>set fs. sf_ms (seg_of f) \<le> sf_ms (seg_of g)"
    using Cons.prems(6) by auto
  show ?case
  proof (cases "f_is_key f")
    case False
    have "set (cur @ [seg_of f]) \<subseteq> set frames" "length cur < length frames" using Cons.prems(3,4) by auto
    then have "recording mts ops v dir prev pl segs ts (cur @ [seg_of f]) (wr_so ?w)"
      using ingest_same_gop [OF Cons.prems(1) e ff(1) assms(1) _ _ False ms(1)] by simp
    from Cons.IH [OF this day] show ?thesis
      using Cons.prems(3,4,8) ms ff False by simp
  next
    case True
    obtain ts1 b where g: "gop_packets mts v ts cur = (ts1, b)" by fastforce
    let ?s = "(b, sf_ms (hd cur), sf_ms (hd cur), seg_duration cur (sf_ms (seg_of f)))"
    have "seg_of f \<in> set frames" "length segs < 10 ^ 11" using Cons.prems(3,8) by auto
    then have step: "recording mts ops v dir prev pl (segs @ [?s]) (ts_reset mts ts1) [seg_of f] (wr_so ?w)"
      using ingest_new_gop [OF Cons.prems(1) e ff(1) assms(1) _ True ms(1) g] by simp
    obtain h gs where split: "gop_split [seg_of f] (map seg_of fs) = h # gs" "hd h = seg_of f"
      using gop_split_hd [of "[seg_of f]" "map seg_of fs"] by auto
    have "length [seg_of f] + length fs \<le> length frames"
      using Cons.prems(4,5) by (cases cur) auto
    then show ?thesis
      using Cons.IH [OF step day] Cons.prems(3,8) ms ff True split g by (simp split: prod.splits)
  qed
qed

lemma close_stores:
  assumes "gen_ok mts avtype v frames" and "recording mts ops v dir prev pl segs ts cur so"
    and "cb_works (xe_flush xe)" and "length segs < 10 ^ 11"
  shows "on_card ops dir prev pl (segs @ stored_segments mts v ts [cur])
    (w_fs (so_world (writer_close mts ops avtype xe so)))"
proof -
  note R = assms(2)[unfolded recording_def]
  obtain hls where hls: "ws_hls (so_ws so) = Some hls" "open_segment mts v ts cur hls" using R by blast
  obtain ts1 b where g: "gop_packets mts v ts cur = (ts1, b)" by fastforce
  let ?s = "(b, sf_ms (hd cur), sf_ms (hd cur), sf_ms (last cur) - sf_ms (hd cur))"
  have "stored ops dir prev pl segs so" using R by simp
  from hls_cb_works [OF this assms(3,4), of b "sf_ms (hd cur)" "sf_ms (hd cur)" "sf_ms (last cur) - sf_ms (hd cur)"]
  obtain so1 where cb: "hls_cb ops (xe_flush xe) b (sf_ms (hd cur)) (sf_ms (hd cur)) (sf_ms (last cur) - sf_ms (hd cur)) so = (0, so1)"
      "stored ops dir prev pl (segs @ [?s]) so1"
    by blast
  from hls_flush_segment [where handler = "hls_cb ops (xe_flush xe)" and s = so and s' = so1 and ok = "xe_realloc xe",
      OF assms(1) hls(2) g cb(1)]
  obtain rc hls' where "hls_media_input mts (hls_cb ops (xe_flush xe)) (xe_realloc xe) avtype None 0 0 0 False hls so = Some (rc, hls', so1)"
    by blast
  from writer_input_run [OF hls(1) this]
  have "w_fs (so_world (writer_close mts ops avtype xe so)) = w_fs (so_world so1)"
    using hls(1) by (simp add: writer_close_def hls_flush_and_destroy_def Let_def on_world_def)
  then show ?thesis using cb(2) g by (simp add: stored_def)
qed

lemma open_today_start:
  assumes "open_today mts ops e cfg so = (0, so')"
  shows "ws_date (so_ws so') = c_trunc DATE_STR_SIZE (fst (oe_today e)) \<and>
    (\<exists>idx. ws_segment_dir (so_ws so') = c_trunc SEGMENT_DIR_SIZE
        (c_trunc DATE_DIR_SIZE (CFG_DCIM_ROOT @ ws_date (so_ws so') @ ''/'') @ pad5 idx @ ''/'')) \<and>
    ws_ts_idx (so_ws so') = 0 \<and> ws_m3u (so_ws so') = pl_create ops \<and> so_last_dts so' = so_last_dts so"
  using assms
  by (auto simp: open_today_def Let_def hls_create_def event_db_close_def
      dest!: event_db_open_keeps split: prod.splits if_splits)

lemma c_trunc_length: "0 < n \<Longrightarrow> length (c_trunc n s) < n"
  by (simp add: c_trunc_def)

lemma segment_dir_day:
  assumes "date_ok date" and "dir = c_trunc SEGMENT_DIR_SIZE (c_trunc DATE_DIR_SIZE (CFG_DCIM_ROOT @ date @ ''/'') @ r)"
  shows "seg_dir_ok dir" "day_dir date dir"
proof -
  have d: "c_trunc DATE_DIR_SIZE (CFG_DCIM_ROOT @ date @ ''/'') = day_path date @ ''/''"
    using assms(1) unfolding day_path_date [OF assms(1)] c_trunc_def
    by (subst take_all) (simp_all add: date_ok_def DATE_DIR_SIZE_def DATE_STR_SIZE_def CFG_DCIM_ROOT_def)
  have "length (day_path date @ ''/'') < SEGMENT_DIR_SIZE"
    using assms(1) by (simp add: day_path_date) (simp add: date_ok_def SEGMENT_DIR_SIZE_def DATE_STR_SIZE_def CFG_DCIM_ROOT_def)
  then have "dir = day_path date @ CHR ''/'' # take (SEGMENT_DIR_SIZE - 1 - length (day_path date @ ''/'')) r"
    unfolding assms(2) d by (simp add: c_trunc_def take_Cons')
  moreover have "length dir < SEGMENT_DIR_SIZE" unfolding assms(2) by (rule c_trunc_length) (simp add: SEGMENT_DIR_SIZE_def)
  ultimately show "seg_dir_ok dir" "day_dir date dir" using assms(1) by (auto simp: seg_dir_ok_def day_dir_def)
qed

text \<open>A boot that succeeds: the day opened, the global database too.\<close>

lemma storage_init_run:
  assumes "storage_init mts ops avtype create_ok e cfg so0 = (0, m)"
  obtains so1 where "open_today mts ops (be_open e) cfg (so0\<lparr>so_ws := ws_zero\<rparr>) = (0, so1)"
    and "wr_so (sm_writer m) = on_world (meta_db_ensure_day (be_ensure e)) (so1\<lparr>so_ws := (so_ws so1)\<lparr>ws_meta_db := True\<rparr>\<rparr>)"
proof -
  have "writer_boot mts ops avtype e cfg (so0\<lparr>so_ws := ws_zero\<rparr>) = (True, wr_so (sm_writer m))"
    using storage_init_ok [OF assms(1)] by blast
  then obtain so1 ws2 where o: "open_today mts ops (be_open e) cfg (so0\<lparr>so_ws := ws_zero\<rparr>) = (0, so1)"
      and m: "meta_db_init (be_meta_open e) (be_meta_exec e) (so_ws so1) = (0, ws2)"
      and so: "wr_so (sm_writer m) = on_world (meta_db_ensure_day (be_ensure e)) (so1\<lparr>so_ws := ws2\<rparr>)"
    by (auto simp: writer_boot_def Let_def split: prod.splits if_splits)
  have "ws2 = (so_ws so1)\<lparr>ws_meta_db := True\<rparr>"
    using m by (auto simp: meta_db_init_def db_open_rw_def Let_def split: if_splits)
  with o so that show thesis by blast
qed

lemma on_world_last [simp]: "so_last_dts (on_world f so) = so_last_dts so"
  by (simp add: on_world_def)

lemma storage_init_waiting:
  assumes "storage_init mts ops avtype create_ok e cfg so0 = (0, m)" and "pl_create ops = Some pl"
    and "st_hls_duration_s (c_storage cfg) = 0" and "so = wr_so (sm_writer m)"
    and "date_ok (ws_date (so_ws so))" and "day_safe (ws_date (so_ws so)) (so_world so)"
  shows "waiting mts ops (ws_segment_dir (so_ws so)) (so_last_dts so0) pl so"
proof -
  obtain so1 where o: "open_today mts ops (be_open e) cfg (so0\<lparr>so_ws := ws_zero\<rparr>) = (0, so1)"
      and so: "so = on_world (meta_db_ensure_day (be_ensure e)) (so1\<lparr>so_ws := (so_ws so1)\<lparr>ws_meta_db := True\<rparr>\<rparr>)"
    using storage_init_run [OF assms(1)] assms(4) by metis
  note C = open_today_cases [OF o] and S = open_today_start [OF o]
  have "ws_hls (so_ws so1) \<noteq> None" using C by blast
  then obtain hls where hls: "ws_hls (so_ws so1) = Some hls" by (cases "ws_hls (so_ws so1)") simp_all
  have "ws_hls (so_ws so1) = hls_media_create mts (oe_malloc (be_open e)) 0" using C assms(3) by simp
  with hls have "hls_media_create mts (oe_malloc (be_open e)) 0 = Some hls" by simp
  moreover from this have "hls_media_create mts True 0 = Some hls"
    by (cases "oe_malloc (be_open e)") (simp_all add: hls_media_create_def)
  moreover obtain idx where "ws_segment_dir (so_ws so) = c_trunc SEGMENT_DIR_SIZE
        (c_trunc DATE_DIR_SIZE (CFG_DCIM_ROOT @ ws_date (so_ws so) @ ''/'') @ pad5 idx @ ''/'')"
    using S by (auto simp: so)
  note D = segment_dir_day [OF assms(5) this]
  ultimately show ?thesis
    using C S assms(2,3,6) D unfolding waiting_def stored_def
    using hls by (auto simp: so on_card_def playlist_after_def)
qed

lemma make_dir_meta: "make_dir ok p w = (rc, w') \<Longrightarrow> w_meta w' = w_meta w"
  by (auto simp: make_dir_def split: prod.splits)

lemma open_today_meta:
  assumes "open_today mts ops e cfg so = (rc, so')"
  shows "w_meta (so_world so') = w_meta (so_world so)"
proof -
  have "w_meta (snd (make_dir ok p w)) = w_meta w" for ok p w
    using make_dir_meta [of ok p w] by (metis prod.collapse)
  moreover have "w_meta w' = w_meta w" if "event_db_open ev ws w = (rc, ws', w')" for ev ws w rc and ws' :: "('a, 'b) writer_state_t" and w'
    using that by (auto simp: event_db_open_def event_db_file_def split: prod.splits option.splits if_splits)
  moreover have "w_meta w' = w_meta w" if "event_db_add_segment sql st ws w = (rc, w')" for sql st w rc w' and ws :: "('a, 'b) writer_state_t"
    using that by (auto simp: event_db_add_segment_def Let_def split: option.splits if_splits)
  ultimately show ?thesis
    using assms by (fastforce simp: open_today_def Let_def dest: make_dir_meta split: prod.splits if_splits)
qed

lemma ensure_safe:
  assumes "day_safe t w" and "date_ok (ws_date ws)"
  shows "day_safe t (meta_db_ensure_day sql ws w)"
proof -
  have "meta_db_ensure_day sql ws w = w \<or> w_meta (meta_db_ensure_day sql ws w) = meta_ensure (ws_date ws) (w_meta w)"
    by (simp add: meta_db_ensure_day_def meta_ensure_def)
  then show ?thesis
    using assms by (auto simp: day_safe_def dates_ok_def days.ensure_inv days.ensure_known days.ensure_pending)
qed

lemma storage_init_day:
  assumes "storage_init mts ops avtype create_ok e cfg so0 = (0, m)" and "date_ok date" and "day_safe date (so_world so0)"
    and "date = c_trunc DATE_STR_SIZE (fst (oe_today (be_open e)))"
  shows "ws_date (so_ws (wr_so (sm_writer m))) = date \<and> day_safe date (so_world (wr_so (sm_writer m))) \<and>
    ws_day_of_year (so_ws (wr_so (sm_writer m))) = snd (oe_today (be_open e))"
proof -
  obtain so1 where o: "open_today mts ops (be_open e) cfg (so0\<lparr>so_ws := ws_zero\<rparr>) = (0, so1)"
      and so: "wr_so (sm_writer m) = on_world (meta_db_ensure_day (be_ensure e)) (so1\<lparr>so_ws := (so_ws so1)\<lparr>ws_meta_db := True\<rparr>\<rparr>)"
    using storage_init_run [OF assms(1)] by metis
  have "ws_date (so_ws so1) = date" "ws_day_of_year (so_ws so1) = snd (oe_today (be_open e))"
    using open_today_start [OF o] open_today_day [OF o] assms(4) by simp_all
  moreover have "day_safe date (so_world so1)" using open_today_meta [OF o] assms(3) by (simp add: day_safe_def)
  ultimately show ?thesis
    using ensure_safe [of date "so_world so1" "(so_ws so1)\<lparr>ws_meta_db := True\<rparr>"] assms(2) by (simp add: so on_world_def)
qed

lemma record_all:
  assumes "gen_ok mts avtype v (map seg_of (dropWhile (\<lambda>f. \<not> f_is_key f) fs))" and "\<forall>k. frame_works day (fe k)"
    and "waiting mts ops dir prev pl (wr_so w)" and "ws_day_of_year (so_ws (wr_so w)) = day"
    and "ts_create mts = Some ts0" and "ts_add_stream mts ts0 avtype = (ts, v)"
    and "dropWhile (\<lambda>f. \<not> f_is_key f) fs = k # ks"
    and "sorted (map (sf_ms \<circ> seg_of) (k # ks))" and "\<forall>f\<in>set fs. frame_full f" and "length fs < 10 ^ 11"
    and "cb_works (xe_flush xe)"
  shows "on_card ops dir prev pl (stored_segments mts v ts (gop_split [seg_of k] (map seg_of ks)))
    (w_fs (so_world (writer_close mts ops avtype xe (wr_so (foldl (writer_body mts ops avtype fe cfg) w fs)))))"
  using assms(1,3,4,7,8,9,10)
proof (induction fs arbitrary: w)
  case (Cons f fs)
  let ?w = "writer_body mts ops avtype fe cfg w f"
  have e: "frame_works (ws_day_of_year (so_ws (wr_so w))) (fe (wr_frames w))"
    using Cons.prems(3) assms(2) by simp
  then have day: "ws_day_of_year (so_ws (wr_so ?w)) = day"
    using Cons.prems(3) by (simp add: ingest_same_day frame_works_def)
  show ?case
  proof (cases "f_is_key f")
    case False
    then have "wr_so ?w = wr_so w" using ingest_skips [OF Cons.prems(2) e] by simp
    then show ?thesis using Cons.IH [of ?w] Cons.prems False by simp
  next
    case True
    then have f: "f = k" "fs = ks" and frames: "seg_of f \<in> set (map seg_of (k # ks))"
      using Cons.prems(4) by auto
    have gen: "gen_ok mts avtype v (map seg_of (k # ks))" using Cons.prems(1,4) by simp
    have "recording mts ops v dir prev pl [] ts [seg_of f] (wr_so ?w)"
      using ingest_first_key [OF Cons.prems(2) e _ gen frames True assms(5,6)] Cons.prems(6) by simp
    from record_frames [OF gen assms(2) this day, of fs cfg] obtain segs' ts' cur' where
      "recording mts ops v dir prev pl segs' ts' cur' (wr_so (foldl (writer_body mts ops avtype fe cfg) ?w fs))"
      "segs' @ stored_segments mts v ts' [cur'] = stored_segments mts v ts (gop_split [seg_of f] (map seg_of fs))"
      "length segs' < 10 ^ 11"
      using Cons.prems(5-7) f by (auto simp: comp_def)
    then show ?thesis using close_stores [OF gen _ assms(11)] f by (metis foldl_Cons)
  qed
qed simp

section \<open>The whole recording\<close>

lemma length_stored_segments [simp]: "length (stored_segments mts v ts gs) = length gs"
  by (induction mts v ts gs rule: stored_segments.induct) (auto split: prod.splits)

text \<open>Frames come out of the queue in the order in which they went in.\<close>

lemma a_push_order: "subseq (a_items (a_push isk a f)) (a_items a @ [f])"
proof -
  have drop: "subseq (dropWhile P (tl xs)) xs" for P and xs :: "'a list"
    by (cases xs) (auto intro: suffix_dropWhile suffix_imp_subseq subseq_order.trans)
  then show ?thesis
    by (auto simp: a_push_def a_drop_def Let_def intro: list_emb_append_mono)
qed

lemma run_fq_order: "0 < c \<Longrightarrow> subseq (t_out (run_fq c evs) @ fq_items (t_q (run_fq c evs))) (t_offered (run_fq c evs))"
proof (induction evs rule: rev_induct)
  case Nil
  note S = run_fq_start [OF Nil]
  have "fq_items (the (fq_create True True c)) = []"
    using arg_cong [of _ _ a_items, OF conjunct2 [OF conjunct2 [OF S]]] by simp
  then show ?case using S by simp
next
  case (snoc e evs)
  show ?case
    using run_fq_inv [OF snoc.prems, of evs]
  proof (cases rule: run_event_cases [where e = e])
    case (push d k p q' freed)
    let ?t = "run_fq c evs" and ?f = "pushed_frame d k p"
    have "subseq (fq_items q') (fq_items (t_q ?t) @ [?f])"
      using arg_cong [of _ _ a_items, OF push(5)] a_push_order [of f_is_key "fq_abs (t_q ?t)" ?f] by simp
    then have "subseq (t_out ?t @ fq_items q') (t_out ?t @ fq_items (t_q ?t) @ [?f])"
      by (intro list_emb_append_mono subseq_order.refl)
    also have "subseq \<dots> (t_offered ?t @ [?f])" 
      using list_emb_append_mono [OF snoc.IH [OF snoc.prems] subseq_order.refl [of "[?f]"]] by simp
    finally show ?thesis using push(3) by (simp add: run_fq_snoc)
  qed (use snoc in \<open>auto simp: run_fq_snoc\<close>)
qed

lemma sorted_subseq: "subseq xs ys \<Longrightarrow> sorted (ys :: 'a :: linorder list) \<Longrightarrow> sorted xs"
  using set_nths_subset[of ys] by (metis sorted_nths subseq_conv_nths)

lemma frames_in_order:
  assumes "0 < c" and "sorted (map f_pts_us (t_offered (run_fq c evs)))"
  shows "sorted (map (sf_ms \<circ> seg_of) (dropWhile P (t_out (run_fq c evs) @ fq_items (t_q (run_fq c evs)))))"
proof -
  let ?fs = "t_out (run_fq c evs) @ fq_items (t_q (run_fq c evs))"
  have "subseq (dropWhile P ?fs) (t_offered (run_fq c evs))"
    using subseq_order.trans [OF suffix_imp_subseq [OF suffix_dropWhile] run_fq_order [OF assms(1)]] .
  from sorted_subseq [OF subseq_map [OF this, of f_pts_us] assms(2)] have "sorted (map f_pts_us (dropWhile P ?fs))" .
  then show ?thesis
    by (simp add: sorted_wrt_map) (erule sorted_wrt_mono_rel [rotated], simp add: seg_of_def c_quot_mono)
qed

text \<open>And whole.\<close>

lemma a_push_set: "set (a_items (a_push isk a f)) \<subseteq> insert f (set (a_items a))"
  by (auto simp: a_push_def a_drop_def Let_def dest: set_dropWhileD in_set_dropD list.set_sel(2))

lemma run_fq_frames:
  "0 < c \<Longrightarrow> \<forall>f\<in>set (t_out (run_fq c evs)) \<union> set (fq_items (t_q (run_fq c evs))). frame_full f"
proof (induction evs rule: rev_induct)
  case Nil
  note S = run_fq_start [OF Nil]
  have "fq_items (the (fq_create True True c)) = []"
    using arg_cong [of _ _ a_items, OF conjunct2 [OF conjunct2 [OF S]]] by simp
  then show ?case using S by simp
next
  case (snoc e evs)
  show ?case
    using run_fq_inv [OF snoc.prems, of evs]
  proof (cases rule: run_event_cases [where e = e])
    case (push d k p q' freed)
    have "set (a_items (fq_abs q')) \<subseteq> insert (pushed_frame d k p) (set (a_items (fq_abs (t_q (run_fq c evs)))))"
      unfolding push(5) by (rule a_push_set)
    then show ?thesis using snoc push(3) by (auto simp: run_fq_snoc frame_full_def pushed_frame_def)
  qed (use snoc in \<open>auto simp: run_fq_snoc\<close>)
qed


definition demo_events :: "fq_event list" where
  "demo_events = [EvPush [1, 7] True 0, EvPop, EvPush [2] False 33000, EvPush [3] True 66000]"

lemma demo_frame_works: "frame_works 1 (demo_frame (demo_today, 1) 30)"
  using demo_env_walk by (simp add: frame_works_def cb_works_def demo_frame_def demo_cb_def wfa_good_works demo_cleanup_def)


end
