(* ===== verification/Session.thy ===== *)
theory Session
  imports RecordingRuns "HOL-Library.Sublist"
begin

text \<open>
What a session of the writer touches on a card. A relation \<open>stays\<close> between two states of the storage
operations says that the second is reached within the first one's segment directory and day: every
file of the day outside of that directory is as it was, no directory of the day and no row of the
segments table came or went. It is proved a law of the atomic writes and of the segmenter
(\<open>segment_handler\<close> of HlsMedia, interpreted on it), and so of every step of a session: a frame with
its segment, its motion event and its day check, the flush, and the closing of the day.\<close>

section \<open>What a session touches\<close>

lemma parent_dir_split:
  assumes "parent_dir p = Some d" and "d \<noteq> ''/''"
  shows "\<exists>r. p = d @ CHR ''/'' # r \<and> CHR ''/'' \<notin> set r"
proof -
  let ?P = "\<lambda>c. c \<noteq> CHR ''/''"
  obtain c cs where t: "dropWhile ?P (rev p) = c # cs" "cs \<noteq> []" "d = rev cs"
    using assms by (auto simp: parent_dir_def split: list.splits if_splits)
  have "c = CHR ''/''" using hd_dropWhile [of ?P "rev p"] t(1) by simp
  then have "rev p = takeWhile ?P (rev p) @ CHR ''/'' # cs" using t(1) by (metis takeWhile_dropWhile_id)
  then have "p = rev cs @ CHR ''/'' # rev (takeWhile ?P (rev p))" by (metis append.assoc append_Cons append_Nil rev.simps(2) rev_append rev_rev_ident)
  moreover have "CHR ''/'' \<notin> set (rev (takeWhile ?P (rev p)))" by (auto dest: set_takeWhileD)
  ultimately show ?thesis using t(3) by blast
qed

lemma day_path_not_root: "day_path date \<noteq> ''/''"
  by (simp add: day_path_def c_trunc_def DATE_DIR_SIZE_def CFG_DCIM_ROOT_def)

lemma parent_dir_under: "parent_dir p = Some (day_path date) \<Longrightarrow> under (day_path date) p"
  using parent_dir_split [OF _ day_path_not_root, of p date] by (auto simp: under_append)

definition day_subdirs :: "string \<Rightarrow> world \<Rightarrow> string list" where
  "day_subdirs date w = filter (\<lambda>d. parent_dir d = Some (day_path date)) (fs_dirs (w_fs w))"

definition seg_table :: "world \<Rightarrow> ino \<Rightarrow> string list \<times> int" where
  "seg_table w i = (map sr_folder (ed_segments (w_events w i)), ed_seg_seq (w_events w i))"

text \<open>Within a day, only the files of the session's directory change, and no row comes or goes.\<close>

definition session_keeps :: "string \<Rightarrow> string \<Rightarrow> world \<Rightarrow> world \<Rightarrow> bool" where
  "session_keeps date dir w w' \<longleftrightarrow> day_safe date w' \<and> fs_next (w_fs w) \<le> fs_next (w_fs w') \<and>
     (\<forall>p. under (day_path date) p \<and> \<not> prefix dir p \<longrightarrow> same_path (w_fs w) p (w_fs w')) \<and>
     day_subdirs date w' = day_subdirs date w \<and> (\<forall>i. seg_table w' i = seg_table w i)"

lemma same_path_trans: "same_path a p b \<Longrightarrow> same_path b p c \<Longrightarrow> same_path a p c"
  unfolding same_path_def other_path_def by (auto; force)

lemma session_trans: "session_keeps d dir a b \<Longrightarrow> session_keeps d dir b c \<Longrightarrow> session_keeps d dir a c"
  unfolding session_keeps_def using same_path_trans by (metis order.trans)

definition in_session :: "('ts, 'pl) storage \<Rightarrow> bool" where
  "in_session so \<longleftrightarrow> seg_dir_ok (ws_segment_dir (so_ws so)) \<and> day_dir (ws_date (so_ws so)) (ws_segment_dir (so_ws so)) \<and>
     day_safe (ws_date (so_ws so)) (so_world so)"

definition stays :: "('ts, 'pl) storage \<Rightarrow> ('ts, 'pl) storage \<Rightarrow> bool" where
  "stays so so' \<longleftrightarrow> ws_date (so_ws so') = ws_date (so_ws so) \<and> ws_segment_dir (so_ws so') = ws_segment_dir (so_ws so) \<and>
     (in_session so \<longrightarrow> session_keeps (ws_date (so_ws so)) (ws_segment_dir (so_ws so)) (so_world so) (so_world so'))"

lemma stays_session: "stays so so' \<Longrightarrow> in_session so \<Longrightarrow> in_session so'"
  by (simp add: stays_def in_session_def session_keeps_def)

lemma stays_trans: "stays a b \<Longrightarrow> stays b c \<Longrightarrow> stays a c"
  using stays_session [of a b] session_trans by (fastforce simp: stays_def)

lemma session_refl: "day_safe date w \<Longrightarrow> session_keeps date dir w w"
  by (simp add: session_keeps_def same_path_def)

text \<open>Steps that leave the world alone.\<close>

lemma stays_same:
  "ws_date (so_ws so') = ws_date (so_ws so) \<Longrightarrow> ws_segment_dir (so_ws so') = ws_segment_dir (so_ws so) \<Longrightarrow>
   so_world so' = so_world so \<Longrightarrow> stays so so'"
  by (simp add: stays_def in_session_def session_refl)

lemma stays_refl [simp]: "stays so so"
  by (rule stays_same) simp_all

lemma stays_quiet:
  assumes "quiet so so'" and "\<forall>i. seg_table (so_world so') i = seg_table (so_world so) i"
  shows "stays so so'"
proof -
  let ?d = "day_path (ws_date (so_ws so))"
  have q: "same_but {p. \<not> under ?d p} (w_fs (so_world so)) (w_fs (so_world so'))"
    using assms(1) by (simp add: quiet_def)
  have "same_path (w_fs (so_world so)) p (w_fs (so_world so'))" if "under ?d p" for p
    using q that by (auto simp: same_but_def same_path_def other_path_def)
  moreover have "day_subdirs (ws_date (so_ws so)) (so_world so') = day_subdirs (ws_date (so_ws so)) (so_world so)"
    unfolding day_subdirs_def
  proof (rule filter_sub [where A = "\<lambda>p. p \<notin> {p. \<not> under ?d p}"])
    show "p \<notin> {p. \<not> under ?d p}" if "parent_dir p = Some ?d" for p
      using that by (auto dest: parent_dir_under)
  qed (use q in \<open>simp add: same_but_def\<close>)
  ultimately show ?thesis
    using assms q by (auto simp: stays_def session_keeps_def quiet_def same_but_def)
qed


section \<open>The steps of a session\<close>

text \<open>An atomic write into the session's directory, whatever happens to it.\<close>

lemma write_file_atomic_stays:
  assumes "write_file_atomic e path data (w_fs w) = (rc, h)" and "prefix dir path" and "day_safe date w"
  shows "session_keeps date dir w (w\<lparr>w_fs := hd h\<rparr>)"
proof -
  have "same_path (w_fs w) p (hd h)" if "\<not> prefix dir p" for p
  proof -
    have "p \<noteq> path" "\<forall>sfx. p \<noteq> tmp_name path sfx"
      using that assms(2) by (auto simp: tmp_name_def prefix_def)
    then show ?thesis
      using write_file_atomic_other [OF assms(1)] write_file_atomic_next [OF assms(1)] by (simp add: same_path_def)
  qed
  then show ?thesis
    using write_file_atomic_next [OF assms(1)] assms(3)
    by (simp add: session_keeps_def day_safe_def day_subdirs_def seg_table_def)
qed

lemma seg_paths_prefix:
  assumes "seg_dir_ok (ws_segment_dir ws)"
  shows "prefix (ws_segment_dir ws) (ts_path ws)" "prefix (ws_segment_dir ws) (m3u_path ws)"
  using segment_names [of ws] assms by (auto simp: seg_dir_ok_def prefix_def)

lemma hls_cb_stays: "stays so (snd (hls_cb ops e data pts dts duration so))"
proof -
  obtain rc so' where run: "hls_cb ops e data pts dts duration so = (rc, so')" by fastforce
  obtain rc1 h1 where w1: "write_file_atomic (he_ts e) (ts_path (so_ws so)) data (w_fs (so_world so)) = (rc1, h1)"
    by fastforce
  have ws: "ws_date (so_ws so') = ws_date (so_ws so) \<and> ws_segment_dir (so_ws so') = ws_segment_dir (so_ws so)"
    using run by (auto simp: hls_cb_def Let_def storage_fault_def split: option.splits prod.splits if_splits)
  have "\<exists>m rc2 h2. write_file_atomic (he_m3u e) (m3u_path (so_ws so)) m (hd h1) = (rc2, h2) \<and>
      so_world so' \<in> {so_world so, (so_world so)\<lparr>w_fs := hd h1\<rparr>, (so_world so)\<lparr>w_fs := hd h2\<rparr>}"
  proof (cases "ws_m3u (so_ws so)")
    case None
    then have "so_world so' = so_world so" using run by (auto simp: hls_cb_def Let_def storage_fault_def)
    then show ?thesis by (metis insertI1 surj_pair)
  next
    case (Some pl)
    define pl' where "pl' = pl_add ops pl (c_trunc TS_NAME_SIZE (pad5 (ws_ts_idx (so_ws so)) @ ''.ts'')) pts duration
      (0 \<le> so_last_dts so \<and> so_last_dts so + c_quot (pl_hls_duration ops) 2 < dts)"
    obtain rc2 h2 where w2: "write_file_atomic (he_m3u e) (m3u_path (so_ws so)) (pl_playlist ops pl') (hd h1) = (rc2, h2)"
      by fastforce
    have "so_world so' \<in> {(so_world so)\<lparr>w_fs := hd h1\<rparr>, (so_world so)\<lparr>w_fs := hd h2\<rparr>}"
      using run Some w1 w2 by (auto simp: hls_cb_def Let_def pl'_def [symmetric] split: if_splits)
    then show ?thesis using w2 by blast
  qed
  then obtain m rc2 h2 where w2: "write_file_atomic (he_m3u e) (m3u_path (so_ws so)) m (hd h1) = (rc2, h2)"
    and w': "so_world so' \<in> {so_world so, (so_world so)\<lparr>w_fs := hd h1\<rparr>, (so_world so)\<lparr>w_fs := hd h2\<rparr>}"
    by blast
  have "session_keeps (ws_date (so_ws so)) (ws_segment_dir (so_ws so)) (so_world so) (so_world so')" if i: "in_session so"
  proof -
    have safe: "day_safe (ws_date (so_ws so)) (so_world so)" and dir: "seg_dir_ok (ws_segment_dir (so_ws so))"
      using i by (simp_all add: in_session_def)
    note s1 = write_file_atomic_stays [OF w1 seg_paths_prefix(1) [OF dir] safe]
    have "session_keeps (ws_date (so_ws so)) (ws_segment_dir (so_ws so)) ((so_world so)\<lparr>w_fs := hd h1\<rparr>)
        ((so_world so)\<lparr>w_fs := hd h1\<rparr>\<lparr>w_fs := hd h2\<rparr>)"
      by (rule write_file_atomic_stays [OF _ seg_paths_prefix(2) [OF dir]]) (use w2 safe in \<open>simp_all add: day_safe_def\<close>)
    then show ?thesis using w' s1 session_trans [OF s1] session_refl [OF safe] by auto
  qed
  then show ?thesis using run ws by (simp add: stays_def)
qed

interpretation session: segment_handler "hls_cb ops e" stays for ops e
  by unfold_locales (simp, rule hls_cb_stays)

lemma writer_input_stays: "stays so (writer_input mts ops e r avtype data n ms key so)"
proof -
  have "stays so (so'\<lparr>so_ws := (so_ws so')\<lparr>ws_hls := h\<rparr>\<rparr>)"
    if "hls_media_input mts (hls_cb ops e) r avtype data n ms ms key hls so = Some (rc, hls', so')" for hls rc hls' so' h
    by (rule stays_trans [OF session.input_keeps [OF that] stays_same]) simp_all
  moreover have "stays so (storage_fault so)" by (rule stays_same) (simp_all add: storage_fault_def)
  ultimately show ?thesis by (auto simp: writer_input_def split: option.splits)
qed

lemma folders_rows [simp]:
  "seg_table (meta_db_upsert_motion_count sql ws n w) i = seg_table w i"
  "seg_table (meta_db_ensure_day sql ws w) i = seg_table w i"
  "seg_table (event_db_add_motion sql ws j n w) i = seg_table w i"
  "seg_table (event_db_update_total_frames sql ws w) i = seg_table w i"
  by (auto simp: seg_table_def meta_db_upsert_motion_count_def meta_db_ensure_day_def event_db_add_motion_def
      event_db_update_total_frames_def Let_def split: option.splits)

lemma folders_frame: "seg_table (so_world (note_frame e cfg so)) i = seg_table (so_world so) i"
  by (auto simp: note_frame_def note_motion_def on_world_def storage_fault_def Let_def split: option.splits)

text \<open>The environment of a session: today stays, and walks stay within their day.\<close>

definition session_env :: "int \<Rightarrow> frame_env \<Rightarrow> bool" where
  "session_env day e \<longleftrightarrow> snd (fe_today e) = day \<and>
     (\<forall>i. env_walk_ok (ce_tasks1 (fe_cleanup e) i) \<and> env_walk_ok (ce_tasks2 (fe_cleanup e) i))"

lemma note_frame_stays:
  assumes "in_session so"
  shows "stays so (note_frame e cfg so)"
proof -
  have "date_ok (ws_date (so_ws so))" "day_safe (ws_date (so_ws so)) (so_world so)"
    using assms by (simp_all add: in_session_def day_dir_def)
  from quiet_frame [OF this] show ?thesis by (rule stays_quiet) (simp add: folders_frame)
qed

lemma frame_tail_stays:
  assumes "in_session so" and "session_env day e"
  shows "stays so (check_and_cleanup (fe_cleanup e) cfg (note_frame e cfg so))"
proof -
  let ?n = "note_frame e cfg so"
  have n: "stays so ?n" by (rule note_frame_stays [OF assms(1)])
  have "in_session ?n" by (rule stays_session [OF n assms(1)])
  then have ctx2: "date_ok (ws_date (so_ws ?n))" "day_safe (ws_date (so_ws ?n)) (so_world ?n)"
    by (simp_all add: in_session_def day_dir_def)
  have env: "\<forall>i. env_walk_ok (ce_tasks1 (fe_cleanup e) i) \<and> env_walk_ok (ce_tasks2 (fe_cleanup e) i)"
    using assms(2) by (simp add: session_env_def)
  have "w_events (so_world (check_and_cleanup (fe_cleanup e) cfg ?n)) = w_events (so_world ?n)"
    using cleanup_spared [OF ctx2(2,1) env] by (simp add: spared_def)
  then have "stays ?n (check_and_cleanup (fe_cleanup e) cfg ?n)"
    by (intro stays_quiet [OF quiet_cleanup [OF ctx2 env]]) (simp add: seg_table_def)
  then show ?thesis by (rule stays_trans [OF n])
qed

lemma ingest_stays:
  assumes "in_session so" and "session_env (ws_day_of_year (so_ws so)) e"
  shows "stays so (ingest_frame mts ops avtype e cfg f so)"
proof (cases "\<not> ws_seen_keyframe (so_ws so) \<and> \<not> f_is_key f")
  case True
  then show ?thesis using assms(2) by (simp add: ingest_frame_def session_env_def Let_def)
next
  case False
  define so1 where "so1 = so\<lparr>so_ws := (so_ws so)\<lparr>ws_seen_keyframe := True, ws_pts_ms := c_quot (f_pts_us f) 1000\<rparr>\<rparr>"
  define so2 where "so2 = writer_input mts ops (fe_cb e) (fe_realloc e) avtype (f_data f) (f_len f) (c_quot (f_pts_us f) 1000)
    (f_is_key f) so1"
  define so3 where "so3 = so2\<lparr>so_ws := (so_ws so2)\<lparr>ws_frame_count := ws_frame_count (so_ws so2) + 1\<rparr>\<rparr>"
  have "stays so so1" by (rule stays_same) (simp_all add: so1_def)
  moreover have "stays so1 so2" unfolding so2_def by (rule writer_input_stays)
  moreover have "stays so2 so3" by (rule stays_same) (simp_all add: so3_def)
  ultimately have 3: "stays so so3" by (metis stays_trans)
  have "ingest_frame mts ops avtype e cfg f so = check_and_cleanup (fe_cleanup e) cfg (note_frame e cfg so3)"
    using False assms(2) by (auto simp: ingest_frame_def session_env_def Let_def so1_def so2_def so3_def)
  then show ?thesis using stays_trans [OF 3 frame_tail_stays [OF stays_session [OF 3 assms(1)] assms(2)]] by simp
qed

lemma session_run_stays:
  assumes "in_session (wr_so w)" and "\<forall>n. session_env (ws_day_of_year (so_ws (wr_so w))) (fe n)"
  shows "stays (wr_so w) (wr_so (foldl (writer_body mts ops avtype fe cfg) w fs))"
  using assms
proof (induction fs arbitrary: w)
  case (Cons f fs)
  let ?w = "writer_body mts ops avtype fe cfg w f"
  have s: "stays (wr_so w) (wr_so ?w)" using ingest_stays [OF Cons.prems(1)] Cons.prems(2) by simp
  have "ws_day_of_year (so_ws (wr_so ?w)) = ws_day_of_year (so_ws (wr_so w))"
    using Cons.prems(2) by (simp add: ingest_same_day session_env_def)
  then have "stays (wr_so ?w) (wr_so (foldl (writer_body mts ops avtype fe cfg) ?w fs))"
    using Cons.IH [OF stays_session [OF s Cons.prems(1)]] Cons.prems(2) by simp
  then show ?case using stays_trans [OF s] by simp
qed simp

lemma flush_stays: "stays so (hls_flush_and_destroy mts ops e r avtype so)"
proof -
  let ?in = "writer_input mts ops e r avtype None 0 0 False so"
  have "stays so (?in\<lparr>so_ws := (so_ws ?in)\<lparr>ws_hls := None, ws_m3u := None\<rparr>\<rparr>)"
    by (rule stays_trans [OF writer_input_stays stays_same]) simp_all
  moreover have "stays so (so\<lparr>so_ws := (so_ws so)\<lparr>ws_m3u := None\<rparr>\<rparr>)" by (rule stays_same) simp_all
  ultimately show ?thesis by (simp add: hls_flush_and_destroy_def Let_def split: option.split)
qed

lemma close_db_stays: "stays so (so\<lparr>so_ws := event_db_close (so_ws so)\<rparr>)"
  by (rule stays_same) (simp_all add: event_db_close_def)

lemma writer_close_stays: "stays so (writer_close mts ops avtype xe so)"
proof -
  let ?f = "hls_flush_and_destroy mts ops (xe_flush xe) (xe_realloc xe) avtype so"
  let ?u = "on_world (event_db_update_total_frames (xe_update xe)) ?f"
  have "stays ?f ?u"
    by (simp add: stays_def session_keeps_def in_session_def day_safe_def day_subdirs_def on_world_def same_path_def)
  then show ?thesis
    unfolding writer_close_def Let_def using flush_stays close_db_stays stays_trans by metis
qed

text \<open>A day that opens starts a session.\<close>

lemma open_today_session:
  assumes "open_today mts ops e cfg so = (0, so')" and "date = c_trunc DATE_STR_SIZE (fst (oe_today e))" and "date_ok date"
    and "day_safe date (so_world so)"
  shows "in_session so' \<and> ws_date (so_ws so') = date"
proof -
  note S = open_today_start [OF assms(1)]
  then obtain idx where "ws_segment_dir (so_ws so') = c_trunc SEGMENT_DIR_SIZE
        (c_trunc DATE_DIR_SIZE (CFG_DCIM_ROOT @ date @ ''/'') @ pad5 idx @ ''/'')"
    using assms(2) by auto
  from segment_dir_day [OF assms(3) this] S assms(2,4) open_today_meta [OF assms(1)] show ?thesis
    by (simp add: in_session_def day_safe_def)
qed

end
