(* ===== verification/Restart.thy ===== *)
theory Restart
  imports Session
begin

text \<open>
The daemon's sessions of a day, one after the other. A card is numbered up to \<open>n\<close> when the day's
segment directories are those \<open>count_subdirs\<close> counts, \<open>00000\<close> to \<open>n-1\<close>, and its database knows no
others: \<open>open_today\<close> takes the card from \<open>n\<close> to \<open>n+1\<close>, or leaves it at \<open>n\<close> where it fails early, and
\<open>day_session\<close> (a boot, any run of the writer's queue, and the stop; or a boot that fails) does the
same, which a run of sessions inherits by induction on their number.\<close>

section \<open>The numbering of a day's segment directories\<close>

definition numbered_dir :: "string \<Rightarrow> nat \<Rightarrow> string" where
  "numbered_dir date i = day_path date @ CHR ''/'' # pad5 (int i)"

definition day_db :: "string \<Rightarrow> string" where
  "day_db date = day_path date @ ''/EventLogs.db''"

text \<open>
  The directories of the day are \<open>00000\<close> to the number before \<open>n\<close>, no file is in the way of one, and
  the day's database knows no other.
\<close>

definition day_numbered :: "string \<Rightarrow> nat \<Rightarrow> world \<Rightarrow> bool" where
  "day_numbered date n w \<longleftrightarrow> length (day_subdirs date w) = n \<and>
     set (day_subdirs date w) = numbered_dir date ` {..<n} \<and> (\<forall>i. fs_dir (w_fs w) (numbered_dir date i) = None) \<and>
     (\<forall>ino. fs_dir (w_fs w) (day_db date) = Some ino \<longrightarrow> 
        set (fst (seg_table w ino)) \<subseteq> (\<lambda>i. pad5 (int i)) ` {..<n} \<and> 0 \<le> snd (seg_table w ino))"

lemma pad5_no_slash: "CHR ''/'' \<notin> set (pad5 (int i))"
  using pad5_digits [of "int i"] by (auto simp: is_digit_def)

lemma day_path_nonempty: "day_path date \<noteq> []"
  by (simp add: day_path_def c_trunc_def DATE_DIR_SIZE_def CFG_DCIM_ROOT_def)

lemma numbered_parent: "parent_dir (numbered_dir date i) = Some (day_path date)"
  unfolding numbered_dir_def by (rule parent_dir_file [OF pad5_no_slash day_path_nonempty])

lemma numbered_inj: "numbered_dir date i = numbered_dir date j \<longleftrightarrow> i = j"
  using pad5_inj [of "int i" "int j"] by (simp add: numbered_dir_def)

lemma numbered_not_db: "numbered_dir date i \<noteq> day_db date"
proof -
  obtain c cs where "pad5 (int i) = c # cs" "is_digit c" using pad5_digits [of "int i"] by (cases "pad5 (int i)") auto
  then show ?thesis by (auto simp: numbered_dir_def day_db_def is_digit_def)
qed

lemma numbered_step: "day_subdirs date w' = numbered_dir date n # day_subdirs date w \<Longrightarrow> day_numbered date n w \<Longrightarrow>
   length (day_subdirs date w') = Suc n \<and> set (day_subdirs date w') = numbered_dir date ` {..<Suc n}"
  by (auto simp: day_numbered_def lessThan_Suc)

lemma numbered_next_free: "day_numbered date n w \<Longrightarrow> numbered_dir date n \<notin> set (fs_dirs (w_fs w))"
proof
  assume n: "day_numbered date n w" and "numbered_dir date n \<in> set (fs_dirs (w_fs w))"
  then have "numbered_dir date n \<in> set (day_subdirs date w)" by (simp add: day_subdirs_def numbered_parent)
  then show False using n numbered_inj by (auto simp: day_numbered_def)
qed

text \<open>Making a directory elsewhere, and the next one of the day.\<close>

lemma make_dir_same:
  assumes "make_dir ok p w = (rc, w')"
  shows "w_events w' = w_events w \<and> w_meta w' = w_meta w \<and> fs_dir (w_fs w') = fs_dir (w_fs w) \<and>
    fs_disk (w_fs w') = fs_disk (w_fs w) \<and> fs_data (w_fs w') = fs_data (w_fs w) \<and> fs_sync (w_fs w') = fs_sync (w_fs w) \<and>
    fs_next (w_fs w') = fs_next (w_fs w)"
  using assms by (auto simp: make_dir_def ensure_dir_def split: prod.splits stat_result.splits if_splits)

lemma make_dir_elsewhere:
  assumes "parent_dir (dir_key p) \<noteq> Some (day_path date)"
  shows "day_subdirs date (snd (make_dir ok p w)) = day_subdirs date w"
  using assms by (auto simp: make_dir_def ensure_dir_def day_subdirs_def split: prod.splits stat_result.splits)

lemma numbered_fs:
  assumes "day_numbered date n w" and "day_subdirs date w' = day_subdirs date w" and "w_events w' = w_events w"
    and "fs_dir (w_fs w') = fs_dir (w_fs w)"
  shows "day_numbered date n w'"
  using assms by (simp add: day_numbered_def seg_table_def)

lemma make_dir_next:
  assumes "make_dir ok (numbered_dir date n @ ''/'') w = (rc, w')" and "day_numbered date n w"
  shows "if rc = 0 then day_subdirs date w' = numbered_dir date n # day_subdirs date w \<and> day_numbered date (Suc n) w'
    else w' = w"
proof -
  have key: "dir_key (numbered_dir date n @ ''/'') = numbered_dir date n" by (simp add: dir_key_def)
  have "fs_stat (numbered_dir date n) (w_fs w) = StatMissing"
    using numbered_next_free [OF assms(2)] assms(2) by (simp add: fs_stat_def day_numbered_def)
  then have run: "(rc, w') = (if ok then (0, w\<lparr>w_fs := (w_fs w)\<lparr>fs_dirs := numbered_dir date n # fs_dirs (w_fs w)\<rparr>\<rparr>) else (-1, w))"
    using assms(1) by (auto simp: make_dir_def key ensure_dir_def split: if_splits)
  show ?thesis
  proof (cases ok)
    case True
    then have w': "rc = 0" "w' = w\<lparr>w_fs := (w_fs w)\<lparr>fs_dirs := numbered_dir date n # fs_dirs (w_fs w)\<rparr>\<rparr>"
      using run by simp_all
    have s: "day_subdirs date w' = numbered_dir date n # day_subdirs date w"
      by (simp add: w'(2) day_subdirs_def numbered_parent)
    have "fs_dir (w_fs w') = fs_dir (w_fs w)" "w_events w' = w_events w" by (simp_all add: w'(2))
    moreover have "(\<lambda>i. pad5 (int i)) ` {..<n} \<subseteq> (\<lambda>i. pad5 (int i)) ` {..<Suc n}" by auto
    ultimately have "day_numbered date (Suc n) w'"
      using numbered_step [OF s assms(2)] assms(2) unfolding day_numbered_def seg_table_def
      by (metis (no_types, lifting) subset_trans)
    then show ?thesis using s w'(1) by simp
  qed (use run in simp)
qed


text \<open>What opening a day leaves of the card, besides its database.\<close>

definition opens :: "string \<Rightarrow> world \<Rightarrow> world \<Rightarrow> bool" where
  "opens date w w' \<longleftrightarrow> w_meta w' = w_meta w \<and> (\<forall>p. p \<noteq> day_db date \<longrightarrow> same_path (w_fs w) p (w_fs w'))"

lemma opens_trans: "opens d a b \<Longrightarrow> opens d b c \<Longrightarrow> opens d a c"
  unfolding opens_def using same_path_trans by metis

lemma opens_make_dir: "make_dir ok p w = (rc, w') \<Longrightarrow> opens date w w'"
  using make_dir_same [of ok p w rc w'] by (auto simp: opens_def same_path_def other_path_def)

lemma event_db_file_opens:
  assumes "event_db_file (day_db date) w = (i, w')" and "day_numbered date n w"
  shows "opens date w w' \<and> day_numbered date n w' \<and> fs_dir (w_fs w') (day_db date) = Some i"
proof (cases "fs_dir (w_fs w) (day_db date)")
  case None
  then have w': "i = fs_next (w_fs w)" "w' = w\<lparr>w_fs := fs_create (day_db date) (w_fs w), w_events := (w_events w)(i := event_db_empty)\<rparr>"
    using assms(1) by (auto simp: event_db_file_def)
  have "same_path (w_fs w) p (w_fs w')" if "p \<noteq> day_db date" for p
    using other_path_create [OF that, of "w_fs w"] by (simp add: same_path_def w'(2))
  moreover have "fs_dir (w_fs w') = (fs_dir (w_fs w))(day_db date := Some i)"
    by (simp add: w' fs_create_def fs_bind_def)
  ultimately show ?thesis
    using assms(2) numbered_not_db
    by (auto simp: opens_def day_numbered_def day_subdirs_def w'(2) seg_table_def event_db_empty_def)
next
  case (Some j)
  then show ?thesis using assms by (auto simp: event_db_file_def opens_def same_path_def)
qed

lemma pad5_folder: "n < 10 ^ 5 \<Longrightarrow> c_trunc 8 (pad5 (int n)) = pad5 (int n)"
  using show_nat_length [of "int n" 4] by (auto simp: c_trunc_def pad5_def)

lemma add_segment_opens:
  assumes "event_db_add_segment sql st ws w = (rc, w')" and "ws_event_db ws = Some i"
    and "fs_dir (w_fs w) (day_db date) = Some i" and "day_numbered date (Suc n) w"
    and "ws_interrupt_idx ws = int n" and "n < 10 ^ 5"
  shows "opens date w w' \<and> day_numbered date (Suc n) w'"
proof -
  have w': "w_fs w' = w_fs w" "w_meta w' = w_meta w"
      "set (fst (seg_table w' j)) \<subseteq> insert (pad5 (int n)) (set (fst (seg_table w j))) \<and> snd (seg_table w j) \<le> snd (seg_table w' j)" for j
    using assms(1,2) pad5_folder [OF assms(6)] assms(5)
    by (auto simp: event_db_add_segment_def Let_def seg_table_def split: if_splits)
  have "pad5 (int n) \<in> (\<lambda>i. pad5 (int i)) ` {..<Suc n}" by simp
  then have "set (fst (seg_table w' j)) \<subseteq> (\<lambda>i. pad5 (int i)) ` {..<Suc n}"
    if "set (fst (seg_table w j)) \<subseteq> (\<lambda>i. pad5 (int i)) ` {..<Suc n}" for j
    using w'(3) [of j] that by (meson insert_subset subset_trans)
  then show ?thesis
    using assms(4) w' unfolding opens_def same_path_def day_numbered_def day_subdirs_def by (fastforce intro: order_trans)
qed

lemma date_dir_path:
  "date_ok date \<Longrightarrow> c_trunc DATE_DIR_SIZE (CFG_DCIM_ROOT @ date @ ''/'') = day_path date @ ''/''"
  unfolding day_path_date c_trunc_def
  by (subst take_all) (simp_all add: date_ok_def DATE_DIR_SIZE_def DATE_STR_SIZE_def CFG_DCIM_ROOT_def day_path_date)

lemma segment_dir_path:
  assumes "date_ok date" and "n < 10 ^ 5"
  shows "c_trunc SEGMENT_DIR_SIZE ((day_path date @ ''/'') @ pad5 (int n) @ ''/'') = numbered_dir date n @ ''/''"
proof -
  have "length (pad5 (int n)) \<le> 5" using show_nat_length [of "int n" 4] assms(2) by (auto simp: pad5_def)
  moreover have "length (day_path date) \<le> 32"
    using assms(1) by (simp add: day_path_date) (simp add: date_ok_def DATE_STR_SIZE_def CFG_DCIM_ROOT_def)
  ultimately have "c_trunc SEGMENT_DIR_SIZE (numbered_dir date n @ ''/'') = numbered_dir date n @ ''/''"
    unfolding c_trunc_def SEGMENT_DIR_SIZE_def by (intro take_all) (simp add: numbered_dir_def)
  then show ?thesis by (simp add: numbered_dir_def)
qed

lemma event_db_path_day: "date_ok date \<Longrightarrow> event_db_path (day_path date @ ''/'') = day_db date"
proof -
  assume d: "date_ok date"
  then have "length (day_path date) \<le> 32"
    by (simp add: day_path_date) (simp add: date_ok_def DATE_STR_SIZE_def CFG_DCIM_ROOT_def)
  then have "c_trunc DB_PATH_SIZE (day_db date) = day_db date"
    unfolding c_trunc_def DB_PATH_SIZE_def by (intro take_all) (simp add: day_db_def)
  then show ?thesis by (simp add: event_db_path_def day_db_def)
qed

lemma day_dir_elsewhere:
  assumes "date_ok date"
  shows "parent_dir (dir_key CFG_DCIM_ROOT) \<noteq> Some (day_path date)" "parent_dir (dir_key (day_path date @ ''/'')) \<noteq> Some (day_path date)"
proof -
  have l: "length (dir_key CFG_DCIM_ROOT) < length (day_path date)"
    using assms by (simp add: day_path_date) (simp add: dir_key_def CFG_DCIM_ROOT_def)
  have k: "dir_key (day_path date @ ''/'') = day_path date" by (simp add: dir_key_def)
  show "parent_dir (dir_key CFG_DCIM_ROOT) \<noteq> Some (day_path date)"
    using parent_dir_split [OF _ day_path_not_root, of "dir_key CFG_DCIM_ROOT" date] l by auto
  show "parent_dir (dir_key (day_path date @ ''/'')) \<noteq> Some (day_path date)"
    using parent_dir_split [OF _ day_path_not_root, of "day_path date" date] unfolding k by auto
qed

text \<open>What follows in \<open>open_today\<close> once the directory of the segment is known.\<close>

definition open_rest ::
  "'ts mpeg_ts \<Rightarrow> 'pl m3u8_ops \<Rightarrow> open_env \<Rightarrow> ms_config_t \<Rightarrow> ('ts, 'pl) storage \<Rightarrow> ('ts, 'pl) writer_state_t \<Rightarrow> world
     \<Rightarrow> int \<times> ('ts, 'pl) storage" where
  "open_rest mts ops e cfg so ws1 w2 =
     (case make_dir (oe_mkseg e) (ws_segment_dir ws1) w2 of (rc, w3) \<Rightarrow>
      if rc \<noteq> 0 then (-1, so\<lparr>so_ws := ws1, so_world := w3\<rparr>)
      else case event_db_open (oe_event e) ws1 w3 of (rc, ws2, w4) \<Rightarrow>
        if rc \<noteq> 0 then (-1, so\<lparr>so_ws := ws2, so_world := w4\<rparr>)
        else case event_db_add_segment (oe_add e) (oe_start_time e) ws2 w4 of (seg_id, w5) \<Rightarrow>
          let ws3 = ws2\<lparr>ws_current_segment_id := seg_id\<rparr>
          in if seg_id < 0 then (-1, so\<lparr>so_ws := event_db_close ws3, so_world := w5\<rparr>)
             else case hls_create mts ops (oe_malloc e) cfg (ws3\<lparr>ws_frame_count := 0, ws_motion_count := 0,
                ws_last_fps := ivs_fps_low (c_ivs cfg), ws_pts_ms := 0, ws_seen_keyframe := False\<rparr>) of (rc, ws5) \<Rightarrow>
               if rc \<noteq> 0 then (-1, so\<lparr>so_ws := event_db_close ws5, so_world := w5\<rparr>)
               else (0, so\<lparr>so_ws := ws5, so_world := w5\<rparr>))"

lemma open_today_run:
  assumes "date = c_trunc DATE_STR_SIZE (fst (oe_today e))" and "date_ok date" and "day_numbered date n (so_world so)"
    and "oe_opendir e" and "n < 10 ^ 5"
  obtains ws1 w2 where "opens date (so_world so) w2" and "day_numbered date n w2"
    and "ws_interrupt_idx ws1 = int n" and "ws_date_dir ws1 = day_path date @ ''/''"
    and "ws_segment_dir ws1 = numbered_dir date n @ ''/''"
    and "open_today mts ops e cfg so = open_rest mts ops e cfg so ws1 w2"
proof -
  define w1 where "w1 = snd (make_dir (oe_mkroot e) CFG_DCIM_ROOT (so_world so))"
  define w2 where "w2 = snd (make_dir (oe_mkdate e) (day_path date @ ''/'') w1)"
  obtain r1 r2 where m12: "make_dir (oe_mkroot e) CFG_DCIM_ROOT (so_world so) = (r1, w1)"
      "make_dir (oe_mkdate e) (day_path date @ ''/'') w1 = (r2, w2)"
    by (metis w1_def w2_def prod.collapse)
  note S = make_dir_same [OF m12(1)] make_dir_same [OF m12(2)]
  have sub: "day_subdirs date w2 = day_subdirs date (so_world so)"
    using make_dir_elsewhere [OF day_dir_elsewhere(1) [OF assms(2)], of "oe_mkroot e" "so_world so"]
      make_dir_elsewhere [OF day_dir_elsewhere(2) [OF assms(2)], of "oe_mkdate e" w1] by (simp add: w1_def w2_def)
  have n2: "day_numbered date n w2" by (rule numbered_fs [OF assms(3) sub]) (use S in simp_all)
  have idx: "count_subdirs (oe_opendir e) (day_path date @ ''/'') w2 = int n"
    using n2 assms(4) by (simp add: count_subdirs_def day_numbered_def day_subdirs_def dir_key_def)
  define ws1 where "ws1 = (so_ws so)\<lparr>ws_date := date, ws_day_of_year := snd (oe_today e), ws_interrupt_idx := int n,
    ws_date_dir := day_path date @ ''/'', ws_segment_dir := numbered_dir date n @ ''/''\<rparr>"
  have "open_today mts ops e cfg so = open_rest mts ops e cfg so ws1 w2"
    unfolding open_today_def open_rest_def Let_def assms(1) [symmetric] date_dir_path [OF assms(2)] w1_def [symmetric]
      w2_def [symmetric] idx segment_dir_path [OF assms(2,5)] ws1_def by simp
  moreover have "opens date (so_world so) w2" by (rule opens_trans [OF opens_make_dir [OF m12(1)] opens_make_dir [OF m12(2)]])
  ultimately show thesis by (intro that [of w2 ws1]) (simp_all add: n2 ws1_def)
qed

lemma open_rest_numbered:
  assumes "open_rest mts ops e cfg so ws1 w2 = (rc, so')" and "day_numbered date n w2" and "date_ok date" and "n < 10 ^ 5"
    and "ws_interrupt_idx ws1 = int n" and "ws_date_dir ws1 = day_path date @ ''/''"
    and "ws_segment_dir ws1 = numbered_dir date n @ ''/''"
  shows "opens date w2 (so_world so') \<and> (\<exists>n'\<in>{n, Suc n}. day_numbered date n' (so_world so')) \<and>
    (rc = 0 \<longrightarrow> day_numbered date (Suc n) (so_world so') \<and> ws_segment_dir (so_ws so') = numbered_dir date n @ ''/'' \<and>
       ws_interrupt_idx (so_ws so') = int n)"
proof -
  obtain rc3 w3 where m3: "make_dir (oe_mkseg e) (numbered_dir date n @ ''/'') w2 = (rc3, w3)" by fastforce
  note o3 = opens_make_dir [OF m3, of date]
  note run = assms(1)[unfolded open_rest_def assms(7) m3 prod.case]
  show ?thesis
  proof (cases "rc3 = 0")
    case False
    then show ?thesis using run make_dir_next [OF m3 assms(2)] assms(2) o3 by auto
  next
    case True
    then have n3: "day_numbered date (Suc n) w3" using make_dir_next [OF m3 assms(2)] by simp
    obtain i w4 where f: "event_db_file (day_db date) w3 = (i, w4)" by fastforce
    note F = event_db_file_opens [OF f n3]
    note o4 = opens_trans [OF o3 conjunct1 [OF F]]
    obtain rc4 ws2 w4' where ev: "event_db_open (oe_event e) ws1 w3 = (rc4, ws2, w4')" by (metis surj_pair)
    have path: "event_db_path (ws_date_dir ws1) = day_db date" using event_db_path_day [OF assms(3)] by (simp add: assms(6))
    have w4': "w4' = w3 \<or> w4' = w4" "rc4 = 0 \<Longrightarrow> w4' = w4 \<and> ws2 = ws1\<lparr>ws_event_db := Some i\<rparr>"
      using ev f by (auto simp: event_db_open_def path split: prod.splits if_splits)
    show ?thesis
    proof (cases "rc4 = 0")
      case False
      then have "so_world so' = w4'" "rc \<noteq> 0" using run True ev by auto
      then show ?thesis using w4'(1) n3 F o3 o4 by auto
    next
      case ok: True
      obtain seg w5 where a: "event_db_add_segment (oe_add e) (oe_start_time e) ws2 w4 = (seg, w5)" by fastforce
      have A: "opens date w4 w5 \<and> day_numbered date (Suc n) w5"
        by (rule add_segment_opens [OF a]) (use w4'(2) [OF ok] F assms(4,5) in simp_all)
      have "so_world so' = w5 \<and> (rc = 0 \<longrightarrow> ws_segment_dir (so_ws so') = numbered_dir date n @ ''/'' \<and>
          ws_interrupt_idx (so_ws so') = int n)"
        using run True ev ok a w4'(2) [OF ok] assms(5,7)
        by (auto simp: Let_def hls_create_def event_db_close_def split: prod.splits if_splits)
      then show ?thesis using A opens_trans [OF o4, of w5] by simp
    qed
  qed
qed

lemma open_today_numbered:
  assumes "open_today mts ops e cfg so = (rc, so')" and "date = c_trunc DATE_STR_SIZE (fst (oe_today e))"
    and "date_ok date" and "day_numbered date n (so_world so)" and "oe_opendir e" and "n < 10 ^ 5"
  shows "opens date (so_world so) (so_world so') \<and>
    (\<exists>n'\<in>{n, Suc n}. day_numbered date n' (so_world so')) \<and>
    (rc = 0 \<longrightarrow> day_numbered date (Suc n) (so_world so') \<and> ws_segment_dir (so_ws so') = numbered_dir date n @ ''/'' \<and>
       ws_interrupt_idx (so_ws so') = int n)"
proof -
  obtain ws1 w2 where R: "opens date (so_world so) w2" "day_numbered date n w2" "ws_interrupt_idx ws1 = int n"
      "ws_date_dir ws1 = day_path date @ ''/''" "ws_segment_dir ws1 = numbered_dir date n @ ''/''"
      "open_today mts ops e cfg so = open_rest mts ops e cfg so ws1 w2"
    by (rule open_today_run [OF assms(2-6), where mts = mts and ops = ops and cfg = cfg])
  have "open_rest mts ops e cfg so ws1 w2 = (rc, so')" using assms(1) R(6) by simp
  from open_rest_numbered [OF this R(2) assms(3,6) R(3-5)] show ?thesis using opens_trans [OF R(1)] by simp
qed

text \<open>And when every call succeeds, the day opens.\<close>

definition open_works :: "open_env \<Rightarrow> bool" where
  "open_works e \<longleftrightarrow> oe_opendir e \<and> oe_mkseg e \<and> eo_open (oe_event e) \<and> eo_segments (oe_event e) \<and>
     eo_details (oe_event e) \<and> eo_index (oe_event e) \<and> oe_add e = SqlOk \<and> oe_malloc e"

lemma open_today_works:
  assumes "date = c_trunc DATE_STR_SIZE (fst (oe_today e))" and "date_ok date" and "day_numbered date n (so_world so)"
    and "n < 10 ^ 5" and "open_works e" and "pl_create ops \<noteq> None" and "ts_create mts \<noteq> None"
  shows "fst (open_today mts ops e cfg so) = 0"
proof -
  have E: "oe_opendir e" "oe_mkseg e" using assms(5) by (simp_all add: open_works_def)
  obtain ws1 w2 where R: "opens date (so_world so) w2" "day_numbered date n w2" "ws_interrupt_idx ws1 = int n"
      "ws_date_dir ws1 = day_path date @ ''/''" "ws_segment_dir ws1 = numbered_dir date n @ ''/''"
      "open_today mts ops e cfg so = open_rest mts ops e cfg so ws1 w2"
    by (rule open_today_run [OF assms(1-3) E(1) assms(4), where mts = mts and ops = ops and cfg = cfg])
  obtain rc3 w3 where m3: "make_dir (oe_mkseg e) (numbered_dir date n @ ''/'') w2 = (rc3, w3)" by fastforce
  have "fs_stat (numbered_dir date n) (w_fs w2) = StatMissing"
    using numbered_next_free [OF R(2)] R(2) by (simp add: fs_stat_def day_numbered_def)
  then have w3: "rc3 = 0" "w_events w3 = w_events w2" "fs_dir (w_fs w3) = fs_dir (w_fs w2)"
    using m3 E(2) make_dir_same [OF m3] by (auto simp: make_dir_def dir_key_def ensure_dir_def)
  obtain i w4 where f: "event_db_file (day_db date) w3 = (i, w4)" by fastforce
  have path: "event_db_path (ws_date_dir ws1) = day_db date" using event_db_path_day [OF assms(2)] by (simp add: R(4))
  have ev: "event_db_open (oe_event e) ws1 w3 = (0, ws1\<lparr>ws_event_db := Some i\<rparr>, w4)"
    using f assms(5) by (simp add: event_db_open_def db_open_rw_def db_exec_def path open_works_def)
  have fresh: "pad5 (int n) \<notin> set (fst (seg_table w4 i))" "0 \<le> snd (seg_table w4 i)"
  proof -
    have "fs_dir (w_fs w2) (day_db date) = Some i \<and> w4 = w3 \<or> seg_table w4 i = ([], 0)"
      using f w3(3) by (auto simp: event_db_file_def seg_table_def event_db_empty_def split: option.splits)
    moreover have "seg_table w3 i = seg_table w2 i" using w3(2) by (simp add: seg_table_def)
    ultimately have "set (fst (seg_table w4 i)) \<subseteq> (\<lambda>i. pad5 (int i)) ` {..<n} \<and> 0 \<le> snd (seg_table w4 i)"
      using R(2) by (auto simp: day_numbered_def)
    moreover have "pad5 (int n) \<notin> (\<lambda>i. pad5 (int i)) ` {..<n}" by (auto simp: pad5_inj)
    ultimately show "pad5 (int n) \<notin> set (fst (seg_table w4 i))" "0 \<le> snd (seg_table w4 i)" by blast+
  qed
  obtain seg w5 where a: "event_db_add_segment (oe_add e) (oe_start_time e) (ws1\<lparr>ws_event_db := Some i\<rparr>) w4 = (seg, w5)"
    by fastforce
  have "0 \<le> seg"
    using a fresh pad5_folder [OF assms(4)] R(3) assms(5)
    by (auto simp: event_db_add_segment_def Let_def seg_table_def open_works_def)
  then show ?thesis
    using m3 w3(1) ev a assms(5-7)
    by (auto simp: R(5,6) open_rest_def Let_def hls_create_def hls_media_create_def open_works_def split: prod.splits)
qed


section \<open>Sessions\<close>

lemma numbered_under: "under (day_path date) (numbered_dir date i @ r)" "under (day_path date) (day_db date)"
  by (simp_all add: under_append numbered_dir_def day_db_def)

lemma numbered_files_apart:
  assumes "i \<noteq> n"
  shows "\<not> prefix (numbered_dir date n @ ''/'') (numbered_dir date i @ CHR ''/'' # f)"
proof
  assume "prefix (numbered_dir date n @ ''/'') (numbered_dir date i @ CHR ''/'' # f)"
  then obtain r where "pad5 (int i) @ CHR ''/'' # f = pad5 (int n) @ CHR ''/'' # r"
    by (auto simp: prefix_def numbered_dir_def)
  then have "takeWhile (\<lambda>c. c \<noteq> CHR ''/'') (pad5 (int i) @ CHR ''/'' # f) = takeWhile (\<lambda>c. c \<noteq> CHR ''/'') (pad5 (int n) @ CHR ''/'' # r)"
    by simp
  moreover have "takeWhile (\<lambda>c. c \<noteq> CHR ''/'') (pad5 (int j) @ CHR ''/'' # x) = pad5 (int j)" for j x
    using pad5_no_slash [of j] by (subst takeWhile_append2) auto
  ultimately show False using assms pad5_inj [of "int i" "int n"] by simp
qed

lemma numbered_file_not_db: "numbered_dir date i @ f \<noteq> day_db date"
proof -
  obtain c cs where "pad5 (int i) = c # cs" "is_digit c" using pad5_digits [of "int i"] by (cases "pad5 (int i)") auto
  then show ?thesis by (auto simp: numbered_dir_def day_db_def is_digit_def)
qed

lemma not_in_segment:
  "\<not> prefix (numbered_dir date n @ ''/'') (numbered_dir date i)" "\<not> prefix (numbered_dir date n @ ''/'') (day_db date)"
proof -
  show "\<not> prefix (numbered_dir date n @ ''/'') (numbered_dir date i)"
  proof
    assume "prefix (numbered_dir date n @ ''/'') (numbered_dir date i)"
    then have "CHR ''/'' \<in> set (pad5 (int i))" by (auto simp: prefix_def numbered_dir_def)
    then show False using pad5_no_slash by simp
  qed
  obtain c cs where "pad5 (int n) = c # cs" "is_digit c" using pad5_digits [of "int n"] by (cases "pad5 (int n)") auto
  then show "\<not> prefix (numbered_dir date n @ ''/'') (day_db date)"
    by (auto simp: numbered_dir_def day_db_def prefix_def is_digit_def)
qed

lemma numbered_session:
  assumes "session_keeps date (numbered_dir date n @ ''/'') w w'" and "day_numbered date k w"
  shows "day_numbered date k w'"
proof -
  have same: "fs_dir (w_fs w') p = fs_dir (w_fs w) p" if "under (day_path date) p" "\<not> prefix (numbered_dir date n @ ''/'') p" for p
    using assms(1) that by (auto simp: session_keeps_def same_path_def other_path_def)
  have "fs_dir (w_fs w') (numbered_dir date i) = fs_dir (w_fs w) (numbered_dir date i)" for i
    using same [OF numbered_under(1) [of date i "[]", simplified] not_in_segment(1)] .
  moreover have "fs_dir (w_fs w') (day_db date) = fs_dir (w_fs w) (day_db date)"
    by (rule same [OF numbered_under(2) not_in_segment(2)])
  ultimately show ?thesis using assms by (simp add: session_keeps_def day_numbered_def)
qed

text \<open>What is committed on the day, outside of the segment directory \<open>n\<close> and the database.\<close>

definition rest_kept :: "string \<Rightarrow> nat \<Rightarrow> world \<Rightarrow> world \<Rightarrow> bool" where
  "rest_kept date n w w' \<longleftrightarrow> (\<forall>p c. under (day_path date) p \<longrightarrow> \<not> prefix (numbered_dir date n @ ''/'') p \<longrightarrow> p \<noteq> day_db date \<longrightarrow>
     committed (w_fs w) p c \<longrightarrow> committed (w_fs w') p c)"

lemma rest_kept_opens: "opens date w w' \<Longrightarrow> rest_kept date n w w'"
  using card.committed_same by (auto simp: rest_kept_def opens_def)

lemma rest_kept_session: "session_keeps date (numbered_dir date n @ ''/'') w w' \<Longrightarrow> rest_kept date n w w'"
  using card.committed_same by (auto simp: rest_kept_def session_keeps_def)

lemma rest_kept_trans: "rest_kept date n a b \<Longrightarrow> rest_kept date n b c \<Longrightarrow> rest_kept date n a c"
  by (simp add: rest_kept_def)

text \<open>An opened day is a session's start.\<close>

text \<open>
  One start of the daemon on the day: a boot that fails, or a boot, any frames and the shutdown. Files and
  databases may fail at every step; the numbering needs the directory to be readable.
\<close>

inductive day_session :: "'ts mpeg_ts \<Rightarrow> 'pl m3u8_ops \<Rightarrow> int \<Rightarrow> ms_config_t \<Rightarrow> string \<Rightarrow> world \<Rightarrow> world \<Rightarrow> bool"
  for mts ops avtype cfg date where
  recorded: "storage_init mts ops avtype create_ok e cfg so0 = (0, m) \<Longrightarrow>
     date = c_trunc DATE_STR_SIZE (fst (oe_today (be_open e))) \<Longrightarrow> oe_opendir (be_open e) \<Longrightarrow>
     (\<And>k. session_env (snd (oe_today (be_open e))) (fe k)) \<Longrightarrow> 0 < c \<Longrightarrow>
     writer_run (writer_body mts ops avtype fe cfg) c evs (sm_writer m) = (t, wr) \<Longrightarrow> fq_depth (t_q t) < fuel \<Longrightarrow>
     storage_stop mts ops avtype fe xe cfg fuel (t_q t) (m\<lparr>sm_writer := wr\<rparr>) = Some (q', m') \<Longrightarrow>
     day_session mts ops avtype cfg date (so_world so0) (so_world (wr_so (sm_writer m')))"
| failed: "storage_init mts ops avtype create_ok e cfg so0 = (rc, m) \<Longrightarrow> rc \<noteq> 0 \<Longrightarrow>
     date = c_trunc DATE_STR_SIZE (fst (oe_today (be_open e))) \<Longrightarrow> oe_opendir (be_open e) \<Longrightarrow>
     day_session mts ops avtype cfg date (so_world so0) (so_world (wr_so (sm_writer m)))"

definition session_next :: "string \<Rightarrow> nat \<Rightarrow> world \<Rightarrow> world \<Rightarrow> bool" where
  "session_next date n w w' \<longleftrightarrow> day_safe date w' \<and> (\<exists>n'\<in>{n, Suc n}. day_numbered date n' w') \<and> rest_kept date n w w'"

text \<open>After the day is open, a run of steps that stay in the session.\<close>

lemma session_next_opened:
  assumes "open_today mts ops e cfg so = (0, so1)" and "date = c_trunc DATE_STR_SIZE (fst (oe_today e))" and "date_ok date"
    and "day_safe date (so_world so)" and "day_numbered date n (so_world so)" and "oe_opendir e" and "n < 10 ^ 5"
    and "stays so1 so2"
  shows "session_next date n (so_world so) (so_world so2)"
proof -
  note N = open_today_numbered [OF assms(1,2,3,5,6,7)]
  note S = open_today_session [OF assms(1-4)]
  have keeps: "session_keeps date (numbered_dir date n @ ''/'') (so_world so1) (so_world so2)"
    using assms(8) S N by (simp add: stays_def)
  have "day_numbered date (Suc n) (so_world so2)" using numbered_session [OF keeps] N by simp
  moreover have "rest_kept date n (so_world so) (so_world so2)"
    using rest_kept_trans [OF rest_kept_opens rest_kept_session [OF keeps]] N by blast
  ultimately show ?thesis using keeps by (simp add: session_next_def session_keeps_def)
qed

lemma ensure_stays:
  assumes "date_ok (ws_date ws)" and "ws_date ws = ws_date (so_ws so)" and "ws_segment_dir ws = ws_segment_dir (so_ws so)"
  shows "stays so (on_world (meta_db_ensure_day sql) (so\<lparr>so_ws := ws\<rparr>))"
proof -
  have "w_fs (meta_db_ensure_day sql ws w) = w_fs w" for w by (simp add: meta_db_ensure_day_def)
  then show ?thesis
    using ensure_safe [of _ _ ws sql] assms
    by (simp add: stays_def session_keeps_def in_session_def day_subdirs_def on_world_def same_path_def)
qed


lemma session_recorded:
  assumes "storage_init mts ops avtype create_ok e cfg so0 = (0, m)" and "date = c_trunc DATE_STR_SIZE (fst (oe_today (be_open e)))"
    and "oe_opendir (be_open e)" and "\<And>k. session_env (snd (oe_today (be_open e))) (fe k)" and "0 < c"
    and "writer_run (writer_body mts ops avtype fe cfg) c evs (sm_writer m) = (t, wr)" and "fq_depth (t_q t) < fuel"
    and "storage_stop mts ops avtype fe xe cfg fuel (t_q t) (m\<lparr>sm_writer := wr\<rparr>) = Some (q', m')"
    and "date_ok date" and "day_safe date (so_world so0)" and "day_numbered date n (so_world so0)" and "n < 10 ^ 5"
  shows "session_next date n (so_world so0) (so_world (wr_so (sm_writer m')))"
proof -
  let ?body = "writer_body mts ops avtype fe cfg" and ?fs = "t_out t @ fq_items (t_q t)" and ?so = "wr_so (sm_writer m)"
  obtain so1 where o: "open_today mts ops (be_open e) cfg (so0\<lparr>so_ws := ws_zero\<rparr>) = (0, so1)"
      and so: "?so = on_world (meta_db_ensure_day (be_ensure e)) (so1\<lparr>so_ws := (so_ws so1)\<lparr>ws_meta_db := True\<rparr>\<rparr>)"
    using storage_init_run [OF assms(1)] by metis
  have S: "in_session so1 \<and> ws_date (so_ws so1) = date"
    by (rule open_today_session [OF o assms(2,9)]) (use assms(10) in simp)
  have s1: "stays so1 ?so" unfolding so by (rule ensure_stays) (use S assms(9) in simp_all)
  have "stays ?so (wr_so (foldl ?body (sm_writer m) ?fs))"
    using session_run_stays [OF stays_session [OF s1], of "fe"] S storage_init_day [OF assms(1,9,10,2)] assms(4)
    by (simp del: foldl_append)
  note s2 = stays_trans [OF s1 stays_trans [OF this writer_close_stays]]
  have "wr_so (sm_writer m') = writer_close mts ops avtype xe (wr_so (foldl ?body (sm_writer m) ?fs))"
    using storage_stop_drains [OF assms(1,5,6,7), of xe] assms(8) by auto
  with session_next_opened [OF o assms(2,9) _ _ assms(3,12) s2] assms(10,11) show ?thesis by simp
qed

lemma session_failed:
  assumes "storage_init mts ops avtype create_ok e cfg so0 = (rc, m)" and "rc \<noteq> 0"
    and "date = c_trunc DATE_STR_SIZE (fst (oe_today (be_open e)))" and "oe_opendir (be_open e)"
    and "date_ok date" and "day_safe date (so_world so0)" and "day_numbered date n (so_world so0)" and "n < 10 ^ 5"
  shows "session_next date n (so_world so0) (so_world (wr_so (sm_writer m)))"
proof (cases create_ok)
  case False
  then show ?thesis
    using assms(1,6,7) by (auto simp: storage_init_def session_next_def rest_kept_def)
next
  case True
  let ?so = "so0\<lparr>so_ws := ws_zero\<rparr>"
  obtain rc1 so1 where o: "open_today mts ops (be_open e) cfg ?so = (rc1, so1)" by fastforce
  have pre: "day_safe date (so_world ?so)" "day_numbered date n (so_world ?so)" using assms(6,7) by simp_all
  note N = open_today_numbered [OF o assms(3,5) pre(2) assms(4,8)]
  show ?thesis
  proof (cases "rc1 = 0")
    case False
    then have "wr_so (sm_writer m) = so1"
      using assms(1) True o by (auto simp: storage_init_def writer_boot_def Let_def split: prod.splits if_splits)
    moreover have "day_safe date (so_world so1)" using pre(1) open_today_meta [OF o] by (simp add: day_safe_def)
    ultimately show ?thesis using N rest_kept_opens by (auto simp: session_next_def)
  next
    case ok: True
    obtain rc2 ws2 where m: "meta_db_init (be_meta_open e) (be_meta_exec e) (so_ws so1) = (rc2, ws2)" by fastforce
    have ws2: "ws_date ws2 = ws_date (so_ws so1)" "ws_segment_dir ws2 = ws_segment_dir (so_ws so1)"
      using m by (auto simp: meta_db_init_def db_open_rw_def Let_def split: if_splits)
    let ?f = "hls_flush_and_destroy mts ops (be_flush e) (be_realloc e) avtype (so1\<lparr>so_ws := ws2\<rparr>)"
    have m': "wr_so (sm_writer m) = ?f\<lparr>so_ws := event_db_close (so_ws ?f)\<rparr>"
      using assms(1,2) True o ok m by (auto simp: storage_init_def writer_boot_def Let_def split: if_splits)
    have "stays so1 (so1\<lparr>so_ws := ws2\<rparr>)" by (rule stays_same) (simp_all add: ws2)
    then have s: "stays so1 (wr_so (sm_writer m))"
      unfolding m' by (rule stays_trans [OF stays_trans [OF _ flush_stays] close_db_stays])
    have o0: "open_today mts ops (be_open e) cfg ?so = (0, so1)" using o ok by simp
    show ?thesis using session_next_opened [OF o0 assms(3,5) pre assms(4,8) s] by simp
  qed
qed

lemma day_session_step:
  assumes "day_session mts ops avtype cfg date w w'" and "date_ok date" and "day_safe date w" and "day_numbered date n w"
    and "n < 10 ^ 5"
  shows "session_next date n w w'"
  using assms(1)
proof cases
  case (recorded create_ok e so0 m fe c evs t wr fuel xe q' m')
  have pre: "day_safe date (so_world so0)" "day_numbered date n (so_world so0)" using assms(3,4) recorded(1) by simp_all
  show ?thesis using session_recorded [OF recorded(3-10) assms(2) pre assms(5)] recorded(1,2) by simp
next
  case (failed create_ok e so0 rc m)
  have pre: "day_safe date (so_world so0)" "day_numbered date n (so_world so0)" using assms(3,4) failed(1) by simp_all
  show ?thesis using session_failed [OF failed(3-6) assms(2) pre assms(5)] failed(1,2) by simp
qed



lemma storage_init_works:
  assumes "date = c_trunc DATE_STR_SIZE (fst (oe_today (be_open e)))" and "date_ok date" and "day_numbered date n (so_world so0)"
    and "n < 10 ^ 5" and "open_works (be_open e)" and "be_meta_open e" and "be_meta_exec e"
    and "pl_create ops \<noteq> None" and "ts_create mts \<noteq> None"
  shows "\<exists>m. storage_init mts ops avtype True e cfg so0 = (0, m) \<and>
    ws_segment_dir (so_ws (wr_so (sm_writer m))) = numbered_dir date n @ ''/'' \<and>
    day_numbered date (Suc n) (so_world (wr_so (sm_writer m))) \<and>
    (\<forall>p. p \<noteq> day_db date \<longrightarrow> same_path (w_fs (so_world so0)) p (w_fs (so_world (wr_so (sm_writer m)))))"
proof -
  let ?so = "so0\<lparr>so_ws := ws_zero\<rparr>"
  have n: "day_numbered date n (so_world ?so)" using assms(3) by simp
  have "fst (open_today mts ops (be_open e) cfg ?so) = 0" by (rule open_today_works [OF assms(1,2) n assms(4,5,8,9)])
  then obtain so1 where o: "open_today mts ops (be_open e) cfg ?so = (0, so1)" by (metis prod.collapse)
  have "oe_opendir (be_open e)" using assms(5) by (simp add: open_works_def)
  note N = open_today_numbered [OF o assms(1,2) n this assms(4)]
  let ?ws = "(so_ws so1)\<lparr>ws_meta_db := True\<rparr>"
  have "w_fs (meta_db_ensure_day sql ws w) = w_fs w" for sql w and ws :: "('a, 'b) writer_state_t"
    by (simp add: meta_db_ensure_day_def)
  moreover have "storage_init mts ops avtype True e cfg so0
      = (0, \<lparr>sm_started = True, sm_writer = \<lparr>wr_so = on_world (meta_db_ensure_day (be_ensure e)) (so1\<lparr>so_ws := ?ws\<rparr>),
             wr_frames = 0, wr_freed = []\<rparr>\<rparr>)"
    using o assms(6,7) by (simp add: storage_init_def writer_boot_def Let_def meta_db_init_def db_open_rw_def db_exec_def)
  ultimately show ?thesis using N by (simp add: day_numbered_def day_subdirs_def on_world_def opens_def)
qed


text \<open>A card with one session on it.\<close>

definition demo_card :: world where
  "demo_card = \<lparr>w_fs = fs_empty\<lparr>fs_dirs := [numbered_dir demo_today 0, day_path demo_today],
       fs_dir := [numbered_dir demo_today 0 @ ''/00000.ts'' \<mapsto> 0],
       fs_disk := (\<lambda>p. if p = numbered_dir demo_today 0 @ ''/00000.ts'' then [Some 0] else [None]),
       fs_data := (\<lambda>i. [9]), fs_sync := (\<lambda>i. Some [9]), fs_next := 1\<rparr>,
     w_meta = \<lparr>md_rows = [], md_seq = 0\<rparr>, w_events = (\<lambda>i. event_db_empty)\<rparr>"

lemma demo_card_numbered: "day_numbered demo_today 1 demo_card" "day_safe demo_today demo_card"
proof -
  have p: "numbered_dir demo_today i \<noteq> numbered_dir demo_today 0 @ ''/00000.ts''" for i
    using not_in_segment(1) [of demo_today 0 i] by (auto simp: prefix_def)
  have d: "day_db demo_today \<noteq> numbered_dir demo_today 0 @ ''/00000.ts''" using numbered_file_not_db by metis
  have "parent_dir (day_path demo_today) \<noteq> Some (day_path demo_today)"
    using day_dir_elsewhere(2) [OF demo_dates(2)] by (simp add: dir_key_def)
  then have sub: "day_subdirs demo_today demo_card = [numbered_dir demo_today 0]"
    by (simp add: day_subdirs_def demo_card_def numbered_parent)
  show "day_numbered demo_today 1 demo_card"
    unfolding day_numbered_def sub using p d by (auto simp: demo_card_def)
  show "day_safe demo_today demo_card"
    by (simp add: day_safe_def demo_card_def meta_inv_def dates_ok_def meta_known_def meta_pending_def pending_dates_def)
qed

lemma demo_boot_works:
  "demo_today = c_trunc DATE_STR_SIZE (fst (oe_today (be_open demo_boot)))" "open_works (be_open demo_boot)"
  "be_meta_open demo_boot" "be_meta_exec demo_boot" "pl_create demo_ops \<noteq> None" "ts_create toy_ts \<noteq> None"
  using demo_dates(2) by (simp_all add: demo_boot_def demo_open_def open_works_def demo_ops_def toy_ts_def)



end
