(* ===== verification/MotionLog.thy ===== *)
theory MotionLog
  imports Session
begin

text \<open>
What a session writes into the databases. \<open>motion_log\<close> is the reference: from the rate and the clock of
each recorded frame it computes the frames that \<open>ingest_frame\<close> takes for motion events, with the debounce
time between them; its soundness, its spacing and its completeness are proved by induction. \<open>booked\<close>
is the invariant that ties the counters of the writer and the rows of the two databases to the log;
the segmenter's handler keeps it (\<open>segment_handler\<close>, interpreted), and so does each step of a frame.\<close>

section \<open>The log of a run of frames\<close>

fun motion_log :: "int \<Rightarrow> int \<Rightarrow> int \<Rightarrow> int \<Rightarrow> (int \<times> int) list \<Rightarrow> (int \<times> int) list" where
  "motion_log hi gap last_ms n [] = []"
| "motion_log hi gap last_ms n ((fps, now) # cs) =
     (if fps = hi \<and> gap \<le> now - last_ms then (n + 1, now) # motion_log hi gap now (n + 1) cs
      else motion_log hi gap last_ms (n + 1) cs)"

definition events_apart :: "int \<Rightarrow> (int \<times> int) list \<Rightarrow> bool" where
  "events_apart gap = successively (\<lambda>a b. fst a < fst b \<and> gap \<le> snd b - snd a)"

lemma motion_log_sound:
  "(k, t) \<in> set (motion_log hi gap last_ms n cs) \<Longrightarrow> n < k \<and> k \<le> n + int (length cs) \<and> cs ! nat (k - n - 1) = (hi, t)"
proof (induction hi gap last_ms n cs rule: motion_log.induct)
  case (2 hi gap last_ms n fps now cs)
  have rest: "n + 1 < k \<and> k \<le> n + 1 + int (length cs) \<and> cs ! nat (k - (n + 1) - 1) = (hi, t)" if "\<not> (k = n + 1 \<and> t = now \<and> fps = hi)"
    using 2 that by (auto split: if_splits)
  show ?case
  proof (cases "k = n + 1 \<and> t = now \<and> fps = hi")
    case False
    have "nat (k - n - 1) = Suc (nat (k - (n + 1) - 1))" using rest [OF False] by (simp add: Suc_nat_eq_nat_zadd1)
    then show ?thesis using rest [OF False] by simp
  qed simp
qed simp

lemma motion_log_apart: "events_apart gap ((n, last_ms) # motion_log hi gap last_ms n cs)"
proof (induction hi gap last_ms n cs rule: motion_log.induct)
  case (2 hi gap last_ms n fps now cs)
  show ?case
  proof (cases "fps = hi \<and> gap \<le> now - last_ms")
    case True
    then show ?thesis using 2 by (simp add: events_apart_def)
  next
    case False
    then have "events_apart gap ((n + 1, last_ms) # motion_log hi gap last_ms (n + 1) cs)" using 2 by blast
    then show ?thesis using False by (cases "motion_log hi gap last_ms (n + 1) cs") (auto simp: events_apart_def)
  qed
qed (simp add: events_apart_def)

lemma motion_log_complete:
  "k < length cs \<Longrightarrow> fst (cs ! k) = hi \<Longrightarrow> \<exists>(m, t) \<in> set ((n, last_ms) # motion_log hi gap last_ms n cs).
     m = n + 1 + int k \<or> m \<le> n + int k \<and> snd (cs ! k) - t < gap"
proof (induction hi gap last_ms n cs arbitrary: k rule: motion_log.induct)
  case (2 hi gap last_ms n fps now cs)
  show ?case
  proof (cases k)
    case 0
    then show ?thesis using 2 by auto
  next
    case (Suc j)
    then have j: "j < length cs" "fst (cs ! j) = hi" using "2.prems" by simp_all
    show ?thesis
    proof (cases "fps = hi \<and> gap \<le> now - last_ms")
      case True
      then show ?thesis using "2.IH"(1) [OF True j] Suc by (auto simp: ac_simps)
    next
      case False
      then show ?thesis using "2.IH"(2) [OF False j] Suc by (auto simp: ac_simps)
    qed
  qed
qed simp

section \<open>The bookkeeping of a session\<close>

text \<open>The events of the day's database, and its segments without the total of one.\<close>

definition event_pairs :: "ino \<Rightarrow> world \<Rightarrow> (int \<times> int) list" where
  "event_pairs i w = map (\<lambda>r. (er_video_id r, er_motion_frame r)) (ed_events (w_events w i))"

definition totals :: "int \<Rightarrow> int \<Rightarrow> seg_row list \<Rightarrow> seg_row list" where
  "totals seg n rs = map (\<lambda>r. if sr_id r = seg then r\<lparr>sr_total_frames := n\<rparr> else r) rs"

lemma totals_again [simp]: "totals seg n (totals seg m rs) = totals seg n rs"
  by (simp add: totals_def)

lemma totals_cong: "totals seg 0 rs = totals seg 0 rs' \<Longrightarrow> totals seg n rs = totals seg n rs'"
  by (metis totals_again)

text \<open>What the segmenter and its handler leave alone.\<close>

definition same_book :: "('ts, 'pl) storage \<Rightarrow> ('ts, 'pl) storage \<Rightarrow> bool" where
  "same_book so so' \<longleftrightarrow> ws_date (so_ws so') = ws_date (so_ws so) \<and> ws_event_db (so_ws so') = ws_event_db (so_ws so) \<and>
     ws_current_segment_id (so_ws so') = ws_current_segment_id (so_ws so) \<and> ws_meta_db (so_ws so') = ws_meta_db (so_ws so) \<and>
     ws_motion_count (so_ws so') = ws_motion_count (so_ws so) \<and> ws_frame_count (so_ws so') = ws_frame_count (so_ws so) \<and>
     ws_last_motion_ms (so_ws so') = ws_last_motion_ms (so_ws so) \<and>
     ws_seen_keyframe (so_ws so') = ws_seen_keyframe (so_ws so) \<and>
     w_events (so_world so') = w_events (so_world so) \<and>
     day_rows (ws_date (so_ws so)) (w_meta (so_world so')) = day_rows (ws_date (so_ws so)) (w_meta (so_world so))"

lemma same_book_refl [simp]: "same_book so so"
  by (simp add: same_book_def)

lemma same_book_trans: "same_book a b \<Longrightarrow> same_book b c \<Longrightarrow> same_book a c"
  by (simp add: same_book_def)

lemma hls_cb_same_book: "same_book so (snd (hls_cb ops e data pts dts duration so))"
proof -
  obtain rc so' where run: "hls_cb ops e data pts dts duration so = (rc, so')" by fastforce
  then show ?thesis
    by (auto simp: hls_cb_def same_book_def Let_def storage_fault_def split: if_splits prod.splits option.splits)
qed

interpretation book: segment_handler "hls_cb ops e" same_book for ops e
  by unfold_locales (simp, rule hls_cb_same_book)

lemma writer_input_same_book: "same_book so (writer_input mts ops e r avtype data n ms key so)"
proof -
  have "same_book so (so'\<lparr>so_ws := (so_ws so')\<lparr>ws_hls := h\<rparr>\<rparr>)"
    if "hls_media_input mts (hls_cb ops e) r avtype data n ms ms key hls so = Some (rc, hls', so')" for hls rc hls' so' h
    using book.input_keeps [OF that] by (simp add: same_book_def)
  then show ?thesis by (auto simp: writer_input_def storage_fault_def same_book_def split: option.splits)
qed

lemma cleanup_same_book:
  assumes "in_session so" and "session_env day e"
  shows "same_book so (check_and_cleanup (fe_cleanup e) cfg so)"
proof -
  have ctx: "date_ok (ws_date (so_ws so))" "day_safe (ws_date (so_ws so)) (so_world so)"
    using assms(1) by (simp_all add: in_session_def day_dir_def)
  have env: "\<forall>i. env_walk_ok (ce_tasks1 (fe_cleanup e) i) \<and> env_walk_ok (ce_tasks2 (fe_cleanup e) i)"
    using assms(2) by (simp add: session_env_def)
  have "spared (ws_date (so_ws so)) (so_world so) (so_world (check_and_cleanup (fe_cleanup e) cfg so))"
    by (rule cleanup_spared [OF ctx(2,1) env])
  then show ?thesis
    using check_and_cleanup_keeps [of "fe_cleanup e" cfg so] by (auto simp: spared_def same_book_def)
qed

lemma flush_same_book: "same_book so (hls_flush_and_destroy mts ops e r avtype so)"
proof -
  have "same_book so (writer_input mts ops e r avtype None 0 0 False so)" by (rule writer_input_same_book)
  then show ?thesis by (simp add: hls_flush_and_destroy_def Let_def same_book_def split: option.split)
qed

text \<open>The state of the bookkeeping after \<open>n\<close> recorded frames whose log is \<open>evs\<close>.\<close>

definition day_count :: "string \<Rightarrow> int \<Rightarrow> meta_db \<Rightarrow> bool" where
  "day_count date n db \<longleftrightarrow> day_rows date db \<noteq> [] \<and> (\<forall>r \<in> set (day_rows date db). mr_motion_count r = n)"

definition booked :: "world \<Rightarrow> ino \<Rightarrow> int \<Rightarrow> int \<Rightarrow> int \<Rightarrow> (int \<times> int) list \<Rightarrow> ('ts, 'pl) storage \<Rightarrow> bool" where
  "booked w0 i seg n last_ms evs so \<longleftrightarrow> ws_event_db (so_ws so) = Some i \<and> ws_current_segment_id (so_ws so) = seg \<and>
     ws_meta_db (so_ws so) \<and> ws_frame_count (so_ws so) = n \<and> ws_motion_count (so_ws so) = int (length evs) \<and>
     ws_last_motion_ms (so_ws so) = last_ms \<and>
     event_pairs i (so_world so) = event_pairs i w0 @ map (\<lambda>(k, t). (seg, k)) evs \<and>
     totals seg 0 (ed_segments (w_events (so_world so) i)) = totals seg 0 (ed_segments (w_events w0 i)) \<and>
     (evs \<noteq> [] \<longrightarrow> day_count (ws_date (so_ws so)) (int (length evs)) (w_meta (so_world so)))"

lemma booked_same: "booked w0 i seg n l evs so \<Longrightarrow> same_book so so' \<Longrightarrow> booked w0 i seg n l evs so'"
  by (simp add: booked_def same_book_def event_pairs_def day_count_def)

text \<open>SQL statements that succeed.\<close>

definition sql_works :: "frame_env \<Rightarrow> bool" where
  "sql_works e \<longleftrightarrow> fe_motion e = SqlOk \<and> fe_upsert e = SqlOk"

lemma day_rows_count:
  "day_rows d (db\<lparr>md_rows := map (\<lambda>r. if mr_date r = d then r\<lparr>mr_motion_count := n\<rparr> else r) (md_rows db)\<rparr>)
    = map (\<lambda>r. r\<lparr>mr_motion_count := n\<rparr>) (day_rows d db)"
proof -
  have "filter (\<lambda>r. mr_date r = d) (map (\<lambda>r. if mr_date r = d then r\<lparr>mr_motion_count := n\<rparr> else r) rs)
      = map (\<lambda>r. r\<lparr>mr_motion_count := n\<rparr>) (filter (\<lambda>r. mr_date r = d) rs)" for rs
    by (induction rs) auto
  then show ?thesis by (simp add: day_rows_def)
qed

lemma day_rows_insert: "\<not> meta_has d db \<Longrightarrow> day_rows d (meta_insert d n st db)
    = [\<lparr>mr_id = md_seq db + 1, mr_date = d, mr_motion_count = n, mr_state = st\<rparr>]"
  by (auto simp: day_rows_def meta_insert_def meta_has_def filter_empty_conv)

lemma upsert_counts:
  "ws_meta_db ws \<Longrightarrow> day_count (ws_date ws) n (w_meta (meta_db_upsert_motion_count SqlOk ws n w))"
  by (auto simp: meta_db_upsert_motion_count_def day_count_def day_rows_count day_rows_insert meta_has_known day_rows_known)

lemma upsert_events [simp]: "w_events (meta_db_upsert_motion_count sql ws n w) = w_events w"
  by (simp add: meta_db_upsert_motion_count_def)

lemma note_motion_booked:
  assumes "booked w0 i seg n l evs so" and "0 \<le> seg" and "sql_works e"
  shows "if ivs_motion_debounce_ms (c_ivs cfg) \<le> fe_now e - l
    then booked w0 i seg n (fe_now e) (evs @ [(n, fe_now e)]) (note_motion e cfg so) else note_motion e cfg so = so"
proof (cases "ivs_motion_debounce_ms (c_ivs cfg) \<le> fe_now e - l")
  case True
  let ?so1 = "so\<lparr>so_ws := (so_ws so)\<lparr>ws_motion_count := ws_motion_count (so_ws so) + 1\<rparr>\<rparr>"
  let ?so2 = "on_world (\<lambda>ws. event_db_add_motion SqlOk ws (ws_current_segment_id ws) (ws_frame_count ws)) ?so1"
  let ?so3 = "on_world (\<lambda>ws. meta_db_upsert_motion_count SqlOk ws (ws_motion_count ws)) ?so2"
  have run: "note_motion e cfg so = ?so3\<lparr>so_ws := (so_ws ?so3)\<lparr>ws_last_motion_ms := fe_now e\<rparr>\<rparr>"
    using True assms by (simp add: note_motion_def booked_def sql_works_def Let_def)
  have "day_count (ws_date (so_ws ?so2)) (int (length evs) + 1) (w_meta (so_world ?so3))"
    using upsert_counts [of "so_ws ?so2" "int (length evs) + 1" "so_world ?so2"] assms(1)
    by (simp add: booked_def on_world_def)
  then show ?thesis
    using True assms(1,2) unfolding run
    by (simp add: booked_def on_world_def event_db_add_motion_def event_pairs_def Let_def add.commute)
next
  case False
  then show ?thesis using assms(1) by (simp add: note_motion_def booked_def)
qed

lemma update_total_run:
  assumes "ws_event_db ws = Some i" and "0 \<le> ws_current_segment_id ws"
  shows "w_events (event_db_update_total_frames SqlOk ws w) = (w_events w)(i := (w_events w i)
     \<lparr>ed_segments := totals (ws_current_segment_id ws) (ws_frame_count ws) (ed_segments (w_events w i))\<rparr>)"
  using assms by (simp add: event_db_update_total_frames_def totals_def Let_def)

lemma update_total_booked:
  "booked w0 i seg n l evs so \<Longrightarrow> booked w0 i seg n l evs (on_world (event_db_update_total_frames sql) so)"
  using update_total_run [of "so_ws so" i "so_world so"]
  by (cases "sql = SqlOk \<and> 0 \<le> seg") (auto simp: booked_def on_world_def event_db_update_total_frames_def event_pairs_def Let_def)

lemma fault_same_book: "same_book so (storage_fault so)"
  by (simp add: same_book_def storage_fault_def)

definition motion_at :: "ms_config_t \<Rightarrow> int \<Rightarrow> frame_env \<Rightarrow> bool" where
  "motion_at cfg l e \<longleftrightarrow> fe_fps e = ivs_fps_high (c_ivs cfg) \<and> ivs_motion_debounce_ms (c_ivs cfg) \<le> fe_now e - l"

lemma note_frame_booked:
  assumes "booked w0 i seg n l evs so" and "0 \<le> seg" and "sql_works e"
  shows "booked w0 i seg n (if motion_at cfg l e then fe_now e else l)
    (evs @ (if motion_at cfg l e then [(n, fe_now e)] else [])) (note_frame e cfg so)"
proof -
  define so1 where "so1 = so\<lparr>so_ws := (so_ws so)\<lparr>ws_last_fps := fe_fps e\<rparr>\<rparr>"
  have 1: "booked w0 i seg n l evs so1" using assms(1) by (simp add: booked_def so1_def)
  show ?thesis
  proof (cases "fe_fps e = ivs_fps_high (c_ivs cfg)")
    case True
    let ?so2 = "note_motion e cfg so1"
    have 2: "booked w0 i seg n (if motion_at cfg l e then fe_now e else l)
        (evs @ (if motion_at cfg l e then [(n, fe_now e)] else [])) ?so2"
      using note_motion_booked [OF 1 assms(2,3), of cfg] 1 True by (simp add: motion_at_def split: if_splits)
    have "note_frame e cfg so \<in> {?so2, storage_fault ?so2, on_world (event_db_update_total_frames (fe_update e)) ?so2}"
      using True by (simp add: note_frame_def so1_def Let_def split: option.split)
    then consider "note_frame e cfg so = ?so2" | "note_frame e cfg so = storage_fault ?so2"
      | "note_frame e cfg so = on_world (event_db_update_total_frames (fe_update e)) ?so2" by blast
    then show ?thesis by cases (simp_all only: 2 booked_same [OF 2 fault_same_book] update_total_booked [OF 2])
  next
    case False
    then show ?thesis using update_total_booked [OF 1] by (simp add: note_frame_def so1_def motion_at_def Let_def)
  qed
qed

section \<open>Frame by frame\<close>

lemma note_frame_seen [simp]: "ws_seen_keyframe (so_ws (note_frame e cfg so)) = ws_seen_keyframe (so_ws so)"
  by (simp add: note_frame_def note_motion_def storage_fault_def Let_def split: option.splits)

lemma ingest_booked:
  assumes "booked w0 i seg n l evs so" and "in_session so" and "session_env (ws_day_of_year (so_ws so)) e"
    and "ws_seen_keyframe (so_ws so) \<or> f_is_key f" and "0 \<le> seg" and "sql_works e"
  shows "booked w0 i seg (n + 1) (if motion_at cfg l e then fe_now e else l)
      (evs @ (if motion_at cfg l e then [(n + 1, fe_now e)] else [])) (ingest_frame mts ops avtype e cfg f so) \<and>
    ws_seen_keyframe (so_ws (ingest_frame mts ops avtype e cfg f so))"
proof -
  define so1 where "so1 = so\<lparr>so_ws := (so_ws so)\<lparr>ws_seen_keyframe := True, ws_pts_ms := c_quot (f_pts_us f) 1000\<rparr>\<rparr>"
  define so2 where "so2 = writer_input mts ops (fe_cb e) (fe_realloc e) avtype (f_data f) (f_len f) (c_quot (f_pts_us f) 1000)
    (f_is_key f) so1"
  define so3 where "so3 = so2\<lparr>so_ws := (so_ws so2)\<lparr>ws_frame_count := ws_frame_count (so_ws so2) + 1\<rparr>\<rparr>"
  let ?n = "note_frame e cfg so3"
  have b1: "booked w0 i seg n l evs so1" using assms(1) by (simp add: booked_def so1_def)
  have 2: "same_book so1 so2" unfolding so2_def by (rule writer_input_same_book)
  have "booked w0 i seg (n + 1) l evs so3" using booked_same [OF b1 2] by (simp add: booked_def so3_def)
  note b3 = note_frame_booked [OF this assms(5,6), of cfg]
  have "stays so so1" by (rule stays_same) (simp_all add: so1_def)
  moreover have "stays so1 so2" unfolding so2_def by (rule writer_input_stays)
  moreover have "stays so2 so3" by (rule stays_same) (simp_all add: so3_def)
  ultimately have "in_session so3" using assms(2) by (metis stays_session)
  moreover have "stays so3 ?n" using note_frame_stays [OF calculation] .
  ultimately have "in_session ?n" by (metis stays_session)
  then have 4: "same_book ?n (check_and_cleanup (fe_cleanup e) cfg ?n)" by (rule cleanup_same_book [OF _ assms(3)])
  have "ws_seen_keyframe (so_ws ?n)" using 2 by (simp add: so3_def same_book_def so1_def)
  moreover have "ingest_frame mts ops avtype e cfg f so = check_and_cleanup (fe_cleanup e) cfg ?n"
    using assms(3,4) by (auto simp: ingest_frame_def session_env_def Let_def so1_def so2_def so3_def)
  ultimately show ?thesis using booked_same [OF b3 4] 4 by (simp add: same_book_def)
qed

definition clocks :: "(nat \<Rightarrow> frame_env) \<Rightarrow> nat \<Rightarrow> nat \<Rightarrow> (int \<times> int) list" where
  "clocks fe j n = map (\<lambda>k. (fe_fps (fe k), fe_now (fe k))) [j..<n]"

lemma clocks_Cons: "j < n \<Longrightarrow> clocks fe j n = (fe_fps (fe j), fe_now (fe j)) # clocks fe (Suc j) n"
  by (simp add: clocks_def upt_conv_Cons)

lemma session_books:
  assumes "booked w0 i seg n l evs (wr_so w)" and "in_session (wr_so w)"
    and "\<forall>k. session_env (ws_day_of_year (so_ws (wr_so w))) (fe k) \<and> sql_works (fe k)"
    and "ws_seen_keyframe (so_ws (wr_so w)) \<or> fs = [] \<or> f_is_key (hd fs)" and "0 \<le> seg"
  shows "\<exists>l'. booked w0 i seg (n + int (length fs)) l'
    (evs @ motion_log (ivs_fps_high (c_ivs cfg)) (ivs_motion_debounce_ms (c_ivs cfg)) l n (clocks fe (wr_frames w) (wr_frames w + length fs)))
    (wr_so (foldl (writer_body mts ops avtype fe cfg) w fs))"
  using assms(1-4)
proof (induction fs arbitrary: w n l evs)
  case Nil
  then show ?case by (auto simp: clocks_def)
next
  case (Cons f fs)
  let ?e = "fe (wr_frames w)" and ?w = "writer_body mts ops avtype fe cfg w f"
  have e: "session_env (ws_day_of_year (so_ws (wr_so w))) ?e" "sql_works ?e" using Cons.prems(3) by simp_all
  from ingest_booked [OF Cons.prems(1,2) e(1) _ assms(5) e(2), of f cfg mts ops avtype] Cons.prems(4) have
    B: "booked w0 i seg (n + 1) (if motion_at cfg l ?e then fe_now ?e else l)
      (evs @ (if motion_at cfg l ?e then [(n + 1, fe_now ?e)] else [])) (wr_so ?w)" "ws_seen_keyframe (so_ws (wr_so ?w))"
    by simp_all
  have S: "in_session (wr_so ?w)" using stays_session [OF ingest_stays [OF Cons.prems(2) e(1)] Cons.prems(2)] by simp
  have "ws_day_of_year (so_ws (wr_so ?w)) = ws_day_of_year (so_ws (wr_so w))"
    using Cons.prems(3) by (simp add: ingest_same_day session_env_def)
  then have "\<forall>k. session_env (ws_day_of_year (so_ws (wr_so ?w))) (fe k) \<and> sql_works (fe k)" using Cons.prems(3) by simp
  from Cons.IH [OF B(1) S this disjI1 [OF B(2)]] show ?case
    by (auto simp: clocks_Cons motion_at_def ac_simps split: if_splits)
qed

text \<open>Before the first keyframe nothing is booked.\<close>

lemma skipped_frames:
  assumes "\<not> ws_seen_keyframe (so_ws (wr_so w))" and "\<forall>k. snd (fe_today (fe k)) = ws_day_of_year (so_ws (wr_so w))"
    and "\<forall>f\<in>set fs. \<not> f_is_key f"
  shows "wr_so (foldl (writer_body mts ops avtype fe cfg) w fs) = wr_so w \<and>
    wr_frames (foldl (writer_body mts ops avtype fe cfg) w fs) = wr_frames w + length fs"
  using assms by (induction fs arbitrary: w) (simp_all add: ingest_frame_def Let_def)

section \<open>A whole session\<close>

lemma boot_books:
  assumes "storage_init mts ops avtype create_ok e cfg so0 = (0, m)"
    and "date = c_trunc DATE_STR_SIZE (fst (oe_today (be_open e)))" and "date_ok date" and "day_safe date (so_world so0)"
    and "so = wr_so (sm_writer m)" and "ws_event_db (so_ws so) = Some i"
  shows "booked (so_world so) i (ws_current_segment_id (so_ws so)) 0 0 [] so \<and> in_session so \<and> ws_date (so_ws so) = date \<and>
    0 \<le> ws_current_segment_id (so_ws so) \<and> \<not> ws_seen_keyframe (so_ws so) \<and> wr_frames (sm_writer m) = 0"
proof -
  obtain so1 where o: "open_today mts ops (be_open e) cfg (so0\<lparr>so_ws := ws_zero\<rparr>) = (0, so1)"
      and so: "so = on_world (meta_db_ensure_day (be_ensure e)) (so1\<lparr>so_ws := (so_ws so1)\<lparr>ws_meta_db := True\<rparr>\<rparr>)"
    using storage_init_run [OF assms(1)] assms(5) by metis
  have "0 \<le> ws_current_segment_id (so_ws so1) \<and> ws_last_motion_ms (so_ws so1) = 0"
    using o by (auto simp: open_today_def Let_def hls_create_def event_db_close_def ws_zero_def
      dest!: event_db_open_keeps split: prod.splits if_splits)
  moreover have "in_session so1 \<and> ws_date (so_ws so1) = date"
    by (rule open_today_session [OF o assms(2,3)]) (use assms(4) in simp)
  moreover have "day_safe date (so_world so)" using storage_init_day [OF assms(1,3,4,2)] assms(5) by simp
  ultimately show ?thesis
    using open_today_cases [OF o] storage_init_ok [OF assms(1)] assms(6)
    by (auto simp: so booked_def in_session_def on_world_def)
qed

lemma close_books:
  assumes "booked w0 i seg n l evs so" and "0 \<le> seg" and "xe_update xe = SqlOk" and "so' = writer_close mts ops avtype xe so"
  shows "event_pairs i (so_world so') = event_pairs i w0 @ map (\<lambda>(k, t). (seg, k)) evs \<and>
    ed_segments (w_events (so_world so') i) = totals seg n (ed_segments (w_events w0 i)) \<and>
    (evs \<noteq> [] \<longrightarrow> day_count (ws_date (so_ws so)) (int (length evs)) (w_meta (so_world so')))"
proof -
  define f where "f = hls_flush_and_destroy mts ops (xe_flush xe) (xe_realloc xe) avtype so"
  have same: "same_book so f" unfolding f_def by (rule flush_same_book)
  have b: "booked w0 i seg n l evs f" by (rule booked_same [OF assms(1) same])
  have w': "so_world so' = event_db_update_total_frames SqlOk (so_ws f) (so_world f)"
    using assms(3,4) by (simp add: writer_close_def f_def on_world_def Let_def)
  have "w_events (so_world so') = (w_events (so_world f))(i := (w_events (so_world f) i)
      \<lparr>ed_segments := totals seg n (ed_segments (w_events (so_world f) i))\<rparr>)"
    using update_total_run [of "so_ws f" i "so_world f"] b assms(2) by (simp add: w' booked_def)
  then show ?thesis
    using b same totals_cong [of seg "ed_segments (w_events (so_world f) i)" "ed_segments (w_events w0 i)" n]
    by (simp add: booked_def event_pairs_def w' same_book_def)
qed

lemma session_logs:
  assumes "booked w0 i seg 0 0 [] (wr_so w)" and "in_session (wr_so w)" and "0 \<le> seg" and "wr_frames w = 0"
    and "\<not> ws_seen_keyframe (so_ws (wr_so w))"
    and "\<forall>k. session_env (ws_day_of_year (so_ws (wr_so w))) (fe k) \<and> sql_works (fe k)"
    and "cs = clocks fe (length (takeWhile (\<lambda>f. \<not> f_is_key f) fs)) (length fs)"
  shows "\<exists>l. booked w0 i seg (int (length cs)) l
    (motion_log (ivs_fps_high (c_ivs cfg)) (ivs_motion_debounce_ms (c_ivs cfg)) 0 0 cs)
    (wr_so (foldl (writer_body mts ops avtype fe cfg) w fs))"
proof -
  let ?body = "writer_body mts ops avtype fe cfg"
  let ?skip = "takeWhile (\<lambda>f. \<not> f_is_key f) fs" and ?rest = "dropWhile (\<lambda>f. \<not> f_is_key f) fs"
  let ?w = "foldl ?body w ?skip"
  have skip: "wr_so ?w = wr_so w" "wr_frames ?w = length ?skip"
    using skipped_frames [OF assms(5), of fe ?skip mts ops avtype cfg] assms(4,6)
    by (auto simp: session_env_def dest: set_takeWhileD)
  have run: "foldl ?body w fs = foldl ?body ?w ?rest" by (metis foldl_append takeWhile_dropWhile_id)
  have len: "length fs = length ?skip + length ?rest" by (metis length_append takeWhile_dropWhile_id)
  have "?rest = [] \<or> f_is_key (hd ?rest)" using hd_dropWhile [of "\<lambda>f. \<not> f_is_key f" fs] by blast
  from session_books [OF _ _ _ disjI2 [OF this] assms(3), of w0 i 0 0 "[]" ?w fe cfg mts ops avtype] show ?thesis
    using assms(1,2,6,7) skip by (simp add: run len clocks_def)
qed


lemma boot_event_db:
  assumes "storage_init mts ops avtype create_ok e cfg so0 = (0, m)"
  shows "\<exists>i. ws_event_db (so_ws (wr_so (sm_writer m))) = Some i"
proof -
  obtain so1 where o: "open_today mts ops (be_open e) cfg (so0\<lparr>so_ws := ws_zero\<rparr>) = (0, so1)"
      and so: "wr_so (sm_writer m) = on_world (meta_db_ensure_day (be_ensure e)) (so1\<lparr>so_ws := (so_ws so1)\<lparr>ws_meta_db := True\<rparr>\<rparr>)"
    using storage_init_run [OF assms] by metis
  have "\<exists>i. ws_event_db ws' = Some i" if "event_db_open ev ws w = (0, ws', w')" for ev ws w w' and ws' :: "('a, 'b) writer_state_t"
    using that by (auto simp: event_db_open_def db_open_rw_def split: prod.splits if_splits)
  then show ?thesis using o
    by (fastforce simp: so open_today_def Let_def hls_create_def event_db_close_def split: prod.splits if_splits)
qed

definition demo_motion :: "nat \<Rightarrow> frame_env" where
  "demo_motion n = (demo_frame (demo_today, 1) 30)\<lparr>fe_now := 5000 + 700 * int n\<rparr>"


end
